theory Spec2Isabelle
  imports Main "HOL-Library.Sublist"
begin

section \<open>Remote services, exceptions and traces\<close>

text \<open>
  The scripts talk to AWS through boto3 clients and report progress with \<open>print\<close>.
  Every remote call either returns a response or raises; an exception is a value
  \<open>Exn kind message\<close>, and a call that can raise returns \<open>exn + 'a\<close> (\<open>Inl\<close> the
  exception). What a run does is recorded as a list of events: the remote calls it issues,
  the \<open>time.sleep\<close> calls, and the lines it prints.
\<close>

datatype exn_kind =
    ClientError
  | NoSuchBucket
  | ResourceNotFoundException
  | EntityNotFoundException
  | TimeoutExpired
  | KeyError
  | IndexError
  | OtherException

datatype exn = Exn exn_kind string

fun str :: "exn \<Rightarrow> string" where
  "str (Exn k m) = m"

fun kind :: "exn \<Rightarrow> exn_kind" where
  "kind (Exn k m) = k"

datatype api_call =
    DescribeStacks string
  | ListWorkGroups
  | DeleteWorkGroup string bool
  | HeadBucket string
  | ListObjectsV2 string
  | DeleteObjects string "string list"
  | CdkDestroy
  | DeleteFunction string
  | DeleteCrawler string
  | DeleteDatabase string
  | DeleteBucket string
  | DeleteStack string
  | WaitStackDeleteComplete string nat nat
  | ListBuckets
  | ListFunctions
  | GetDatabases
  | GetFunction string
  | GetCrawler string
  | StartCrawler string
  | StartQueryExecution string string string
  | GetQueryExecution string
  | GetQueryResults string

datatype 'm event = Call api_call | Sleep nat | Print 'm

fun is_sleep :: "'m event \<Rightarrow> bool" where
  "is_sleep (Sleep n) = True"
| "is_sleep _ = False"

fun is_call :: "'m event \<Rightarrow> bool" where
  "is_call (Call c) = True"
| "is_call _ = False"

definition sleeps :: "'m event list \<Rightarrow> nat" where
  "sleeps evs = length (filter is_sleep evs)"

definition calls :: "'m event list \<Rightarrow> api_call list" where
  "calls evs = concat (map (\<lambda>e. case e of Call c \<Rightarrow> [c] | _ \<Rightarrow> []) evs)"

text \<open>
  A stack of a \<open>describe_stacks\<close> response: its status and its outputs, the outputs being
  \<open>None\<close> when the stack carries no \<open>Outputs\<close> entry. An output is a dictionary in which
  the service may leave out \<open>OutputKey\<close> or \<open>OutputValue\<close>; the scripts index both, and
  a missing one raises \<open>KeyError\<close>.
\<close>

record stack_output =
  OutputKey :: "string option"
  OutputValue :: "string option"

record stack =
  StackStatus :: string
  Outputs :: "stack_output list option"

text \<open>\<open>str\<close> of the \<open>KeyError\<close> that indexing a dictionary with a missing key raises.\<close>

definition key_error :: "string \<Rightarrow> exn" where
  "key_error k = Exn KeyError (CHR 0x27 # k @ [CHR 0x27])"

section \<open>scripts/deploy_lambda.py: waiting for the function to become active\<close>

datatype deploy_msg =
    WaitingForReady
  | FunctionReady
  | StatusAttempt string nat nat
  | UnexpectedState string
  | StatusCheckError string
  | ReadyTimeout

text \<open>
  The body of the \<open>for attempt in range(max_attempts)\<close> loop of
  \<open>wait_for_function_ready\<close>, from attempt \<open>attempt\<close> on. \<open>get_function k\<close> is what the
  \<open>k\<close>-th \<open>get_function\<close> call (counting from 0) answers: the \<open>State\<close> of the function's
  configuration, or an exception.
\<close>

function ready_loop ::
  "(nat \<Rightarrow> exn + string) \<Rightarrow> string \<Rightarrow> nat \<Rightarrow> nat \<Rightarrow> bool \<times> deploy_msg event list" where
  "ready_loop get_function function_name max_attempts attempt =
     (if attempt < max_attempts then
        (case get_function attempt of
           Inl e \<Rightarrow> (False, [Call (GetFunction function_name), Print (StatusCheckError (str e))])
         | Inr state \<Rightarrow>
             if state = ''Active'' then
               (True, [Call (GetFunction function_name), Print FunctionReady])
             else if state = ''Pending'' then
               (let (r, evs) = ready_loop get_function function_name max_attempts (Suc attempt)
                in (r, Call (GetFunction function_name)
                       # Print (StatusAttempt state (attempt + 1) max_attempts)
                       # Sleep 2 # evs))
             else
               (False, [Call (GetFunction function_name), Print (UnexpectedState state)]))
      else (False, [Print ReadyTimeout]))"
  by pat_completeness auto
termination
  by (relation "measure (\<lambda>(g, f, m, a). m - a)") auto

definition wait_for_function_ready ::
  "(nat \<Rightarrow> exn + string) \<Rightarrow> string \<Rightarrow> nat \<Rightarrow> bool \<times> deploy_msg event list" where
  "wait_for_function_ready get_function function_name max_attempts =
     (let (r, evs) = ready_loop get_function function_name max_attempts 0
      in (r, Print WaitingForReady # evs))"


section \<open>test_pipeline.py: the pipeline tester\<close>

datatype test_msg =
    TestingCrawler string
  | CrawlerState string
  | StartingCrawler
  | CrawlerStarted
  | CrawlerMayTakeMinutes
  | CrawlerAlreadyRunning
  | CrawlerUnexpectedState string
  | CrawlerError string
  | TestingAthena
  | QueryHeader nat string string
  | ExecutionId string
  | StatusSuccess
  | ResultCount string
  | ResultCities nat
  | CityRow nat string string
  | ResultUsers nat
  | UserRow nat string string
  | ResultRows nat
  | StatusFailed string
  | StatusCancelled
  | StatusTimeout
  | StatusError string
  | AllQueriesCompleted
  | MappingHeader
  | MappingEntry string string
  | MappingCsv string string
  | MappingMetadata string string
  | SomeQueriesFailed
  | StackOutputsError string
  | StackOutputsHint

subsection \<open>\<open>test_glue_crawler\<close>\<close>

text \<open>
  \<open>get_crawler k\<close> is the crawler state the \<open>k\<close>-th \<open>get_crawler\<close> call would answer
  (or the exception it raises); \<open>start_crawler\<close> is \<open>Some e\<close> when \<open>start_crawler\<close> raises.
  The method reads the state once, with the call numbered 0.
\<close>

definition test_glue_crawler ::
  "(nat \<Rightarrow> exn + string) \<Rightarrow> exn option \<Rightarrow> string \<Rightarrow> bool \<times> test_msg event list" where
  "test_glue_crawler get_crawler start_crawler crawler_name =
     (case get_crawler 0 of
        Inl e \<Rightarrow>
          (False, [Print (TestingCrawler crawler_name), Call (GetCrawler crawler_name),
                   Print (CrawlerError (str e))])
      | Inr state \<Rightarrow>
          if state = ''READY'' then
            (case start_crawler of
               Some e \<Rightarrow>
                 (False, [Print (TestingCrawler crawler_name), Call (GetCrawler crawler_name),
                          Print (CrawlerState state), Print StartingCrawler,
                          Call (StartCrawler crawler_name), Print (CrawlerError (str e))])
             | None \<Rightarrow>
                 (True, [Print (TestingCrawler crawler_name), Call (GetCrawler crawler_name),
                         Print (CrawlerState state), Print StartingCrawler,
                         Call (StartCrawler crawler_name), Print CrawlerStarted,
                         Print CrawlerMayTakeMinutes]))
          else if state = ''RUNNING'' then
            (True, [Print (TestingCrawler crawler_name), Call (GetCrawler crawler_name),
                    Print (CrawlerState state), Print CrawlerAlreadyRunning])
          else
            (False, [Print (TestingCrawler crawler_name), Call (GetCrawler crawler_name),
                     Print (CrawlerState state), Print (CrawlerUnexpectedState state)]))"

subsection \<open>\<open>test_athena_query\<close>\<close>

record query_info =
  name :: string
  description :: string
  sql :: string
  result_column :: string

text \<open>The three queries of the method; \<open>timestamp\<close> is the \<open>%H:%M\<close> rendering of the clock.\<close>

definition queries :: "string \<Rightarrow> string \<Rightarrow> string \<Rightarrow> query_info list" where
  "queries timestamp database_name table_name =
     [\<lparr>name = ''count_rows_'' @ timestamp,
       description = ''Total record count'',
       sql = ''SELECT COUNT(*) as record_count FROM '' @ database_name @ ''.'' @ table_name,
       result_column = ''record_count''\<rparr>,
      \<lparr>name = ''users_'' @ timestamp,
       description = ''User data'',
       sql = ''SELECT name, email, address_city FROM '' @ database_name @ ''.'' @ table_name
             @ '' LIMIT 5'',
       result_column = ''name''\<rparr>,
      \<lparr>name = ''users_by_city_'' @ timestamp,
       description = ''Users by city'',
       sql = ''SELECT address_city, COUNT(*) as user_count FROM '' @ database_name @ ''.''
             @ table_name @ '' GROUP BY address_city ORDER BY user_count DESC LIMIT 3'',
       result_column = ''address_city''\<rparr>]"

text \<open>
  A result row is its \<open>Data\<close> list; a cell is its \<open>VarCharValue\<close>, absent for a null.
  The result set is \<open>None\<close> when the response has no \<open>ResultSet\<close> or no \<open>Rows\<close>.
\<close>

type_synonym cell = "string option"
type_synonym row = "cell list"

record athena =
  start_query_execution :: "string \<Rightarrow> string \<Rightarrow> string \<Rightarrow> exn + string"
  get_query_execution :: "string \<Rightarrow> nat \<Rightarrow> exn + string \<times> string option"
  get_query_results :: "string \<Rightarrow> exn + row list option"

definition varchar :: "cell \<Rightarrow> string" where
  "varchar c = (case c of None \<Rightarrow> ''N/A'' | Some v \<Rightarrow> v)"

text \<open>Lines 179 to 202: the summary printed for the rows of a succeeded query.\<close>

definition report_rows :: "string \<Rightarrow> row list \<Rightarrow> exn + test_msg event list" where
  "report_rows query_name rows =
     (if length rows > 1 then
        if prefix ''count_rows'' query_name then
          (case rows ! 1 of
             [] \<Rightarrow> Inl (Exn IndexError ''list index out of range'')
           | c # cs \<Rightarrow>
               (case c of
                  None \<Rightarrow> Inl (key_error ''VarCharValue'')
                | Some count \<Rightarrow> Inr [Print (ResultCount count)]))
        else if prefix ''users_by_city'' query_name then
          Inr (Print (ResultCities (length rows - 1))
               # concat (map (\<lambda>(j, r). if length r \<ge> 2
                                then [Print (CityRow j (varchar (r ! 0)) (varchar (r ! 1)))]
                                else [])
                           (List.enumerate 1 (drop 1 rows))))
        else if prefix ''users'' query_name then
          Inr (Print (ResultUsers (length rows - 1))
               # concat (map (\<lambda>(j, r). if length r \<ge> 3
                                then [Print (UserRow j (varchar (r ! 0)) (varchar (r ! 2)))]
                                else [])
                           (List.enumerate 1 (take 3 (drop 1 rows)))))
        else Inr [Print (ResultRows (length rows - 1))]
      else Inr [])"

text \<open>
  Lines 163 to 217: the \<open>for attempt in range(max_attempts)\<close> loop that waits for one
  query, from attempt \<open>attempt\<close> on. The result is \<open>Inl e\<close> when a call inside the loop raised
  (the enclosing \<open>try\<close> catches it), \<open>Inr False\<close> when the loop set \<open>all_queries_passed\<close> to
  \<open>False\<close>, and \<open>Inr True\<close> when it left the flag alone.
\<close>

function query_loop ::
  "athena \<Rightarrow> query_info \<Rightarrow> string \<Rightarrow> nat \<Rightarrow> nat \<Rightarrow> (exn + bool) \<times> test_msg event list" where
  "query_loop env query_info query_execution_id max_attempts attempt =
     (if attempt < max_attempts then
        (case get_query_execution env query_execution_id attempt of
           Inl e \<Rightarrow> (Inl e, [Call (GetQueryExecution query_execution_id)])
         | Inr (status, reason) \<Rightarrow>
             if status = ''SUCCEEDED'' then
               (case get_query_results env query_execution_id of
                  Inl e \<Rightarrow>
                    (Inl e, [Call (GetQueryExecution query_execution_id), Print StatusSuccess,
                             Call (GetQueryResults query_execution_id)])
                | Inr None \<Rightarrow>
                    (Inr True, [Call (GetQueryExecution query_execution_id), Print StatusSuccess,
                                Call (GetQueryResults query_execution_id)])
                | Inr (Some rows) \<Rightarrow>
                    (case report_rows (name query_info) rows of
                       Inl e \<Rightarrow>
                         (Inl e, [Call (GetQueryExecution query_execution_id),
                                  Print StatusSuccess,
                                  Call (GetQueryResults query_execution_id)])
                     | Inr lines \<Rightarrow>
                         (Inr True, [Call (GetQueryExecution query_execution_id),
                                     Print StatusSuccess,
                                     Call (GetQueryResults query_execution_id)] @ lines)))
             else if status = ''FAILED'' then
               (Inr False, [Call (GetQueryExecution query_execution_id),
                            Print (StatusFailed (case reason of None \<Rightarrow> ''Unknown error''
                                                 | Some r \<Rightarrow> r))])
             else if status = ''CANCELLED'' then
               (Inr False, [Call (GetQueryExecution query_execution_id), Print StatusCancelled])
             else
               (let (r, evs) = query_loop env query_info query_execution_id max_attempts
                                 (Suc attempt)
                in (r, Call (GetQueryExecution query_execution_id) # Sleep 2 # evs)))
      else (Inr False, [Print StatusTimeout]))"
  by pat_completeness auto
termination
  by (relation "measure (\<lambda>(e, q, i, m, a). m - a)") auto

text \<open>Line 142: the output location of a query, keyed by the query's name.\<close>

definition result_location :: "string \<Rightarrow> query_info \<Rightarrow> string" where
  "result_location results_bucket query_info =
     ''s3://'' @ results_bucket @ ''/query-results/'' @ name query_info @ ''/''"

text \<open>
  Lines 138 to 221: the body of the loop over the queries, for the \<open>i\<close>-th query. It returns
  whether the query left \<open>all_queries_passed\<close> alone, the records it appended to
  \<open>query_executions\<close>, and its events.
\<close>

definition run_query ::
  "athena \<Rightarrow> string \<Rightarrow> string \<Rightarrow> nat \<Rightarrow> query_info
   \<Rightarrow> bool \<times> (string \<times> query_info) list \<times> test_msg event list" where
  "run_query env workgroup results_bucket i query_info =
     (let custom_result_location = result_location results_bucket query_info;
          start = [Print (QueryHeader i (description query_info) (name query_info)),
                   Call (StartQueryExecution (sql query_info) workgroup custom_result_location)]
      in case start_query_execution env (sql query_info) workgroup custom_result_location of
           Inl e \<Rightarrow> (False, [], start @ [Print (StatusError (str e))])
         | Inr query_execution_id \<Rightarrow>
             (case query_loop env query_info query_execution_id 30 0 of
                (Inl e, evs) \<Rightarrow>
                  (False, [(query_execution_id, query_info)],
                   start @ Print (ExecutionId query_execution_id) # evs
                     @ [Print (StatusError (str e))])
              | (Inr ok, evs) \<Rightarrow>
                  (ok, [(query_execution_id, query_info)],
                   start @ Print (ExecutionId query_execution_id) # evs)))"

fun run_queries ::
  "athena \<Rightarrow> string \<Rightarrow> string \<Rightarrow> nat \<Rightarrow> query_info list
   \<Rightarrow> bool \<times> (string \<times> query_info) list \<times> test_msg event list" where
  "run_queries env workgroup results_bucket i [] = (True, [], [])"
| "run_queries env workgroup results_bucket i (q # qs) =
     (let (ok, execs, evs) = run_query env workgroup results_bucket i q;
          (ok', execs', evs') = run_queries env workgroup results_bucket (Suc i) qs
      in (ok \<and> ok', execs @ execs', evs @ evs'))"

definition mapping_lines :: "string \<Rightarrow> (string \<times> query_info) list \<Rightarrow> test_msg event list" where
  "mapping_lines results_bucket query_executions =
     concat (map (\<lambda>(exec_id, query_info).
                    [Print (MappingEntry (description query_info) exec_id),
                     Print (MappingCsv results_bucket exec_id),
                     Print (MappingMetadata results_bucket exec_id)]) query_executions)"

definition test_athena_query ::
  "athena \<Rightarrow> string \<Rightarrow> string \<Rightarrow> string \<Rightarrow> string \<Rightarrow> string
   \<Rightarrow> (bool \<times> (string \<times> query_info) list) \<times> test_msg event list" where
  "test_athena_query env timestamp workgroup database_name table_name results_bucket =
     (let (all_queries_passed, query_executions, evs) =
            run_queries env workgroup results_bucket 1 (queries timestamp database_name table_name)
      in ((all_queries_passed, query_executions),
          Print TestingAthena # evs @
          (if all_queries_passed
           then Print AllQueriesCompleted # Print MappingHeader
                  # mapping_lines results_bucket query_executions
           else [Print SomeQueriesFailed])))"

subsection \<open>\<open>get_stack_outputs\<close>\<close>

text \<open>
  The loop over the outputs (lines 312 to 321), on the local dictionary \<open>config\<close>. It ends
  with \<open>Inl\<close> the \<open>KeyError\<close> when an output has no \<open>OutputKey\<close> or no \<open>OutputValue\<close>.
\<close>

fun tester_outputs ::
  "(string \<rightharpoonup> string) \<Rightarrow> stack_output list \<Rightarrow> exn + (string \<rightharpoonup> string)" where
  "tester_outputs config [] = Inr config"
| "tester_outputs config (output # outputs) =
     (case OutputKey output of
        None \<Rightarrow> Inl (key_error ''OutputKey'')
      | Some key \<Rightarrow>
          (case OutputValue output of
             None \<Rightarrow> Inl (key_error ''OutputValue'')
           | Some v \<Rightarrow>
               tester_outputs
                 (if key = ''LambdaFunctionName'' then config(''lambda_function_name'' \<mapsto> v)
                  else if key = ''DataBucketName'' then config(''data_bucket_name'' \<mapsto> v)
                  else if key = ''AthenaResultsBucketName''
                    then config(''athena_results_bucket_name'' \<mapsto> v)
                  else config) outputs))"

definition tester_defaults :: "string \<rightharpoonup> string" where
  "tester_defaults =
     [''glue_database_name'' \<mapsto> ''data_pipeline_db'',
      ''glue_crawler_name'' \<mapsto> ''data-pipeline-crawler'',
      ''athena_workgroup'' \<mapsto> ''data-pipeline-workgroup'']"

text \<open>
  \<open>client\<close> is \<open>Some e\<close> when \<open>boto3.client\<close> raises \<open>e\<close> (line 301, inside the \<open>try\<close>);
  \<open>describe_stacks\<close> is the outcome of the one \<open>describe_stacks\<close> call. The function returns
  \<open>None\<close> where the Python returns \<open>None\<close>: on every exception raised inside the \<open>try\<close>.
\<close>

definition get_stack_outputs ::
  "exn option \<Rightarrow> (exn + stack list) \<Rightarrow> (string \<rightharpoonup> string) option \<times> test_msg event list" where
  "get_stack_outputs client describe_stacks =
     (case client of
        Some e \<Rightarrow> (None, [Print (StackOutputsError (str e)), Print StackOutputsHint])
      | None \<Rightarrow>
          (let failed = (\<lambda>e. (None, [Call (DescribeStacks ''DataPipelineStack''),
                                    Print (StackOutputsError (str e)), Print StackOutputsHint]))
           in case describe_stacks of
                Inl e \<Rightarrow> failed e
              | Inr [] \<Rightarrow> failed (Exn IndexError ''list index out of range'')
              | Inr (st # sts) \<Rightarrow>
                  (case Outputs st of
                     None \<Rightarrow> failed (key_error ''Outputs'')
                   | Some outputs \<Rightarrow>
                       (case tester_outputs tester_defaults outputs of
                          Inl e \<Rightarrow> failed e
                        | Inr config \<Rightarrow>
                            (Some config, [Call (DescribeStacks ''DataPipelineStack'')])))))"

section \<open>Vocabulary for the statements about the polling loops\<close>

text \<open>
  The events of \<open>k\<close> consecutive \<open>Pending\<close> attempts of \<open>wait_for_function_ready\<close>, starting at
  attempt \<open>a\<close>: each is one \<open>get_function\<close> call, one status line and one two-second sleep.
\<close>

definition pending_events :: "string \<Rightarrow> nat \<Rightarrow> nat \<Rightarrow> nat \<Rightarrow> deploy_msg event list" where
  "pending_events function_name max_attempts a k =
     concat (map (\<lambda>j. [Call (GetFunction function_name),
                        Print (StatusAttempt ''Pending'' (j + 1) max_attempts), Sleep 2])
                 [a..<a + k])"

text \<open>
  A \<open>get_query_execution\<close> answer that takes the last \<open>else\<close> branch of the Athena loop
  (line 213): the call returned, with a state other than the three the loop names.
\<close>

definition in_progress :: "(exn + string \<times> string option) \<Rightarrow> bool" where
  "in_progress r =
     (case r of
        Inl e \<Rightarrow> False
      | Inr (status, reason) \<Rightarrow>
          status \<noteq> ''SUCCEEDED'' \<and> status \<noteq> ''FAILED'' \<and> status \<noteq> ''CANCELLED'')"

text \<open>The events of \<open>k\<close> such attempts: one \<open>get_query_execution\<close> call and one sleep each.\<close>

definition waiting_events :: "string \<Rightarrow> nat \<Rightarrow> test_msg event list" where
  "waiting_events query_execution_id k =
     concat (replicate k [Call (GetQueryExecution query_execution_id), Sleep 2])"

section \<open>Vocabulary for the statements about the query batch\<close>

fun is_start_query :: "api_call \<Rightarrow> bool" where
  "is_start_query (StartQueryExecution s w l) = True"
| "is_start_query _ = False"

text \<open>
  The results of an execution can be fetched and summarised without an exception: neither
  \<open>get_query_results\<close> nor the summary of lines 177 to 202 raises.
\<close>

definition results_readable :: "athena \<Rightarrow> query_info \<Rightarrow> string \<Rightarrow> bool" where
  "results_readable env query_info query_execution_id =
     (case get_query_results env query_execution_id of
        Inl e \<Rightarrow> False
      | Inr None \<Rightarrow> True
      | Inr (Some rows) \<Rightarrow>
          (case report_rows (name query_info) rows of Inl e \<Rightarrow> False | Inr lines \<Rightarrow> True))"

text \<open>The records \<open>query_executions\<close> holds after the batch: one per query whose start returned.\<close>

definition started :: "athena \<Rightarrow> string \<Rightarrow> string \<Rightarrow> query_info list \<Rightarrow> (string \<times> query_info) list" where
  "started env workgroup results_bucket qs =
     concat (map (\<lambda>q. case start_query_execution env (sql q) workgroup
                              (result_location results_bucket q) of
                         Inl e \<Rightarrow> []
                       | Inr query_execution_id \<Rightarrow> [(query_execution_id, q)]) qs)"

section \<open>Concrete environments\<close>

text \<open>
  An Athena service whose every execution answers the status sequence \<open>st\<close> and has an
  empty result response.
\<close>

definition athena_seq :: "(nat \<Rightarrow> exn + string \<times> string option) \<Rightarrow> athena" where
  "athena_seq st = \<lparr>start_query_execution = (\<lambda>s w l. Inr ''id''),
                    get_query_execution = (\<lambda>qid. st),
                    get_query_results = (\<lambda>qid. Inr None)\<rparr>"


text \<open>An execution whose status is always the unknown value \<open>PAUSED\<close>, and a query to poll.\<close>

definition athena_paused :: athena where
  "athena_paused = athena_seq (\<lambda>k. Inr (''PAUSED'', None))"

definition probe_query :: query_info where
  "probe_query =
     \<lparr>name = ''users_12:00'', description = ''User data'',
      sql = ''SELECT name, email, address_city FROM db.t LIMIT 5'', result_column = ''name''\<rparr>"

text \<open>A crawler that is \<open>RUNNING\<close> at the first read and \<open>READY\<close> from the second read on.\<close>

definition crawler_running_then_ready :: "nat \<Rightarrow> exn + string" where
  "crawler_running_then_ready k = (if k = 0 then Inr ''RUNNING'' else Inr ''READY'')"

text \<open>
  An Athena service on which every query is accepted, is \<open>RUNNING\<close> at the first poll and
  \<open>SUCCEEDED\<close> from the second, and has a header row and one data row as result.
\<close>

definition athena_all_succeed :: athena where
  "athena_all_succeed =
     \<lparr>start_query_execution = (\<lambda>s w l. Inr (''exec:'' @ l)),
      get_query_execution =
        (\<lambda>qid k. if k < 1 then Inr (''RUNNING'', None) else Inr (''SUCCEEDED'', None)),
      get_query_results = (\<lambda>qid. Inr (Some [[Some ''record_count''], [Some ''10'']]))\<rparr>"

text \<open>
  An Athena service on which every query is accepted and is \<open>SUCCEEDED\<close> at the first poll,
  but reading the results is refused.
\<close>

definition athena_denied :: athena where
  "athena_denied =
     \<lparr>start_query_execution = (\<lambda>s w l. Inr (''exec:'' @ l)),
      get_query_execution = (\<lambda>qid k. Inr (''SUCCEEDED'', None)),
      get_query_results = (\<lambda>qid. Inl (Exn ClientError ''AccessDenied''))\<rparr>"

section \<open>scripts/cleanup_aws.py: tearing the pipeline down\<close>

text \<open>
  The remote side is a world of type \<open>'w\<close> that every call may change: a call takes the world
  and returns its outcome with the world after it. \<open>paginate\<close> stands for iterating the
  \<open>list_objects_v2\<close> paginator of a bucket: the finite list of page fetches, each a page
  (its \<open>Contents\<close> keys, \<open>None\<close> when the page has no \<open>Contents\<close>) or the exception that
  fetch raises. \<open>cdk_destroy\<close> is the \<open>npx cdk destroy --force\<close> subprocess: its return
  code and standard error, or the exception \<open>subprocess.run\<close> raises. \<open>list_of_set\<close> is
  the list Python makes of the set of the elements of a list, \<open>list(set(xs))\<close>.
\<close>

record 'w aws =
  describe_stacks :: "string \<Rightarrow> 'w \<Rightarrow> (exn + stack list) \<times> 'w"
  list_work_groups :: "'w \<Rightarrow> (exn + string list option) \<times> 'w"
  delete_work_group :: "string \<Rightarrow> bool \<Rightarrow> 'w \<Rightarrow> exn option \<times> 'w"
  head_bucket :: "string \<Rightarrow> 'w \<Rightarrow> exn option \<times> 'w"
  paginate :: "string \<Rightarrow> 'w \<Rightarrow> (exn + string list option) list \<times> 'w"
  delete_objects :: "string \<Rightarrow> string list \<Rightarrow> 'w \<Rightarrow> exn option \<times> 'w"
  cdk_destroy :: "'w \<Rightarrow> (exn + int \<times> string) \<times> 'w"
  delete_function :: "string \<Rightarrow> 'w \<Rightarrow> exn option \<times> 'w"
  delete_crawler :: "string \<Rightarrow> 'w \<Rightarrow> exn option \<times> 'w"
  delete_database :: "string \<Rightarrow> 'w \<Rightarrow> exn option \<times> 'w"
  delete_bucket :: "string \<Rightarrow> 'w \<Rightarrow> exn option \<times> 'w"
  delete_stack :: "string \<Rightarrow> 'w \<Rightarrow> exn option \<times> 'w"
  wait_stack_delete_complete :: "string \<Rightarrow> nat \<Rightarrow> nat \<Rightarrow> 'w \<Rightarrow> exn option \<times> 'w"
  list_buckets :: "'w \<Rightarrow> (exn + string list) \<times> 'w"
  list_functions :: "'w \<Rightarrow> (exn + string list) \<times> 'w"
  get_databases :: "'w \<Rightarrow> (exn + string list) \<times> 'w"
  list_of_set :: "string list \<Rightarrow> string list"

text \<open>
  \<open>self.config\<close>: five keys that \<open>__init__\<close> always sets, and the two bucket keys that only
  \<open>get_stack_resources\<close> adds (the code tests them with \<open>in\<close>).
\<close>

record config =
  stack_name :: string
  workgroup_name :: string
  database_name :: string
  crawler_name :: string
  lambda_function_name :: string
  data_bucket :: "string option"
  results_bucket :: "string option"

definition init_config :: config where
  "init_config =
     \<lparr>stack_name = ''DataPipelineStack'',
      workgroup_name = ''data-pipeline-workgroup'',
      database_name = ''data_pipeline_db'',
      crawler_name = ''data-pipeline-crawler'',
      lambda_function_name = ''data-pipeline-data-extractor'',
      data_bucket = None,
      results_bucket = None\<rparr>"

datatype category = CloudFormation | S3 | Lambda | Glue | Athena

text \<open>
  The line a check of \<open>verify_cleanup\<close> prints: the stack reported deleted (line 278), a
  category with nothing left (lines 284, 287, 298, 315, 332, 349), the status of a stack that
  is still there (line 281), the names found (lines 301, 318, 335, 352), or the error of a
  listing that raised (lines 304, 321, 338, 355).
\<close>

datatype verdict =
    StackDeletedSuccessfully
  | Absent category
  | StackStatusIs string
  | Found category "string list"
  | CheckError category string

text \<open>The lines of each method, and the lines of \<open>run_cleanup\<close> itself.\<close>

datatype resolve_msg =
    GettingResourceNames
  | StackNotFoundMayBeDeleted
  | StackBeingDeleted string
  | RetrievedResourceNames
  | CouldNotGetStackInfo string
  | WillUseDefaultNames

datatype workgroup_msg =
    WorkGroupNotFound
  | DeletedWorkGroup string
  | WorkGroupError string

datatype bucket_msg =
    EmptiedBucket string nat
  | BucketNotFound string
  | BucketError string string

datatype cdk_msg =
    CdkDestroyCompleted
  | CdkDestroyFailed string
  | CdkDestroyTimedOut
  | CdkDestroyError string

datatype manual_msg =
    DeletedFunction string
  | FunctionNotFound
  | FunctionDeleteError string
  | DeletedCrawler string
  | CrawlerNotFound
  | CrawlerDeleteError string
  | DeletedDatabase string
  | DatabaseNotFound
  | DatabaseDeleteError string
  | DeletedBucket string
  | BucketAlreadyDeleted string
  | BucketDeleteError string string

datatype stack_msg =
    StackAlreadyDeleted
  | InitiatedStackDeletion string
  | WaitingForStackDeletion
  | StackDeleted
  | StackDeleteError string

datatype run_msg =
    Banner
  | CdkFailedAttemptingManual
  | StackNotFoundRunningManual
  | SummaryHeader
  | AllResourcesDeleted
  | SomeResourcesMayExist

text \<open>
  A printed line: the heading of a numbered step, or a line of one of the methods.
\<close>

datatype cleanup_msg =
    Step nat
  | Resolving resolve_msg
  | WorkGroup workgroup_msg
  | Emptying bucket_msg
  | Destroy cdk_msg
  | Manual manual_msg
  | StackDeletion stack_msg
  | Verify verdict
  | Run run_msg

type_synonym trace = "cleanup_msg event list"

text \<open>The boto3 exception classes that derive from \<open>ClientError\<close>.\<close>

fun is_client_error :: "exn_kind \<Rightarrow> bool" where
  "is_client_error ClientError = True"
| "is_client_error NoSuchBucket = True"
| "is_client_error ResourceNotFoundException = True"
| "is_client_error EntityNotFoundException = True"
| "is_client_error _ = False"

subsection \<open>\<open>get_stack_resources\<close>\<close>

text \<open>
  The loop over the outputs (lines 60 to 69). It changes \<open>self.config\<close> in place, so when an
  output without \<open>OutputKey\<close> or \<open>OutputValue\<close> raises, the configuration keeps what the
  outputs before it have set: the result is the exception, if any, with the configuration
  reached.
\<close>

fun stack_outputs :: "config \<Rightarrow> stack_output list \<Rightarrow> exn option \<times> config" where
  "stack_outputs cfg [] = (None, cfg)"
| "stack_outputs cfg (output # outputs) =
     (case OutputKey output of
        None \<Rightarrow> (Some (key_error ''OutputKey''), cfg)
      | Some key \<Rightarrow>
          (case OutputValue output of
             None \<Rightarrow> (Some (key_error ''OutputValue''), cfg)
           | Some v \<Rightarrow>
               stack_outputs
                 (if key = ''DataBucketName'' then cfg\<lparr>data_bucket := Some v\<rparr>
                  else if key = ''AthenaResultsBucketName'' then cfg\<lparr>results_bucket := Some v\<rparr>
                  else if key = ''LambdaFunctionName'' then cfg\<lparr>lambda_function_name := v\<rparr>
                  else cfg) outputs))"

definition get_stack_resources ::
  "'w aws \<Rightarrow> config \<Rightarrow> 'w \<Rightarrow> (bool \<times> config) \<times> 'w \<times> trace" where
  "get_stack_resources env cfg w =
     (case describe_stacks env (stack_name cfg) w of
        (Inl e, w1) \<Rightarrow>
          ((False, cfg), w1,
           [Print (Resolving GettingResourceNames), Call (DescribeStacks (stack_name cfg)),
            Print (Resolving (CouldNotGetStackInfo (str e))), Print (Resolving WillUseDefaultNames)])
      | (Inr [], w1) \<Rightarrow>
          ((False, cfg), w1,
           [Print (Resolving GettingResourceNames), Call (DescribeStacks (stack_name cfg)),
            Print (Resolving StackNotFoundMayBeDeleted)])
      | (Inr (st # sts), w1) \<Rightarrow>
          if sublist ''DELETE'' (StackStatus st) then
            ((False, cfg), w1,
             [Print (Resolving GettingResourceNames), Call (DescribeStacks (stack_name cfg)),
              Print (Resolving (StackBeingDeleted (StackStatus st)))])
          else
            (case stack_outputs cfg (case Outputs st of None \<Rightarrow> [] | Some outputs \<Rightarrow> outputs) of
               (Some e, cfg') \<Rightarrow>
                 ((False, cfg'), w1,
                  [Print (Resolving GettingResourceNames), Call (DescribeStacks (stack_name cfg)),
                   Print (Resolving (CouldNotGetStackInfo (str e))),
                   Print (Resolving WillUseDefaultNames)])
             | (None, cfg') \<Rightarrow>
                 ((True, cfg'), w1,
                  [Print (Resolving GettingResourceNames), Call (DescribeStacks (stack_name cfg)),
                   Print (Resolving RetrievedResourceNames)])))"

subsection \<open>\<open>clean_athena_workgroup\<close>\<close>

definition clean_athena_workgroup :: "'w aws \<Rightarrow> config \<Rightarrow> 'w \<Rightarrow> bool \<times> 'w \<times> trace" where
  "clean_athena_workgroup env cfg w =
     (case list_work_groups env w of
        (Inl e, w1) \<Rightarrow>
          (False, w1, [Print (Step 1), Call ListWorkGroups, Print (WorkGroup (WorkGroupError (str e)))])
      | (Inr response, w1) \<Rightarrow>
          (let workgroups = (case response of None \<Rightarrow> [] | Some wgs \<Rightarrow> wgs)
           in if workgroup_name cfg \<notin> set workgroups then
                (True, w1, [Print (Step 1), Call ListWorkGroups, Print (WorkGroup WorkGroupNotFound)])
              else
                (case delete_work_group env (workgroup_name cfg) True w1 of
                   (Some e, w2) \<Rightarrow>
                     (False, w2,
                      [Print (Step 1), Call ListWorkGroups,
                       Call (DeleteWorkGroup (workgroup_name cfg) True),
                       Print (WorkGroup (WorkGroupError (str e)))])
                 | (None, w2) \<Rightarrow>
                     (True, w2,
                      [Print (Step 1), Call ListWorkGroups,
                       Call (DeleteWorkGroup (workgroup_name cfg) True),
                       Print (WorkGroup (DeletedWorkGroup (workgroup_name cfg)))]))))"

subsection \<open>\<open>empty_s3_buckets\<close>\<close>

text \<open>
  Lines 134 to 143: the loop over the pages of one bucket, with the running \<open>delete_count\<close>.
  It ends with \<open>Inl e\<close> when a page fetch or a \<open>delete_objects\<close> call raises.
\<close>

fun delete_pages ::
  "'w aws \<Rightarrow> string \<Rightarrow> (exn + string list option) list \<Rightarrow> nat \<Rightarrow> 'w
   \<Rightarrow> (exn + nat) \<times> 'w \<times> trace" where
  "delete_pages env bucket_name [] delete_count w = (Inr delete_count, w, [])"
| "delete_pages env bucket_name (Inl e # pages) delete_count w =
     (Inl e, w, [Call (ListObjectsV2 bucket_name)])"
| "delete_pages env bucket_name (Inr None # pages) delete_count w =
     (let (r, w1, evs) = delete_pages env bucket_name pages delete_count w
      in (r, w1, Call (ListObjectsV2 bucket_name) # evs))"
| "delete_pages env bucket_name (Inr (Some objects) # pages) delete_count w =
     (if objects = [] then
        (let (r, w1, evs) = delete_pages env bucket_name pages delete_count w
         in (r, w1, Call (ListObjectsV2 bucket_name) # evs))
      else
        (case delete_objects env bucket_name objects w of
           (Some e, w1) \<Rightarrow>
             (Inl e, w1, [Call (ListObjectsV2 bucket_name),
                          Call (DeleteObjects bucket_name objects)])
         | (None, w1) \<Rightarrow>
             (let (r, w2, evs) =
                    delete_pages env bucket_name pages (delete_count + length objects) w1
              in (r, w2, Call (ListObjectsV2 bucket_name)
                         # Call (DeleteObjects bucket_name objects) # evs))))"

text \<open>The two \<open>except\<close> clauses of the loop body (lines 147 to 150).\<close>

definition bucket_except :: "string \<Rightarrow> exn \<Rightarrow> bucket_msg" where
  "bucket_except bucket_name e =
     (if kind e = NoSuchBucket then BucketNotFound bucket_name
      else BucketError bucket_name (str e))"

text \<open>Lines 126 to 150: the body of the loop over the buckets, for one bucket.\<close>

definition empty_bucket :: "'w aws \<Rightarrow> string \<Rightarrow> 'w \<Rightarrow> 'w \<times> trace" where
  "empty_bucket env bucket_name w =
     (case head_bucket env bucket_name w of
        (Some e, w1) \<Rightarrow>
          (w1, [Call (HeadBucket bucket_name), Print (Emptying (bucket_except bucket_name e))])
      | (None, w1) \<Rightarrow>
          (let (pages, w2) = paginate env bucket_name w1
           in case delete_pages env bucket_name pages 0 w2 of
                (Inl e, w3, evs) \<Rightarrow>
                  (w3, Call (HeadBucket bucket_name) # evs
                       @ [Print (Emptying (bucket_except bucket_name e))])
              | (Inr delete_count, w3, evs) \<Rightarrow>
                  (w3, Call (HeadBucket bucket_name) # evs
                       @ [Print (Emptying (EmptiedBucket bucket_name delete_count))])))"

fun empty_buckets :: "'w aws \<Rightarrow> string list \<Rightarrow> 'w \<Rightarrow> 'w \<times> trace" where
  "empty_buckets env [] w = (w, [])"
| "empty_buckets env (bucket_name # buckets) w =
     (let (w1, evs) = empty_bucket env bucket_name w;
          (w2, evs') = empty_buckets env buckets w1
      in (w2, evs @ evs'))"

text \<open>
  \<open>buckets_to_empty\<close> after lines 108 to 123. The order in which Python iterates
  \<open>list(set(...))\<close> is not fixed by the program (it depends on the hash seed of the run); it
  is the environment's \<open>list_of_set\<close>.
\<close>

definition buckets_to_empty :: "'w aws \<Rightarrow> config \<Rightarrow> string list" where
  "buckets_to_empty env cfg =
     list_of_set env
       ((case data_bucket cfg of None \<Rightarrow> [] | Some b \<Rightarrow> [b])
        @ (case results_bucket cfg of None \<Rightarrow> [] | Some b \<Rightarrow> [b])
        @ [''data-pipeline-bucket-jsonplaceholder'',
           ''data-pipeline-athena-results-jsonplaceholder''])"

definition empty_s3_buckets :: "'w aws \<Rightarrow> config \<Rightarrow> 'w \<Rightarrow> bool \<times> 'w \<times> trace" where
  "empty_s3_buckets env cfg w =
     (let (w1, evs) = empty_buckets env (buckets_to_empty env cfg) w
      in (True, w1, Print (Step 2) # evs))"

subsection \<open>\<open>run_cdk_destroy\<close>\<close>

definition run_cdk_destroy :: "'w aws \<Rightarrow> 'w \<Rightarrow> bool \<times> 'w \<times> trace" where
  "run_cdk_destroy env w =
     (case cdk_destroy env w of
        (Inl e, w1) \<Rightarrow>
          (False, w1,
           [Print (Step 3), Call CdkDestroy,
            Print (Destroy (if kind e = TimeoutExpired then CdkDestroyTimedOut
                            else CdkDestroyError (str e)))])
      | (Inr (returncode, stderr), w1) \<Rightarrow>
          if returncode = 0 then
            (True, w1, [Print (Step 3), Call CdkDestroy, Print (Destroy CdkDestroyCompleted)])
          else
            (False, w1, [Print (Step 3), Call CdkDestroy, Print (Destroy (CdkDestroyFailed stderr))]))"

subsection \<open>\<open>manual_resource_cleanup\<close>\<close>

text \<open>Each \<open>try\<close> block of the method is one step; none of them lets an exception out.\<close>

definition delete_function_step :: "'w aws \<Rightarrow> config \<Rightarrow> 'w \<Rightarrow> 'w \<times> trace" where
  "delete_function_step env cfg w =
     (case delete_function env (lambda_function_name cfg) w of
        (None, w1) \<Rightarrow>
          (w1, [Call (DeleteFunction (lambda_function_name cfg)),
                Print (Manual (DeletedFunction (lambda_function_name cfg)))])
      | (Some e, w1) \<Rightarrow>
          (w1, [Call (DeleteFunction (lambda_function_name cfg)),
                Print (Manual (if kind e = ResourceNotFoundException then FunctionNotFound
                               else FunctionDeleteError (str e)))]))"

definition delete_crawler_step :: "'w aws \<Rightarrow> config \<Rightarrow> 'w \<Rightarrow> 'w \<times> trace" where
  "delete_crawler_step env cfg w =
     (case delete_crawler env (crawler_name cfg) w of
        (None, w1) \<Rightarrow>
          (w1, [Call (DeleteCrawler (crawler_name cfg)),
                Print (Manual (DeletedCrawler (crawler_name cfg)))])
      | (Some e, w1) \<Rightarrow>
          (w1, [Call (DeleteCrawler (crawler_name cfg)),
                Print (Manual (if kind e = EntityNotFoundException then CrawlerNotFound
                               else CrawlerDeleteError (str e)))]))"

definition delete_database_step :: "'w aws \<Rightarrow> config \<Rightarrow> 'w \<Rightarrow> 'w \<times> trace" where
  "delete_database_step env cfg w =
     (case delete_database env (database_name cfg) w of
        (None, w1) \<Rightarrow>
          (w1, [Call (DeleteDatabase (database_name cfg)),
                Print (Manual (DeletedDatabase (database_name cfg)))])
      | (Some e, w1) \<Rightarrow>
          (w1, [Call (DeleteDatabase (database_name cfg)),
                Print (Manual (if kind e = EntityNotFoundException then DatabaseNotFound
                               else DatabaseDeleteError (str e)))]))"

definition delete_bucket_step :: "'w aws \<Rightarrow> string \<Rightarrow> 'w \<Rightarrow> 'w \<times> trace" where
  "delete_bucket_step env bucket_name w =
     (case delete_bucket env bucket_name w of
        (None, w1) \<Rightarrow>
          (w1, [Call (DeleteBucket bucket_name), Print (Manual (DeletedBucket bucket_name))])
      | (Some e, w1) \<Rightarrow>
          (w1, [Call (DeleteBucket bucket_name),
                Print (Manual (if kind e = NoSuchBucket then BucketAlreadyDeleted bucket_name
                               else BucketDeleteError bucket_name (str e)))]))"

fun delete_bucket_steps :: "'w aws \<Rightarrow> string list \<Rightarrow> 'w \<Rightarrow> 'w \<times> trace" where
  "delete_bucket_steps env [] w = (w, [])"
| "delete_bucket_steps env (bucket_name # buckets) w =
     (let (w1, evs) = delete_bucket_step env bucket_name w;
          (w2, evs') = delete_bucket_steps env buckets w1
      in (w2, evs @ evs'))"

text \<open>
  The buckets line 219 loops over: \<open>data_bucket\<close> then \<open>results_bucket\<close>, each only when
  the key is in the configuration.
\<close>

definition configured_buckets :: "config \<Rightarrow> string list" where
  "configured_buckets cfg =
     (case data_bucket cfg of None \<Rightarrow> [] | Some b \<Rightarrow> [b])
     @ (case results_bucket cfg of None \<Rightarrow> [] | Some b \<Rightarrow> [b])"

definition manual_resource_cleanup :: "'w aws \<Rightarrow> config \<Rightarrow> 'w \<Rightarrow> 'w \<times> trace" where
  "manual_resource_cleanup env cfg w =
     (let (w1, e1) = delete_function_step env cfg w;
          (w2, e2) = delete_crawler_step env cfg w1;
          (w3, e3) = delete_database_step env cfg w2;
          (w4, e4) = delete_bucket_steps env (configured_buckets cfg) w3
      in (w4, Print (Step 4) # e1 @ e2 @ e3 @ e4))"

subsection \<open>\<open>delete_cloudformation_stack\<close>\<close>

text \<open>The two \<open>except\<close> clauses of the method (lines 255 to 264).\<close>

definition stack_except :: "exn \<Rightarrow> bool \<times> stack_msg" where
  "stack_except e =
     (if is_client_error (kind e) then
        (if sublist ''does not exist'' (str e) then (True, StackAlreadyDeleted)
         else (False, StackDeleteError (str e)))
      else (False, StackDeleteError (str e)))"

definition delete_cloudformation_stack ::
  "'w aws \<Rightarrow> config \<Rightarrow> 'w \<Rightarrow> bool \<times> 'w \<times> trace" where
  "delete_cloudformation_stack env cfg w =
     (case describe_stacks env (stack_name cfg) w of
        (Inl e, w1) \<Rightarrow>
          (fst (stack_except e), w1,
           [Print (Step 5), Call (DescribeStacks (stack_name cfg)), Print (StackDeletion (snd (stack_except e)))])
      | (Inr [], w1) \<Rightarrow>
          (True, w1,
           [Print (Step 5), Call (DescribeStacks (stack_name cfg)), Print (StackDeletion StackAlreadyDeleted)])
      | (Inr (st # sts), w1) \<Rightarrow>
          (case delete_stack env (stack_name cfg) w1 of
             (Some e, w2) \<Rightarrow>
               (fst (stack_except e), w2,
                [Print (Step 5), Call (DescribeStacks (stack_name cfg)),
                 Call (DeleteStack (stack_name cfg)), Print (StackDeletion (snd (stack_except e)))])
           | (None, w2) \<Rightarrow>
               (case wait_stack_delete_complete env (stack_name cfg) 15 40 w2 of
                  (Some e, w3) \<Rightarrow>
                    (fst (stack_except e), w3,
                     [Print (Step 5), Call (DescribeStacks (stack_name cfg)),
                      Call (DeleteStack (stack_name cfg)),
                      Print (StackDeletion (InitiatedStackDeletion (stack_name cfg))),
                      Print (StackDeletion WaitingForStackDeletion),
                      Call (WaitStackDeleteComplete (stack_name cfg) 15 40),
                      Print (StackDeletion (snd (stack_except e)))])
                | (None, w3) \<Rightarrow>
                    (True, w3,
                     [Print (Step 5), Call (DescribeStacks (stack_name cfg)),
                      Call (DeleteStack (stack_name cfg)),
                      Print (StackDeletion (InitiatedStackDeletion (stack_name cfg))),
                      Print (StackDeletion WaitingForStackDeletion),
                      Call (WaitStackDeleteComplete (stack_name cfg) 15 40),
                      Print (StackDeletion StackDeleted)]))))"

subsection \<open>\<open>verify_cleanup\<close>\<close>

text \<open>
  Each of the five \<open>try\<close> blocks appends one boolean to \<open>verification_results\<close> and prints
  one line; the model has one function per block, returning that boolean.
\<close>

definition verify_stack :: "'w aws \<Rightarrow> config \<Rightarrow> 'w \<Rightarrow> bool \<times> 'w \<times> trace" where
  "verify_stack env cfg w =
     (case describe_stacks env (stack_name cfg) w of
        (Inl e, w1) \<Rightarrow>
          (True, w1, [Call (DescribeStacks (stack_name cfg)), Print (Verify (Absent CloudFormation))])
      | (Inr [], w1) \<Rightarrow>
          (True, w1, [Call (DescribeStacks (stack_name cfg)), Print (Verify (Absent CloudFormation))])
      | (Inr (st # sts), w1) \<Rightarrow>
          if sublist ''DELETE_COMPLETE'' (StackStatus st) then
            (True, w1, [Call (DescribeStacks (stack_name cfg)), Print (Verify StackDeletedSuccessfully)])
          else
            (False, w1, [Call (DescribeStacks (stack_name cfg)),
                         Print (Verify (StackStatusIs (StackStatus st)))]))"

definition verify_buckets :: "'w aws \<Rightarrow> 'w \<Rightarrow> bool \<times> 'w \<times> trace" where
  "verify_buckets env w =
     (case list_buckets env w of
        (Inl e, w1) \<Rightarrow> (False, w1, [Call ListBuckets, Print (Verify (CheckError S3 (str e)))])
      | (Inr buckets, w1) \<Rightarrow>
          (let data_pipeline_buckets = filter (sublist ''data-pipeline'') buckets
           in if data_pipeline_buckets = [] then
                (True, w1, [Call ListBuckets, Print (Verify (Absent S3))])
              else
                (False, w1, [Call ListBuckets, Print (Verify (Found S3 data_pipeline_buckets))])))"

definition verify_functions :: "'w aws \<Rightarrow> 'w \<Rightarrow> bool \<times> 'w \<times> trace" where
  "verify_functions env w =
     (case list_functions env w of
        (Inl e, w1) \<Rightarrow> (False, w1, [Call ListFunctions, Print (Verify (CheckError Lambda (str e)))])
      | (Inr functions, w1) \<Rightarrow>
          (let data_pipeline_functions = filter (sublist ''data-pipeline'') functions
           in if data_pipeline_functions = [] then
                (True, w1, [Call ListFunctions, Print (Verify (Absent Lambda))])
              else
                (False, w1, [Call ListFunctions,
                             Print (Verify (Found Lambda data_pipeline_functions))])))"

definition verify_database :: "'w aws \<Rightarrow> config \<Rightarrow> 'w \<Rightarrow> bool \<times> 'w \<times> trace" where
  "verify_database env cfg w =
     (case get_databases env w of
        (Inl e, w1) \<Rightarrow> (False, w1, [Call GetDatabases, Print (Verify (CheckError Glue (str e)))])
      | (Inr databases, w1) \<Rightarrow>
          (let data_pipeline_dbs = filter (\<lambda>db. db = database_name cfg) databases
           in if data_pipeline_dbs = [] then
                (True, w1, [Call GetDatabases, Print (Verify (Absent Glue))])
              else
                (False, w1, [Call GetDatabases, Print (Verify (Found Glue data_pipeline_dbs))])))"

definition verify_workgroup :: "'w aws \<Rightarrow> config \<Rightarrow> 'w \<Rightarrow> bool \<times> 'w \<times> trace" where
  "verify_workgroup env cfg w =
     (case list_work_groups env w of
        (Inl e, w1) \<Rightarrow> (False, w1, [Call ListWorkGroups, Print (Verify (CheckError Athena (str e)))])
      | (Inr None, w1) \<Rightarrow>
          (False, w1, [Call ListWorkGroups, Print (Verify (CheckError Athena (str (key_error ''WorkGroups''))))])
      | (Inr (Some workgroups), w1) \<Rightarrow>
          (let data_pipeline_wgs = filter (\<lambda>wg. wg = workgroup_name cfg) workgroups
           in if data_pipeline_wgs = [] then
                (True, w1, [Call ListWorkGroups, Print (Verify (Absent Athena))])
              else
                (False, w1, [Call ListWorkGroups, Print (Verify (Found Athena data_pipeline_wgs))])))"

text \<open>
  \<open>verification_results\<close> as the method builds it, with the world after the five checks and
  their events.
\<close>

definition verification_results :: "'w aws \<Rightarrow> config \<Rightarrow> 'w \<Rightarrow> bool list \<times> 'w \<times> trace" where
  "verification_results env cfg w =
     (let (r1, w1, e1) = verify_stack env cfg w;
          (r2, w2, e2) = verify_buckets env w1;
          (r3, w3, e3) = verify_functions env w2;
          (r4, w4, e4) = verify_database env cfg w3;
          (r5, w5, e5) = verify_workgroup env cfg w4
      in ([r1, r2, r3, r4, r5], w5, Print (Step 6) # e1 @ e2 @ e3 @ e4 @ e5))"

definition verify_cleanup :: "'w aws \<Rightarrow> config \<Rightarrow> 'w \<Rightarrow> bool \<times> 'w \<times> trace" where
  "verify_cleanup env cfg w =
     (let (rs, w1, evs) = verification_results env cfg w
      in (list_all (\<lambda>r. r) rs, w1, evs))"

subsection \<open>\<open>run_cleanup\<close>\<close>

text \<open>Lines 374 to 387: the destroy stage with its manual fallback.\<close>

definition destroy_stage :: "'w aws \<Rightarrow> config \<Rightarrow> bool \<Rightarrow> 'w \<Rightarrow> 'w \<times> trace" where
  "destroy_stage env cfg stack_exists w =
     (if stack_exists then
        (let (cdk_success, w1, e1) = run_cdk_destroy env w
         in if \<not> cdk_success then
              (let (w2, e2) = manual_resource_cleanup env cfg w1;
                   (forced, w3, e3) = delete_cloudformation_stack env cfg w2
               in (w3, e1 @ Print (Run CdkFailedAttemptingManual) # e2 @ e3))
            else (w1, e1))
      else
        (let (w1, e1) = manual_resource_cleanup env cfg w
         in (w1, Print (Run StackNotFoundRunningManual) # e1)))"

definition run_cleanup :: "'w aws \<Rightarrow> 'w \<Rightarrow> int \<times> 'w \<times> trace" where
  "run_cleanup env w =
     (let ((stack_exists, cfg), w1, e0) = get_stack_resources env init_config w;
          (athena_success, w2, e1) = clean_athena_workgroup env cfg w1;
          (s3_success, w3, e2) = empty_s3_buckets env cfg w2;
          (w4, e3) = destroy_stage env cfg stack_exists w3;
          (cleanup_successful, w5, e4) = verify_cleanup env cfg w4
      in if cleanup_successful then
           (0, w5, Print (Run Banner) # e0 @ e1 @ e2 @ e3 @ e4
                   @ [Print (Run SummaryHeader), Print (Run AllResourcesDeleted)])
         else
           (1, w5, Print (Run Banner) # e0 @ e1 @ e2 @ e3 @ e4
                   @ [Print (Run SummaryHeader), Print (Run SomeResourcesMayExist)]))"

section \<open>Vocabulary for the statements about the cleanup\<close>

fun verdict_category :: "verdict \<Rightarrow> category" where
  "verdict_category StackDeletedSuccessfully = CloudFormation"
| "verdict_category (Absent c) = c"
| "verdict_category (StackStatusIs status) = CloudFormation"
| "verdict_category (Found c ids) = c"
| "verdict_category (CheckError c msg) = c"

text \<open>The lines printed with the check mark, after which the check appends \<open>True\<close>.\<close>

fun verdict_passes :: "verdict \<Rightarrow> bool" where
  "verdict_passes StackDeletedSuccessfully = True"
| "verdict_passes (Absent c) = True"
| "verdict_passes (StackStatusIs status) = False"
| "verdict_passes (Found c ids) = False"
| "verdict_passes (CheckError c msg) = False"

text \<open>The verification lines of a trace, in order.\<close>

definition verdicts :: "trace \<Rightarrow> verdict list" where
  "verdicts evs =
     concat (map (\<lambda>e. case e of Print m \<Rightarrow> (case m of Verify v \<Rightarrow> [v] | _ \<Rightarrow> [])
                        | _ \<Rightarrow> []) evs)"

text \<open>The keys a trace passes to \<open>delete_objects\<close>, and the keys a list of pages holds.\<close>

definition deleted_keys :: "trace \<Rightarrow> string list" where
  "deleted_keys evs =
     concat (map (\<lambda>c. case c of DeleteObjects b ks \<Rightarrow> ks | _ \<Rightarrow> []) (calls evs))"

definition listed_keys :: "string list option list \<Rightarrow> string list" where
  "listed_keys pages = concat (map (\<lambda>p. case p of None \<Rightarrow> [] | Some ks \<Rightarrow> ks) pages)"

text \<open>How often a line is printed in a trace.\<close>

definition printed :: "cleanup_msg \<Rightarrow> trace \<Rightarrow> nat" where
  "printed m evs = count_list evs (Print m)"

text \<open>The \<open>delete_objects\<close> calls, and the key lists of the pages that have keys.\<close>

fun is_delete_objects :: "api_call \<Rightarrow> bool" where
  "is_delete_objects (DeleteObjects b ks) = True"
| "is_delete_objects _ = False"

definition nonempty_pages :: "string list option list \<Rightarrow> string list list" where
  "nonempty_pages pages =
     filter (\<lambda>ks. ks \<noteq> []) (map (\<lambda>p. case p of None \<Rightarrow> [] | Some ks \<Rightarrow> ks) pages)"

text \<open>
  The line a check of the verification owes to the answer of its one call. For the stack: not
  found when the call raises or lists no stack, otherwise by the status of the first stack.
  For a listing: the error when the call raises, otherwise the names that match, if any.
\<close>

definition stack_line :: "exn + stack list \<Rightarrow> verdict" where
  "stack_line r =
     (case r of
        Inl e \<Rightarrow> Absent CloudFormation
      | Inr [] \<Rightarrow> Absent CloudFormation
      | Inr (st # sts) \<Rightarrow>
          if sublist ''DELETE_COMPLETE'' (StackStatus st) then StackDeletedSuccessfully
          else StackStatusIs (StackStatus st))"

definition listing_line :: "category \<Rightarrow> (string \<Rightarrow> bool) \<Rightarrow> exn + string list \<Rightarrow> verdict" where
  "listing_line c matches r =
     (case r of
        Inl e \<Rightarrow> CheckError c (str e)
      | Inr names \<Rightarrow>
          if filter matches names = [] then Absent c else Found c (filter matches names))"

text \<open>\<open>response['WorkGroups']\<close>: a response without the key raises \<open>KeyError\<close>.\<close>

definition work_groups :: "exn + string list option \<Rightarrow> exn + string list" where
  "work_groups r =
     (case r of
        Inl e \<Rightarrow> Inl e
      | Inr None \<Rightarrow> Inl (key_error ''WorkGroups'')
      | Inr (Some names) \<Rightarrow> Inr names)"

section \<open>Vocabulary for the statements about the stack outputs\<close>

text \<open>
  \<open>stack.get('Outputs', [])\<close>; an output that has both its key and its value; and the
  (key, value) pairs a loop over the outputs has read when it ends, which are those before the
  first output that lacks one of the two.
\<close>

definition outputs_of :: "stack \<Rightarrow> stack_output list" where
  "outputs_of st = (case Outputs st of None \<Rightarrow> [] | Some outputs \<Rightarrow> outputs)"

definition output_complete :: "stack_output \<Rightarrow> bool" where
  "output_complete output = (OutputKey output \<noteq> None \<and> OutputValue output \<noteq> None)"

definition output_pairs :: "stack_output list \<Rightarrow> (string \<times> string) list" where
  "output_pairs outputs =
     concat (map (\<lambda>output. case OutputKey output of
                              None \<Rightarrow> []
                            | Some key \<Rightarrow>
                                (case OutputValue output of None \<Rightarrow> [] | Some v \<Rightarrow> [(key, v)]))
                 outputs)"

definition outputs_read :: "stack_output list \<Rightarrow> (string \<times> string) list" where
  "outputs_read outputs = output_pairs (takeWhile output_complete outputs)"

text \<open>
  An account from which the pipeline is already gone. The world is the number of calls made
  so far; a set is listed in the order of the last occurrences.
\<close>

definition gone_aws :: "nat aws" where
  "gone_aws =
     \<lparr>describe_stacks =
        (\<lambda>n w. (Inl (Exn ClientError ''Stack with id DataPipelineStack does not exist''), Suc w)),
      list_work_groups = (\<lambda>w. (Inr (Some [''primary'']), Suc w)),
      delete_work_group = (\<lambda>n r w. (None, Suc w)),
      head_bucket = (\<lambda>b w. (Some (Exn ClientError ''Not Found''), Suc w)),
      paginate = (\<lambda>b w. ([], w)),
      delete_objects = (\<lambda>b ks w. (None, Suc w)),
      cdk_destroy = (\<lambda>w. (Inr (0, []), Suc w)),
      delete_function = (\<lambda>n w. (Some (Exn ResourceNotFoundException ''Function not found''), Suc w)),
      delete_crawler = (\<lambda>n w. (Some (Exn EntityNotFoundException ''Crawler not found''), Suc w)),
      delete_database = (\<lambda>n w. (Some (Exn EntityNotFoundException ''Database not found''), Suc w)),
      delete_bucket = (\<lambda>b w. (Some (Exn NoSuchBucket ''No such bucket''), Suc w)),
      delete_stack = (\<lambda>n w. (None, Suc w)),
      wait_stack_delete_complete = (\<lambda>n d a w. (None, Suc w)),
      list_buckets = (\<lambda>w. (Inr [''logs''], Suc w)),
      list_functions = (\<lambda>w. (Inr [], Suc w)),
      get_databases = (\<lambda>w. (Inr [''default''], Suc w)),
      list_of_set = remdups\<rparr>"

text \<open>The same account, with the work group listing raising.\<close>

definition throttled_aws :: "nat aws" where
  "throttled_aws =
     gone_aws\<lparr>list_work_groups :=
       (\<lambda>w. if w = 1 then (Inl (Exn ClientError ''Throttled''), Suc w)
             else (Inr (Some [''primary'']), Suc w))\<rparr>"

text \<open>The same account, with a bucket of the pipeline left over.\<close>

definition leftover_aws :: "nat aws" where
  "leftover_aws =
     gone_aws\<lparr>list_buckets := (\<lambda>w. (Inr [''logs'', ''data-pipeline-bucket-x''], Suc w))\<rparr>"

text \<open>
  An account with the stack deployed, on which \<open>cdk destroy\<close> exits with code 1 and the
  function cannot be deleted for lack of permission.
\<close>

definition deployed_stack :: stack where
  "deployed_stack =
     \<lparr>StackStatus = ''CREATE_COMPLETE'',
      Outputs = Some [\<lparr>OutputKey = Some ''DataBucketName'',
                       OutputValue = Some ''data-pipeline-bucket-x''\<rparr>,
                      \<lparr>OutputKey = Some ''AthenaResultsBucketName'',
                       OutputValue = Some ''data-pipeline-results-x''\<rparr>]\<rparr>"

definition deployed_aws :: "nat aws" where
  "deployed_aws =
     gone_aws\<lparr>describe_stacks := (\<lambda>n w. (Inr [deployed_stack], Suc w)),
       cdk_destroy := (\<lambda>w. (Inr (1, ''stack is in use''), Suc w)),
       delete_function := (\<lambda>n w. (Some (Exn ClientError ''AccessDenied''), Suc w))\<rparr>"

definition deployed_config :: config where
  "deployed_config =
     init_config\<lparr>data_bucket := Some ''data-pipeline-bucket-x'',
                 results_bucket := Some ''data-pipeline-results-x''\<rparr>"

text \<open>A bucket whose listing has 1204 keys on three pages.\<close>

definition object_key :: "nat \<Rightarrow> string" where
  "object_key n = ''raw-data/'' @ replicate n (CHR ''0'')"

definition three_pages :: "string list option list" where
  "three_pages =
     [Some (map object_key [0..<500]), Some (map object_key [500..<1000]),
      Some (map object_key [1000..<1204])]"

definition listing_aws :: "nat aws" where
  "listing_aws =
     gone_aws\<lparr>head_bucket := (\<lambda>b w. (None, Suc w)),
              paginate := (\<lambda>b w. (map Inr three_pages, w))\<rparr>"

text \<open>An account on which the pipeline is still deployed when the verification runs.\<close>

definition untouched_aws :: "nat aws" where
  "untouched_aws =
     deployed_aws\<lparr>list_work_groups :=
       (\<lambda>w. (Inr (Some [''primary'', ''data-pipeline-workgroup'']), Suc w)),
       list_buckets :=
         (\<lambda>w. (Inr [''logs'', ''data-pipeline-bucket-x'', ''data-pipeline-results-x''], Suc w)),
       list_functions := (\<lambda>w. (Inr [''data-pipeline-data-extractor'', ''billing''], Suc w)),
       get_databases := (\<lambda>w. (Inr [''default'', ''data_pipeline_db''], Suc w))\<rparr>"

text \<open>An account on which the bucket listing is refused.\<close>

definition denied_aws :: "nat aws" where
  "denied_aws = gone_aws\<lparr>list_buckets := (\<lambda>w. (Inl (Exn ClientError ''AccessDenied''), Suc w))\<rparr>"

text \<open>
  A stack whose second output has no value, after a first output that names the function.
\<close>

definition truncated_stack :: stack where
  "truncated_stack =
     \<lparr>StackStatus = ''CREATE_COMPLETE'',
      Outputs = Some [\<lparr>OutputKey = Some ''LambdaFunctionName'', OutputValue = Some ''extractor-v2''\<rparr>,
                      \<lparr>OutputKey = Some ''DataBucketName'', OutputValue = None\<rparr>]\<rparr>"

definition truncated_aws :: "nat aws" where
  "truncated_aws = gone_aws\<lparr>describe_stacks := (\<lambda>n w. (Inr [truncated_stack], Suc w))\<rparr>"

section \<open>Counting sleeps and calls in a trace\<close>

lemma sleeps_simps [simp]:
  "sleeps [] = 0"
  "sleeps (Sleep n # evs) = Suc (sleeps evs)"
  "sleeps (Call c # evs) = sleeps evs"
  "sleeps (Print x # evs) = sleeps evs"
  by (simp_all add: sleeps_def)

lemma sleeps_append [simp]: "sleeps (evs @ evs') = sleeps evs + sleeps evs'"
  by (simp add: sleeps_def)

lemma calls_simps [simp]:
  "calls [] = []"
  "calls (Sleep n # evs) = calls evs"
  "calls (Call c # evs) = c # calls evs"
  "calls (Print x # evs) = calls evs"
  by (simp_all add: calls_def)

lemma calls_append [simp]: "calls (evs @ evs') = calls evs @ calls evs'"
  by (simp add: calls_def)

lemma calls_empty_iff: "calls evs = [] \<longleftrightarrow> (\<forall>e\<in>set evs. \<not> is_call e)"
proof (induction evs)
  case Nil
  then show ?case by simp
next
  case (Cons e evs)
  then show ?case by (cases e) simp_all
qed

lemma sleeps_zero_iff: "sleeps evs = 0 \<longleftrightarrow> (\<forall>e\<in>set evs. \<not> is_sleep e)"
proof (induction evs)
  case Nil
  then show ?case by simp
next
  case (Cons e evs)
  then show ?case by (cases e) simp_all
qed

section \<open>The polling loops\<close>

declare ready_loop.simps [simp del]
declare query_loop.simps [simp del]

lemma pending_events_0 [simp]: "pending_events f m a 0 = []"
  by (simp add: pending_events_def)

lemma pending_events_Suc:
  "pending_events f m a (Suc k) =
     Call (GetFunction f) # Print (StatusAttempt ''Pending'' (a + 1) m) # Sleep 2
       # pending_events f m (Suc a) k"
proof -
  have "[a..<a + Suc k] = a # [Suc a..<Suc a + k]"
    by (simp add: upt_conv_Cons)
  then show ?thesis
    unfolding pending_events_def by simp
qed

lemma sleeps_pending [simp]: "sleeps (pending_events f m a k) = k"
  by (induction k arbitrary: a) (simp_all add: pending_events_Suc)

lemma calls_pending [simp]: "calls (pending_events f m a k) = replicate k (GetFunction f)"
  by (induction k arbitrary: a) (simp_all add: pending_events_Suc)

text \<open>While the answers are \<open>Pending\<close> and the budget lasts, the loop only waits.\<close>

lemma ready_loop_pending:
  "(\<forall>j. a \<le> j \<and> j < a + k \<longrightarrow> g j = Inr ''Pending'') \<Longrightarrow> a + k \<le> m \<Longrightarrow>
   ready_loop g f m a =
     (fst (ready_loop g f m (a + k)), pending_events f m a k @ snd (ready_loop g f m (a + k)))"
proof (induction k arbitrary: a)
  case 0
  then show ?case by simp
next
  case (Suc k)
  have a: "a < m" "g a = Inr ''Pending''" using Suc.prems by auto
  have ih: "ready_loop g f m (Suc a) =
     (fst (ready_loop g f m (Suc a + k)),
      pending_events f m (Suc a) k @ snd (ready_loop g f m (Suc a + k)))"
    using Suc.prems by (intro Suc.IH) auto
  show ?case
    apply (subst ready_loop.simps)
    apply (simp only: a if_True sum.case)
    apply (subst ih)
    apply (simp add: pending_events_Suc)
    done
qed

lemma ready_loop_active:
  assumes "\<forall>j<i. g j = Inr ''Pending''" "i < m" "g i = Inr ''Active''"
  shows "ready_loop g f m 0 =
           (True, pending_events f m 0 i @ [Call (GetFunction f), Print FunctionReady])"
proof -
  have "ready_loop g f m i = (True, [Call (GetFunction f), Print FunctionReady])"
    using assms by (subst ready_loop.simps) simp
  then show ?thesis
    using ready_loop_pending [of 0 i g m f] assms by simp
qed

lemma ready_loop_unexpected:
  assumes "\<forall>j<i. g j = Inr ''Pending''" "i < m" "g i = Inr s"
    "s \<noteq> ''Active''" "s \<noteq> ''Pending''"
  shows "ready_loop g f m 0 =
           (False, pending_events f m 0 i @ [Call (GetFunction f), Print (UnexpectedState s)])"
proof -
  have "ready_loop g f m i = (False, [Call (GetFunction f), Print (UnexpectedState s)])"
    using assms by (subst ready_loop.simps) simp
  then show ?thesis
    using ready_loop_pending [of 0 i g m f] assms by simp
qed

lemma ready_loop_timeout:
  assumes "\<forall>j<m. g j = Inr ''Pending''"
  shows "ready_loop g f m 0 = (False, pending_events f m 0 m @ [Print ReadyTimeout])"
proof -
  have "ready_loop g f m m = (False, [Print ReadyTimeout])"
    by (subst ready_loop.simps) simp
  then show ?thesis
    using ready_loop_pending [of 0 m g m f] assms by simp
qed

lemma waiting_events_0 [simp]: "waiting_events qid 0 = []"
  by (simp add: waiting_events_def)

lemma waiting_events_Suc:
  "waiting_events qid (Suc k) = Call (GetQueryExecution qid) # Sleep 2 # waiting_events qid k"
  by (simp add: waiting_events_def)

lemma sleeps_waiting [simp]: "sleeps (waiting_events qid k) = k"
  by (induction k) (simp_all add: waiting_events_Suc)

lemma calls_waiting [simp]: "calls (waiting_events qid k) = replicate k (GetQueryExecution qid)"
  by (induction k) (simp_all add: waiting_events_Suc)

lemma query_loop_waiting:
  "(\<forall>j. a \<le> j \<and> j < a + k \<longrightarrow> in_progress (get_query_execution env qid j)) \<Longrightarrow>
   a + k \<le> m \<Longrightarrow>
   query_loop env q qid m a =
     (fst (query_loop env q qid m (a + k)),
      waiting_events qid k @ snd (query_loop env q qid m (a + k)))"
proof (induction k arbitrary: a)
  case 0
  then show ?case by simp
next
  case (Suc k)
  have a: "a < m" "in_progress (get_query_execution env qid a)" using Suc.prems by auto
  have ih: "query_loop env q qid m (Suc a) =
     (fst (query_loop env q qid m (Suc a + k)),
      waiting_events qid k @ snd (query_loop env q qid m (Suc a + k)))"
    using Suc.prems by (intro Suc.IH) auto
  from a(2) obtain st rs where st: "get_query_execution env qid a = Inr (st, rs)"
    "st \<noteq> ''SUCCEEDED''" "st \<noteq> ''FAILED''" "st \<noteq> ''CANCELLED''"
    by (auto simp: in_progress_def split: sum.splits)
  show ?case
    apply (subst query_loop.simps)
    apply (simp only: a st if_True if_False sum.case prod.case)
    apply (subst ih)
    apply (simp add: waiting_events_Suc)
    done
qed

lemma query_loop_from_0:
  assumes "\<forall>j<i. in_progress (get_query_execution env qid j)" "i \<le> m"
  shows "query_loop env q qid m 0 =
           (fst (query_loop env q qid m i), waiting_events qid i @ snd (query_loop env q qid m i))"
  using query_loop_waiting [of 0 i env qid m q] assms by simp

text \<open>What the loop does at an attempt that answers \<open>SUCCEEDED\<close>.\<close>

lemma query_loop_succeeded_step:
  assumes "i < m" "get_query_execution env qid i = Inr (''SUCCEEDED'', reason)"
  shows "\<exists>r lines. query_loop env q qid m i =
           (r, [Call (GetQueryExecution qid), Print StatusSuccess, Call (GetQueryResults qid)]
               @ lines)
         \<and> r \<noteq> Inr False \<and> calls lines = [] \<and> sleeps lines = 0
         \<and> Print StatusTimeout \<notin> set lines"
proof -
  have lines: "calls ls = [] \<and> sleeps ls = 0 \<and> Print StatusTimeout \<notin> set ls"
    if "report_rows (name q) rows = Inr ls" for rows ls
    using that
    by (auto simp: report_rows_def calls_def sleeps_def filter_concat comp_def
          simp del: sleeps_simps calls_simps sleeps_append calls_append
          split: if_splits list.splits option.splits prod.splits)
  show ?thesis
    apply (subst query_loop.simps)
    using assms lines
    by (auto split: sum.splits option.splits)
qed

lemma query_loop_failed_step:
  assumes "i < m" "get_query_execution env qid i = Inr (''FAILED'', reason)"
  shows "query_loop env q qid m i =
           (Inr False, [Call (GetQueryExecution qid),
                        Print (StatusFailed (case reason of None \<Rightarrow> ''Unknown error''
                                             | Some r \<Rightarrow> r))])"
  using assms by (subst query_loop.simps) simp

lemma query_loop_cancelled_step:
  assumes "i < m" "get_query_execution env qid i = Inr (''CANCELLED'', reason)"
  shows "query_loop env q qid m i =
           (Inr False, [Call (GetQueryExecution qid), Print StatusCancelled])"
  using assms by (subst query_loop.simps) simp

lemma query_loop_exhausted: "query_loop env q qid m m = (Inr False, [Print StatusTimeout])"
  by (subst query_loop.simps) simp



section \<open>Statuses the loops do not name\<close>

text \<open>
  Claim C3, as stated, fails on the Athena loop: a status that is neither a success state
  nor one of the in-progress states \<open>QUEUED\<close> and \<open>RUNNING\<close>, here \<open>PAUSED\<close>, is not turned
  into a terminal failure. The loop sleeps after each of its 30 attempts and ends with the
  timeout line.
\<close>

theorem unrecognized_status_counterexample:
  "fst (query_loop athena_paused probe_query ''id'' 30 0) = Inr False
   \<and> sleeps (snd (query_loop athena_paused probe_query ''id'' 30 0)) = 30
   \<and> calls (snd (query_loop athena_paused probe_query ''id'' 30 0))
       = replicate 30 (GetQueryExecution ''id'')
   \<and> last (snd (query_loop athena_paused probe_query ''id'' 30 0)) = Print StatusTimeout"
proof -
  have "\<forall>j<30. in_progress (get_query_execution athena_paused ''id'' j)"
    by (simp add: athena_paused_def athena_seq_def in_progress_def)
  then have "query_loop athena_paused probe_query ''id'' 30 0 =
      (Inr False, waiting_events ''id'' 30 @ [Print StatusTimeout])"
    using query_loop_from_0 [of 30 athena_paused "''id''" 30 probe_query]
      query_loop_exhausted [of athena_paused probe_query "''id''" 30]
    by simp
  then show ?thesis
    by simp
qed

text \<open>
  Claim C3, amended. In \<open>wait_for_function_ready\<close> a state that is neither \<open>Active\<close> nor
  \<open>Pending\<close> ends the wait at that attempt with the unexpected-state failure, with no sleep
  and no further attempt. In the Athena loop of \<open>test_athena_query\<close> only \<open>FAILED\<close> and
  \<open>CANCELLED\<close> are terminal failures; every other status that is not \<open>SUCCEEDED\<close>, whether
  the service documents it or not, makes the loop sleep two seconds and poll again, and when
  that lasts for the whole attempt budget the loop ends with the timeout.
\<close>

theorem unrecognized_status_handling:
  "(\<forall>a<m. \<forall>s. g a = Inr s \<and> s \<noteq> ''Active'' \<and> s \<noteq> ''Pending'' \<longrightarrow>
      ready_loop g f m a = (False, [Call (GetFunction f), Print (UnexpectedState s)]))
   \<and> (\<forall>a<m. \<forall>s r. get_query_execution env qid a = Inr (s, r)
          \<and> s \<noteq> ''SUCCEEDED'' \<and> s \<noteq> ''FAILED'' \<and> s \<noteq> ''CANCELLED'' \<longrightarrow>
      query_loop env q qid m a =
        (fst (query_loop env q qid m (Suc a)),
         Call (GetQueryExecution qid) # Sleep 2 # snd (query_loop env q qid m (Suc a))))
   \<and> (\<forall>a<m. \<forall>r. get_query_execution env qid a = Inr (''FAILED'', r) \<longrightarrow>
      query_loop env q qid m a =
        (Inr False, [Call (GetQueryExecution qid),
                     Print (StatusFailed (case r of None \<Rightarrow> ''Unknown error''
                                          | Some x \<Rightarrow> x))]))
   \<and> (\<forall>a<m. \<forall>r. get_query_execution env qid a = Inr (''CANCELLED'', r) \<longrightarrow>
      query_loop env q qid m a =
        (Inr False, [Call (GetQueryExecution qid), Print StatusCancelled]))
   \<and> ((\<forall>j<m. in_progress (get_query_execution env qid j)) \<longrightarrow>
      query_loop env q qid m 0 = (Inr False, waiting_events qid m @ [Print StatusTimeout]))"
proof (intro conjI allI impI)
  fix a s assume "a < m" "g a = Inr s \<and> s \<noteq> ''Active'' \<and> s \<noteq> ''Pending''"
  then show "ready_loop g f m a = (False, [Call (GetFunction f), Print (UnexpectedState s)])"
    by (subst ready_loop.simps) simp
next
  fix a s r
  assume a: "a < m" and h: "get_query_execution env qid a = Inr (s, r)
          \<and> s \<noteq> ''SUCCEEDED'' \<and> s \<noteq> ''FAILED'' \<and> s \<noteq> ''CANCELLED''"
  then have "\<forall>j. a \<le> j \<and> j < a + 1 \<longrightarrow> in_progress (get_query_execution env qid j)"
    by (auto simp: in_progress_def less_Suc_eq_le)
  then show "query_loop env q qid m a =
        (fst (query_loop env q qid m (Suc a)),
         Call (GetQueryExecution qid) # Sleep 2 # snd (query_loop env q qid m (Suc a)))"
    using query_loop_waiting [of a 1 env qid m q] a
    by (simp add: waiting_events_def)
next
  fix a r assume "a < m" "get_query_execution env qid a = Inr (''FAILED'', r)"
  then show "query_loop env q qid m a =
        (Inr False, [Call (GetQueryExecution qid),
                     Print (StatusFailed (case r of None \<Rightarrow> ''Unknown error''
                                          | Some x \<Rightarrow> x))])"
    by (rule query_loop_failed_step)
next
  fix a r assume "a < m" "get_query_execution env qid a = Inr (''CANCELLED'', r)"
  then show "query_loop env q qid m a =
        (Inr False, [Call (GetQueryExecution qid), Print StatusCancelled])"
    by (rule query_loop_cancelled_step)
next
  assume "\<forall>j<m. in_progress (get_query_execution env qid j)"
  then show "query_loop env q qid m 0 = (Inr False, waiting_events qid m @ [Print StatusTimeout])"
    using query_loop_from_0 [of m env qid m q] query_loop_exhausted [of env q qid m] by simp
qed

theorem unrecognized_status_handling_witness:
  "ready_loop (\<lambda>k. Inr ''Inactive'') ''fn'' 30 0 =
     (False, [Call (GetFunction ''fn''), Print (UnexpectedState ''Inactive'')])
   \<and> query_loop athena_paused probe_query ''id'' 30 29 =
     (Inr False, [Call (GetQueryExecution ''id''), Sleep 2, Print StatusTimeout])
   \<and> query_loop (athena_seq (\<lambda>k. Inr (''FAILED'', None))) probe_query ''id'' 30 0 =
     (Inr False, [Call (GetQueryExecution ''id''), Print (StatusFailed ''Unknown error'')])
   \<and> query_loop (athena_seq (\<lambda>k. Inr (''CANCELLED'', None))) probe_query ''id'' 30 0 =
     (Inr False, [Call (GetQueryExecution ''id''), Print StatusCancelled])
   \<and> query_loop athena_paused probe_query ''id'' 1 0 =
     (Inr False, [Call (GetQueryExecution ''id''), Sleep 2, Print StatusTimeout])"
proof -
  note h = unrecognized_status_handling
  have a: "ready_loop (\<lambda>k. Inr ''Inactive'') ''fn'' 30 0 =
     (False, [Call (GetFunction ''fn''), Print (UnexpectedState ''Inactive'')])"
    using h [of 30 "\<lambda>k. Inr ''Inactive''" "''fn''", THEN conjunct1, rule_format, of 0 "''Inactive''"]
    by simp
  have b: "query_loop athena_paused probe_query ''id'' 30 29 =
     (fst (query_loop athena_paused probe_query ''id'' 30 30),
      Call (GetQueryExecution ''id'') # Sleep 2
        # snd (query_loop athena_paused probe_query ''id'' 30 30))"
    using h [of 30 g f athena_paused "''id''" probe_query, THEN conjunct2, THEN conjunct1,
        rule_format, of 29 "''PAUSED''" None]
    by (simp add: athena_paused_def athena_seq_def)
  have b': "query_loop athena_paused probe_query ''id'' 30 30 = (Inr False, [Print StatusTimeout])"
    by (rule query_loop_exhausted)
  have c: "query_loop (athena_seq (\<lambda>k. Inr (''FAILED'', None))) probe_query ''id'' 30 0 =
     (Inr False, [Call (GetQueryExecution ''id''), Print (StatusFailed ''Unknown error'')])"
    using h [of 30 g f "athena_seq (\<lambda>k. Inr (''FAILED'', None))" "''id''" probe_query,
        THEN conjunct2, THEN conjunct2, THEN conjunct1, rule_format, of 0 None]
    by (simp add: athena_seq_def)
  have d: "query_loop (athena_seq (\<lambda>k. Inr (''CANCELLED'', None))) probe_query ''id'' 30 0 =
     (Inr False, [Call (GetQueryExecution ''id''), Print StatusCancelled])"
    using h [of 30 g f "athena_seq (\<lambda>k. Inr (''CANCELLED'', None))" "''id''" probe_query,
        THEN conjunct2, THEN conjunct2, THEN conjunct2, THEN conjunct1, rule_format, of 0 None]
    by (simp add: athena_seq_def)
  have e: "query_loop athena_paused probe_query ''id'' 1 0 =
     (Inr False, waiting_events ''id'' 1 @ [Print StatusTimeout])"
    using h [of 1 g f athena_paused "''id''" probe_query,
        THEN conjunct2, THEN conjunct2, THEN conjunct2, THEN conjunct2]
    by (simp add: athena_paused_def athena_seq_def in_progress_def)
  show ?thesis
    unfolding a c d e
    by (simp add: b b' waiting_events_def)
qed

section \<open>The crawler test\<close>

text \<open>
  Claim C4, as stated, fails: \<open>test_glue_crawler\<close> has no polling loop. For a crawler that
  is \<open>RUNNING\<close> at the first read and would be \<open>READY\<close> at the second, the method reads the
  state once, never sleeps, and returns \<open>True\<close> at once.
\<close>

theorem crawler_polling_counterexample:
  "test_glue_crawler crawler_running_then_ready None ''data-pipeline-crawler'' =
     (True, [Print (TestingCrawler ''data-pipeline-crawler''),
             Call (GetCrawler ''data-pipeline-crawler''),
             Print (CrawlerState ''RUNNING''), Print CrawlerAlreadyRunning])
   \<and> sleeps (snd (test_glue_crawler crawler_running_then_ready None ''data-pipeline-crawler''))
       = 0
   \<and> calls (snd (test_glue_crawler crawler_running_then_ready None ''data-pipeline-crawler''))
       = [GetCrawler ''data-pipeline-crawler'']"
  by (simp add: test_glue_crawler_def crawler_running_then_ready_def)

text \<open>
  Claim C4, amended. \<open>test_glue_crawler\<close> does not poll: whatever the crawler answers, it
  reads the crawler state exactly once and never sleeps. Observed \<open>READY\<close>, it starts the
  crawler and returns \<open>True\<close> (\<open>False\<close> when the start raises), with no further read;
  observed \<open>RUNNING\<close>, it returns \<open>True\<close> without starting the crawler or reading its state
  again; any other state, or a read that raises, returns \<open>False\<close>.
\<close>

theorem crawler_state_read_once:
  "sleeps (snd (test_glue_crawler get_crawler start_crawler n)) = 0
   \<and> calls (snd (test_glue_crawler get_crawler start_crawler n)) =
       GetCrawler n # (if get_crawler 0 = Inr ''READY'' then [StartCrawler n] else [])
   \<and> (get_crawler 0 = Inr ''READY'' \<longrightarrow>
        fst (test_glue_crawler get_crawler start_crawler n) = (start_crawler = None))
   \<and> (get_crawler 0 = Inr ''RUNNING'' \<longrightarrow>
        test_glue_crawler get_crawler start_crawler n =
          (True, [Print (TestingCrawler n), Call (GetCrawler n),
                  Print (CrawlerState ''RUNNING''), Print CrawlerAlreadyRunning]))
   \<and> (\<forall>s. get_crawler 0 = Inr s \<and> s \<noteq> ''READY'' \<and> s \<noteq> ''RUNNING'' \<longrightarrow>
        \<not> fst (test_glue_crawler get_crawler start_crawler n))
   \<and> (\<forall>e. get_crawler 0 = Inl e \<longrightarrow> \<not> fst (test_glue_crawler get_crawler start_crawler n))"
  by (auto simp: test_glue_crawler_def split: sum.splits option.splits)

theorem crawler_state_read_once_witness:
  "fst (test_glue_crawler (\<lambda>k. Inr ''READY'') None ''c'') = True
   \<and> test_glue_crawler crawler_running_then_ready None ''c'' =
       (True, [Print (TestingCrawler ''c''), Call (GetCrawler ''c''),
               Print (CrawlerState ''RUNNING''), Print CrawlerAlreadyRunning])
   \<and> \<not> fst (test_glue_crawler (\<lambda>k. Inr ''STOPPING'') None ''c'')
   \<and> \<not> fst (test_glue_crawler (\<lambda>k. Inl (Exn ClientError ''denied'')) None ''c'')"
proof -
  note h = crawler_state_read_once
  have a: "fst (test_glue_crawler (\<lambda>k. Inr ''READY'') None ''c'') = True"
    using h [of "\<lambda>k. Inr ''READY''" None "''c''", THEN conjunct2, THEN conjunct2, THEN conjunct1]
    by simp
  have b: "test_glue_crawler crawler_running_then_ready None ''c'' =
       (True, [Print (TestingCrawler ''c''), Call (GetCrawler ''c''),
               Print (CrawlerState ''RUNNING''), Print CrawlerAlreadyRunning])"
    using h [of crawler_running_then_ready None "''c''",
        THEN conjunct2, THEN conjunct2, THEN conjunct2, THEN conjunct1]
    by (simp add: crawler_running_then_ready_def)
  have c: "\<not> fst (test_glue_crawler (\<lambda>k. Inr ''STOPPING'') None ''c'')"
    using h [of "\<lambda>k. Inr ''STOPPING''" None "''c''",
        THEN conjunct2, THEN conjunct2, THEN conjunct2, THEN conjunct2, THEN conjunct1,
        rule_format, of "''STOPPING''"]
    by simp
  have d: "\<not> fst (test_glue_crawler (\<lambda>k. Inl (Exn ClientError ''denied'')) None ''c'')"
    using h [of "\<lambda>k. Inl (Exn ClientError ''denied'')" None "''c''",
        THEN conjunct2, THEN conjunct2, THEN conjunct2, THEN conjunct2, THEN conjunct2,
        rule_format, of "Exn ClientError ''denied''"]
    by simp
  show ?thesis using a b c d by simp
qed

section \<open>The query batch\<close>

lemma report_rows_calls: "report_rows n rows = Inr lines \<Longrightarrow> calls lines = []"
  unfolding calls_empty_iff
  by (auto simp: report_rows_def split: if_splits list.splits option.splits)

lemma query_loop_step_calls:
  assumes "a < m"
  shows "filter is_start_query (calls (snd (query_loop env q qid m a))) =
           (case get_query_execution env qid a of
              Inl e \<Rightarrow> []
            | Inr (st, rs) \<Rightarrow>
                if st = ''SUCCEEDED'' \<or> st = ''FAILED'' \<or> st = ''CANCELLED'' then []
                else filter is_start_query (calls (snd (query_loop env q qid m (Suc a)))))"
proof (cases "get_query_execution env qid a")
  case (Inl e)
  with assms show ?thesis by (subst query_loop.simps) simp
next
  case (Inr sr)
  obtain st rs where sr: "sr = (st, rs)" by (cases sr)
  show ?thesis
  proof (cases "st = ''SUCCEEDED''")
    case True
    have "filter is_start_query (calls (snd (query_loop env q qid m a))) = []"
      apply (subst query_loop.simps)
      using assms Inr sr True
      by (auto split: sum.splits option.splits dest: report_rows_calls)
    then show ?thesis using Inr sr True by simp
  next
    case False
    show ?thesis
      apply (subst query_loop.simps)
      using assms Inr sr False
      by (simp add: case_prod_beta)
  qed
qed

lemma query_loop_no_start:
  "filter is_start_query (calls (snd (query_loop env q qid m a))) = []"
proof (induction k \<equiv> "m - a" arbitrary: a)
  case 0
  then have "\<not> a < m" by simp
  then show ?case by (subst query_loop.simps) simp
next
  case (Suc k)
  then have a: "a < m" and k: "k = m - Suc a" by simp_all
  show ?case
    using query_loop_step_calls [OF a, of env q qid] Suc.hyps(1) [OF k]
    by (simp split: sum.splits prod.splits)
qed

lemma run_query_records:
  "fst (snd (run_query env wg rb i q)) =
     (case start_query_execution env (sql q) wg (result_location rb q) of
        Inl e \<Rightarrow> [] | Inr qid \<Rightarrow> [(qid, q)])"
  by (simp add: run_query_def Let_def case_prod_beta split: sum.splits)

lemma run_query_starts:
  "filter is_start_query (calls (snd (snd (run_query env wg rb i q)))) =
     [StartQueryExecution (sql q) wg (result_location rb q)]"
  using query_loop_no_start [of env q _ 30 0]
  by (simp add: run_query_def Let_def case_prod_beta split: sum.splits)

lemma run_queries_records:
  "fst (snd (run_queries env wg rb i qs)) = started env wg rb qs"
proof (induction qs arbitrary: i)
  case Nil
  then show ?case by (simp add: started_def)
next
  case (Cons q qs)
  show ?case
    using Cons.IH [of "Suc i"] run_query_records [of env wg rb i q]
    by (simp add: started_def case_prod_beta)
qed

lemma run_queries_starts:
  "filter is_start_query (calls (snd (snd (run_queries env wg rb i qs)))) =
     map (\<lambda>q. StartQueryExecution (sql q) wg (result_location rb q)) qs"
proof (induction qs arbitrary: i)
  case Nil
  then show ?case by simp
next
  case (Cons q qs)
  show ?case
    using Cons.IH [of "Suc i"] run_query_starts [of env wg rb i q]
    by (simp add: case_prod_beta)
qed

lemma query_loop_succeeds:
  assumes "i < m" "\<forall>j<i. in_progress (get_query_execution env qid j)"
    "get_query_execution env qid i = Inr (''SUCCEEDED'', r)" "results_readable env q qid"
  shows "fst (query_loop env q qid m 0) = Inr True"
proof -
  have "fst (query_loop env q qid m i) = Inr True"
    using assms(1,3,4)
    by (subst query_loop.simps)
       (auto simp: results_readable_def split: sum.splits option.splits)
  then show ?thesis
    using query_loop_from_0 [of i env qid m q] assms(1,2) by simp
qed

lemma run_query_passes:
  assumes "start_query_execution env (sql q) wg (result_location rb q) = Inr qid"
    "i < 30" "\<forall>j<i. in_progress (get_query_execution env qid j)"
    "get_query_execution env qid i = Inr (''SUCCEEDED'', r)" "results_readable env q qid"
  shows "fst (run_query env wg rb k q) = True"
  using query_loop_succeeds [OF assms(2-5)] assms(1)
  by (simp add: run_query_def Let_def case_prod_beta split: sum.splits)

lemma run_queries_flag:
  "fst (run_queries env wg rb i qs) = (\<forall>k<length qs. fst (run_query env wg rb (i + k) (qs ! k)))"
proof (induction qs arbitrary: i)
  case Nil
  then show ?case by simp
next
  case (Cons q qs)
  have "(\<forall>k<length (q # qs). fst (run_query env wg rb (i + k) ((q # qs) ! k))) =
      (fst (run_query env wg rb i q) \<and>
       (\<forall>k<length qs. fst (run_query env wg rb (Suc i + k) (qs ! k))))"
    by (auto simp: less_Suc_eq_0_disj)
  then show ?case
    using Cons.IH [of "Suc i"] by (simp add: case_prod_beta)
qed

lemma mapping_lines_calls [simp]: "calls (mapping_lines rb execs) = []"
  unfolding calls_empty_iff by (auto simp: mapping_lines_def)

text \<open>The outcome of the loop at an attempt within the budget, by the answer to its poll.\<close>

lemma query_loop_step_outcome:
  assumes "a < m"
  shows "fst (query_loop env q qid m a) =
           (case get_query_execution env qid a of
              Inl e \<Rightarrow> Inl e
            | Inr (st, rs) \<Rightarrow>
                if st = ''SUCCEEDED'' then
                  (if results_readable env q qid then Inr True
                   else fst (query_loop env q qid m a))
                else if st = ''FAILED'' \<or> st = ''CANCELLED'' then Inr False
                else fst (query_loop env q qid m (Suc a)))"
proof (cases "get_query_execution env qid a")
  case (Inl e)
  with assms show ?thesis by (subst query_loop.simps) simp
next
  case (Inr sr)
  obtain st rs where sr: "sr = (st, rs)" by (cases sr)
  show ?thesis
  proof (cases "st = ''SUCCEEDED''")
    case True
    show ?thesis
    proof (cases "results_readable env q qid")
      case False
      then show ?thesis by (simp add: Inr sr True)
    next
      case readable: True
      have "fst (query_loop env q qid m a) = Inr True"
        using assms readable
        by (subst query_loop.simps)
           (auto simp: Inr sr True results_readable_def split: sum.splits option.splits)
      then show ?thesis by (simp add: Inr sr True readable)
    qed
  next
    case False
    with assms show ?thesis
      by (subst query_loop.simps) (simp add: Inr sr case_prod_beta)
  qed
qed

lemma query_loop_unreadable:
  assumes "a < m" and "get_query_execution env qid a = Inr (''SUCCEEDED'', rs)"
    and "\<not> results_readable env q qid"
  shows "fst (query_loop env q qid m a) \<noteq> Inr True"
  using assms
  by (subst query_loop.simps)
     (auto simp: results_readable_def split: sum.splits option.splits)

text \<open>The loop leaves the pass flag alone only by the way of a \<open>SUCCEEDED\<close> answer.\<close>

lemma query_loop_passed:
  assumes "fst (query_loop env q qid m a) = Inr True"
  shows "\<exists>i rs. a \<le> i \<and> i < m
           \<and> (\<forall>j. a \<le> j \<and> j < i \<longrightarrow> in_progress (get_query_execution env qid j))
           \<and> get_query_execution env qid i = Inr (''SUCCEEDED'', rs)
           \<and> results_readable env q qid"
  using assms
proof (induction k \<equiv> "m - a" arbitrary: a)
  case 0
  then have "\<not> a < m" by simp
  then have "query_loop env q qid m a = (Inr False, [Print StatusTimeout])"
    by (subst query_loop.simps) simp
  with 0 show ?case by simp
next
  case (Suc k)
  then have a: "a < m" and k: "k = m - Suc a" by simp_all
  note step = query_loop_step_outcome [OF a, of env q qid]
  show ?case
  proof (cases "get_query_execution env qid a")
    case (Inl e)
    with step Suc.prems show ?thesis by simp
  next
    case (Inr sr)
    obtain st rs where sr: "sr = (st, rs)" by (cases sr)
    show ?thesis
    proof (cases "st = ''SUCCEEDED''")
      case True
      have "results_readable env q qid"
        using query_loop_unreadable [OF a, of env qid rs q] Suc.prems
        by (auto simp: Inr sr True)
      then have "a \<le> a \<and> a < m
           \<and> (\<forall>j. a \<le> j \<and> j < a \<longrightarrow> in_progress (get_query_execution env qid j))
           \<and> get_query_execution env qid a = Inr (''SUCCEEDED'', rs)
           \<and> results_readable env q qid"
        using a by (auto simp: Inr sr True)
      then show ?thesis by blast
    next
      case False
      show ?thesis
      proof (cases "st = ''FAILED'' \<or> st = ''CANCELLED''")
        case True
        with step Suc.prems False show ?thesis by (simp add: Inr sr)
      next
        case waiting: False
        have now: "in_progress (get_query_execution env qid a)"
          using False waiting by (simp add: in_progress_def Inr sr)
        have "fst (query_loop env q qid m (Suc a)) = Inr True"
          using step Suc.prems False waiting by (simp add: Inr sr)
        from Suc.hyps(1) [OF k this] obtain i rs' where i:
          "Suc a \<le> i" "i < m"
          "\<forall>j. Suc a \<le> j \<and> j < i \<longrightarrow> in_progress (get_query_execution env qid j)"
          "get_query_execution env qid i = Inr (''SUCCEEDED'', rs')"
          "results_readable env q qid"
          by blast
        have "\<forall>j. a \<le> j \<and> j < i \<longrightarrow> in_progress (get_query_execution env qid j)"
          using i(3) now by (metis Suc_leI le_neq_implies_less)
        with i show ?thesis
          by (metis Suc_leD)
      qed
    qed
  qed
qed

lemma run_query_passed:
  assumes "fst (run_query env wg rb k q)"
  shows "\<exists>qid i rs.
           start_query_execution env (sql q) wg (result_location rb q) = Inr qid
           \<and> i < 30 \<and> (\<forall>j<i. in_progress (get_query_execution env qid j))
           \<and> get_query_execution env qid i = Inr (''SUCCEEDED'', rs)
           \<and> results_readable env q qid"
proof (cases "start_query_execution env (sql q) wg (result_location rb q)")
  case (Inl e)
  with assms show ?thesis by (simp add: run_query_def Let_def)
next
  case (Inr qid)
  obtain r evs where l: "query_loop env q qid 30 0 = (r, evs)"
    by (rule prod.exhaust)
  have "r = Inr True"
    using assms by (cases r) (simp_all add: run_query_def Let_def Inr l)
  then have "fst (query_loop env q qid 30 0) = Inr True"
    by (simp add: l)
  from query_loop_passed [OF this] show ?thesis
    using Inr by auto
qed

text \<open>Every query whose submission returned is polled.\<close>

lemma query_loop_polls:
  assumes "0 < m"
  shows "GetQueryExecution qid \<in> set (calls (snd (query_loop env q qid m 0)))"
  using assms
  by (subst query_loop.simps)
     (simp add: case_prod_beta split: sum.splits option.splits prod.splits)

lemma run_query_polls:
  "\<forall>(qid, q') \<in> set (fst (snd (run_query env wg rb i q))).
     GetQueryExecution qid \<in> set (calls (snd (snd (run_query env wg rb i q))))"
proof (cases "start_query_execution env (sql q) wg (result_location rb q)")
  case (Inl e)
  then show ?thesis by (simp add: run_query_def Let_def)
next
  case (Inr qid)
  obtain r evs where l: "query_loop env q qid 30 0 = (r, evs)"
    by (rule prod.exhaust)
  have "GetQueryExecution qid \<in> set (calls evs)"
    using query_loop_polls [of 30 qid env q] by (simp add: l)
  then show ?thesis
    by (cases r) (simp_all add: run_query_def Let_def Inr l)
qed

lemma run_queries_polls:
  "\<forall>(qid, q') \<in> set (fst (snd (run_queries env wg rb i qs))).
     GetQueryExecution qid \<in> set (calls (snd (snd (run_queries env wg rb i qs))))"
proof (induction qs arbitrary: i)
  case Nil
  then show ?case by simp
next
  case (Cons q qs)
  show ?case
    using Cons.IH [of "Suc i"] run_query_polls [of env wg rb i q]
    by (auto simp: case_prod_beta)
qed

text \<open>
  Claim C8, as stated, fails: all three queries can reach \<open>SUCCEEDED\<close> and the flag still be
  \<open>False\<close>. On a service that accepts every query and answers \<open>SUCCEEDED\<close> at the first
  poll, but refuses \<open>get_query_results\<close>, each query prints the success status, the exception
  is caught by the \<open>except\<close> of the loop body (line 219), and the method returns \<open>False\<close> with
  its three records.
\<close>

theorem succeeded_yet_flag_false_counterexample:
  "fst (test_athena_query athena_denied ''12:00'' ''wg'' ''db'' ''t'' ''rb'') =
     (False,
      [(''exec:s3://rb/query-results/count_rows_12:00/'', queries ''12:00'' ''db'' ''t'' ! 0),
       (''exec:s3://rb/query-results/users_12:00/'', queries ''12:00'' ''db'' ''t'' ! 1),
       (''exec:s3://rb/query-results/users_by_city_12:00/'', queries ''12:00'' ''db'' ''t'' ! 2)])
   \<and> count_list (snd (test_athena_query athena_denied ''12:00'' ''wg'' ''db'' ''t'' ''rb''))
        (Print StatusSuccess) = 3
   \<and> count_list (snd (test_athena_query athena_denied ''12:00'' ''wg'' ''db'' ''t'' ''rb''))
        (Print (StatusError ''AccessDenied'')) = 3"
proof -
  have start: "start_query_execution athena_denied s w l = Inr (''exec:'' @ l)" for s w l
    by (simp add: athena_denied_def)
  have loop: "query_loop athena_denied q qid 30 0 =
      (Inl (Exn ClientError ''AccessDenied''),
       [Call (GetQueryExecution qid), Print StatusSuccess, Call (GetQueryResults qid)])" for q qid
    by (subst query_loop.simps) (simp add: athena_denied_def)
  have run: "run_query athena_denied ''wg'' ''rb'' i q =
      (False, [(''exec:'' @ result_location ''rb'' q, q)],
       [Print (QueryHeader i (description q) (name q)),
        Call (StartQueryExecution (sql q) ''wg'' (result_location ''rb'' q)),
        Print (ExecutionId (''exec:'' @ result_location ''rb'' q)),
        Call (GetQueryExecution (''exec:'' @ result_location ''rb'' q)), Print StatusSuccess,
        Call (GetQueryResults (''exec:'' @ result_location ''rb'' q)),
        Print (StatusError ''AccessDenied'')])" for i q
    by (simp add: run_query_def Let_def start loop)
  have qs: "queries ''12:00'' ''db'' ''t'' =
      [queries ''12:00'' ''db'' ''t'' ! 0, queries ''12:00'' ''db'' ''t'' ! 1,
       queries ''12:00'' ''db'' ''t'' ! 2]"
    by (simp add: queries_def)
  have loc: "result_location ''rb'' (queries ''12:00'' ''db'' ''t'' ! 0) =
        ''s3://rb/query-results/count_rows_12:00/''"
    "result_location ''rb'' (queries ''12:00'' ''db'' ''t'' ! 1) =
        ''s3://rb/query-results/users_12:00/''"
    "result_location ''rb'' (queries ''12:00'' ''db'' ''t'' ! 2) =
        ''s3://rb/query-results/users_by_city_12:00/''"
    by (simp_all add: queries_def result_location_def)
  have all: "run_queries athena_denied ''wg'' ''rb'' 1 [a, b, c] =
      (False,
       [(''exec:'' @ result_location ''rb'' a, a), (''exec:'' @ result_location ''rb'' b, b),
        (''exec:'' @ result_location ''rb'' c, c)],
       snd (snd (run_query athena_denied ''wg'' ''rb'' 1 a))
       @ snd (snd (run_query athena_denied ''wg'' ''rb'' 2 b))
       @ snd (snd (run_query athena_denied ''wg'' ''rb'' 3 c)))" for a b c
    by (simp add: run numeral_2_eq_2 numeral_3_eq_3)
  have t: "test_athena_query athena_denied ''12:00'' ''wg'' ''db'' ''t'' ''rb'' =
      ((False,
        [(''exec:'' @ result_location ''rb'' (queries ''12:00'' ''db'' ''t'' ! 0),
          queries ''12:00'' ''db'' ''t'' ! 0),
         (''exec:'' @ result_location ''rb'' (queries ''12:00'' ''db'' ''t'' ! 1),
          queries ''12:00'' ''db'' ''t'' ! 1),
         (''exec:'' @ result_location ''rb'' (queries ''12:00'' ''db'' ''t'' ! 2),
          queries ''12:00'' ''db'' ''t'' ! 2)]),
       Print TestingAthena
       # (snd (snd (run_query athena_denied ''wg'' ''rb'' 1 (queries ''12:00'' ''db'' ''t'' ! 0)))
          @ snd (snd (run_query athena_denied ''wg'' ''rb'' 2 (queries ''12:00'' ''db'' ''t'' ! 1)))
          @ snd (snd (run_query athena_denied ''wg'' ''rb'' 3 (queries ''12:00'' ''db'' ''t'' ! 2))))
       @ [Print SomeQueriesFailed])"
    unfolding test_athena_query_def
    apply (subst qs)
    unfolding all
    by simp
  show ?thesis
    unfolding t loc by (simp add: run)
qed

text \<open>
  Claim C8, amended. The batch of \<open>test_athena_query\<close> consists of the three queries named
  \<open>count_rows\<close>, \<open>users\<close> and \<open>users_by_city\<close> (each followed by the time stamp). Whatever
  the service answers, every one of the three is submitted, in this order, and the returned
  \<open>query_executions\<close> hold one record per query whose submission returned an execution
  identifier, pairing that identifier with the query's own description record; every
  execution recorded is polled: a failure of one query stops neither the submission nor the
  tracking of the others. The flag returned is \<open>True\<close> exactly when, for each of the three
  queries, the submission returns, the execution answers \<open>SUCCEEDED\<close> within the 30 polls
  after in-progress answers only, and its results are fetched and summarised without an
  exception; the method then returns exactly three records, the identifier of each paired with
  the query that produced it. Reaching \<open>SUCCEEDED\<close> alone is not enough.
\<close>

theorem three_queries_tracked:
  "map name (queries ts db tbl) = [''count_rows_'' @ ts, ''users_'' @ ts, ''users_by_city_'' @ ts]
   \<and> snd (fst (test_athena_query env ts wg db tbl rb)) = started env wg rb (queries ts db tbl)
   \<and> filter is_start_query (calls (snd (test_athena_query env ts wg db tbl rb))) =
       map (\<lambda>q. StartQueryExecution (sql q) wg (result_location rb q)) (queries ts db tbl)
   \<and> ((\<forall>k<3. \<exists>qid i r.
          start_query_execution env (sql (queries ts db tbl ! k)) wg
            (result_location rb (queries ts db tbl ! k)) = Inr qid
          \<and> i < 30 \<and> (\<forall>j<i. in_progress (get_query_execution env qid j))
          \<and> get_query_execution env qid i = Inr (''SUCCEEDED'', r)
          \<and> results_readable env (queries ts db tbl ! k) qid)
       \<longrightarrow> fst (fst (test_athena_query env ts wg db tbl rb)) = True
           \<and> (\<exists>id1 id2 id3. snd (fst (test_athena_query env ts wg db tbl rb)) =
                 [(id1, queries ts db tbl ! 0), (id2, queries ts db tbl ! 1),
                  (id3, queries ts db tbl ! 2)]))
   \<and> (fst (fst (test_athena_query env ts wg db tbl rb))
       \<longrightarrow> (\<forall>k<3. \<exists>qid i r.
              start_query_execution env (sql (queries ts db tbl ! k)) wg
                (result_location rb (queries ts db tbl ! k)) = Inr qid
              \<and> i < 30 \<and> (\<forall>j<i. in_progress (get_query_execution env qid j))
              \<and> get_query_execution env qid i = Inr (''SUCCEEDED'', r)
              \<and> results_readable env (queries ts db tbl ! k) qid))
   \<and> (\<forall>(qid, q) \<in> set (snd (fst (test_athena_query env ts wg db tbl rb))).
         GetQueryExecution qid \<in> set (calls (snd (test_athena_query env ts wg db tbl rb))))"
proof (intro conjI impI)
  show "map name (queries ts db tbl) =
      [''count_rows_'' @ ts, ''users_'' @ ts, ''users_by_city_'' @ ts]"
    by (simp add: queries_def)
  show "filter is_start_query (calls (snd (test_athena_query env ts wg db tbl rb))) =
       map (\<lambda>q. StartQueryExecution (sql q) wg (result_location rb q)) (queries ts db tbl)"
    using run_queries_starts [of env wg rb 1 "queries ts db tbl"]
    by (simp add: test_athena_query_def case_prod_beta)
  show "\<forall>(qid, q) \<in> set (snd (fst (test_athena_query env ts wg db tbl rb))).
         GetQueryExecution qid \<in> set (calls (snd (test_athena_query env ts wg db tbl rb)))"
    using run_queries_polls [of env wg rb 1 "queries ts db tbl"]
    by (auto simp: test_athena_query_def case_prod_beta)
next
  assume flag: "fst (fst (test_athena_query env ts wg db tbl rb))"
  have len: "length (queries ts db tbl) = 3"
    by (simp add: queries_def)
  have "fst (run_queries env wg rb 1 (queries ts db tbl))"
    using flag by (simp add: test_athena_query_def case_prod_beta)
  then have "\<forall>k<3. fst (run_query env wg rb (1 + k) (queries ts db tbl ! k))"
    using run_queries_flag [of env wg rb 1 "queries ts db tbl"] by (simp add: len)
  then show "\<forall>k<3. \<exists>qid i r.
              start_query_execution env (sql (queries ts db tbl ! k)) wg
                (result_location rb (queries ts db tbl ! k)) = Inr qid
              \<and> i < 30 \<and> (\<forall>j<i. in_progress (get_query_execution env qid j))
              \<and> get_query_execution env qid i = Inr (''SUCCEEDED'', r)
              \<and> results_readable env (queries ts db tbl ! k) qid"
    using run_query_passed [of env wg rb] by blast
next
  show recs: "snd (fst (test_athena_query env ts wg db tbl rb)) =
      started env wg rb (queries ts db tbl)"
    using run_queries_records [of env wg rb 1 "queries ts db tbl"]
    by (simp add: test_athena_query_def case_prod_beta)
  assume h: "\<forall>k<3. \<exists>qid i r.
          start_query_execution env (sql (queries ts db tbl ! k)) wg
            (result_location rb (queries ts db tbl ! k)) = Inr qid
          \<and> i < 30 \<and> (\<forall>j<i. in_progress (get_query_execution env qid j))
          \<and> get_query_execution env qid i = Inr (''SUCCEEDED'', r)
          \<and> results_readable env (queries ts db tbl ! k) qid"
  have len: "length (queries ts db tbl) = 3"
    by (simp add: queries_def)
  have "\<forall>k<length (queries ts db tbl).
      fst (run_query env wg rb (1 + k) (queries ts db tbl ! k))"
    using h run_query_passes [of env _ wg rb] unfolding len by blast
  then show "fst (fst (test_athena_query env ts wg db tbl rb)) = True"
    using run_queries_flag [of env wg rb 1 "queries ts db tbl"]
    by (simp add: test_athena_query_def case_prod_beta)
  from h obtain id1 id2 id3 where ids:
    "start_query_execution env (sql (queries ts db tbl ! 0)) wg
       (result_location rb (queries ts db tbl ! 0)) = Inr id1"
    "start_query_execution env (sql (queries ts db tbl ! 1)) wg
       (result_location rb (queries ts db tbl ! 1)) = Inr id2"
    "start_query_execution env (sql (queries ts db tbl ! 2)) wg
       (result_location rb (queries ts db tbl ! 2)) = Inr id3"
    by (metis numeral_3_eq_3 zero_less_Suc lessI less_SucI One_nat_def numeral_2_eq_2)
  have qs: "queries ts db tbl =
      [queries ts db tbl ! 0, queries ts db tbl ! 1, queries ts db tbl ! 2]"
    by (simp add: queries_def)
  have "started env wg rb (queries ts db tbl) =
      [(id1, queries ts db tbl ! 0), (id2, queries ts db tbl ! 1), (id3, queries ts db tbl ! 2)]"
    apply (subst qs)
    unfolding started_def using ids by simp
  with recs have "snd (fst (test_athena_query env ts wg db tbl rb)) =
      [(id1, queries ts db tbl ! 0), (id2, queries ts db tbl ! 1), (id3, queries ts db tbl ! 2)]"
    by (rule trans)
  then show "\<exists>id1 id2 id3. snd (fst (test_athena_query env ts wg db tbl rb)) =
                 [(id1, queries ts db tbl ! 0), (id2, queries ts db tbl ! 1),
                  (id3, queries ts db tbl ! 2)]"
    by (intro exI)
qed

theorem three_queries_tracked_witness:
  "fst (test_athena_query athena_all_succeed ''12:00'' ''wg'' ''db'' ''t'' ''rb'') =
     (True,
      [(''exec:s3://rb/query-results/count_rows_12:00/'', queries ''12:00'' ''db'' ''t'' ! 0),
       (''exec:s3://rb/query-results/users_12:00/'', queries ''12:00'' ''db'' ''t'' ! 1),
       (''exec:s3://rb/query-results/users_by_city_12:00/'', queries ''12:00'' ''db'' ''t'' ! 2)])
   \<and> GetQueryExecution ''exec:s3://rb/query-results/users_by_city_12:00/''
       \<in> set (calls (snd (test_athena_query athena_all_succeed ''12:00'' ''wg'' ''db'' ''t'' ''rb'')))"
proof -
  let ?qs = "queries ''12:00'' ''db'' ''t''"
  have ready: "\<exists>qid i r.
          start_query_execution athena_all_succeed (sql (?qs ! k)) ''wg''
            (result_location ''rb'' (?qs ! k)) = Inr qid
          \<and> i < 30 \<and> (\<forall>j<i. in_progress (get_query_execution athena_all_succeed qid j))
          \<and> get_query_execution athena_all_succeed qid i = Inr (''SUCCEEDED'', r)
          \<and> results_readable athena_all_succeed (?qs ! k) qid" if "k < 3" for k
  proof -
    have rd: "results_readable athena_all_succeed (?qs ! k) qid" for qid
      using that
      by (auto simp: results_readable_def athena_all_succeed_def report_rows_def queries_def
            numeral_3_eq_3 less_Suc_eq)
    show ?thesis
      apply (rule exI [of _ "''exec:'' @ result_location ''rb'' (?qs ! k)"])
      apply (rule exI [of _ 1])
      apply (rule exI [of _ None])
      using rd by (simp add: athena_all_succeed_def in_progress_def)
  qed
  have "fst (fst (test_athena_query athena_all_succeed ''12:00'' ''wg'' ''db'' ''t'' ''rb'')) = True"
    and "snd (fst (test_athena_query athena_all_succeed ''12:00'' ''wg'' ''db'' ''t'' ''rb''))
      = started athena_all_succeed ''wg'' ''rb'' ?qs"
    using three_queries_tracked [of "''12:00''" "''db''" "''t''" athena_all_succeed "''wg''" "''rb''"]
      ready
    by blast+
  moreover have "started athena_all_succeed ''wg'' ''rb'' ?qs =
      [(''exec:s3://rb/query-results/count_rows_12:00/'', ?qs ! 0),
       (''exec:s3://rb/query-results/users_12:00/'', ?qs ! 1),
       (''exec:s3://rb/query-results/users_by_city_12:00/'', ?qs ! 2)]"
    by (simp add: started_def athena_all_succeed_def queries_def result_location_def)
  ultimately have res:
    "fst (test_athena_query athena_all_succeed ''12:00'' ''wg'' ''db'' ''t'' ''rb'') =
       (True,
        [(''exec:s3://rb/query-results/count_rows_12:00/'', ?qs ! 0),
         (''exec:s3://rb/query-results/users_12:00/'', ?qs ! 1),
         (''exec:s3://rb/query-results/users_by_city_12:00/'', ?qs ! 2)])"
    by (simp add: prod_eq_iff)
  have "\<forall>(qid, q) \<in> set (snd (fst (test_athena_query athena_all_succeed ''12:00'' ''wg'' ''db''
                                        ''t'' ''rb''))).
      GetQueryExecution qid
        \<in> set (calls (snd (test_athena_query athena_all_succeed ''12:00'' ''wg'' ''db'' ''t'' ''rb'')))"
    by (rule three_queries_tracked
          [of "''12:00''" "''db''" "''t''" athena_all_succeed "''wg''" "''rb''",
           THEN conjunct2, THEN conjunct2, THEN conjunct2, THEN conjunct2, THEN conjunct2])
  then have "GetQueryExecution ''exec:s3://rb/query-results/users_by_city_12:00/''
       \<in> set (calls (snd (test_athena_query athena_all_succeed ''12:00'' ''wg'' ''db'' ''t'' ''rb'')))"
    unfolding res by simp
  with res show ?thesis
    by (rule conjI)
qed

section \<open>The verification step of the cleanup\<close>

lemma verdicts_simps [simp]:
  "verdicts [] = []"
  "verdicts (Call c # evs) = verdicts evs"
  "verdicts (Sleep n # evs) = verdicts evs"
  "verdicts (Print m # evs) = (case m of Verify v \<Rightarrow> [v] | _ \<Rightarrow> []) @ verdicts evs"
  by (simp_all add: verdicts_def)

lemma verdicts_append [simp]: "verdicts (evs @ evs') = verdicts evs @ verdicts evs'"
  by (simp add: verdicts_def)

text \<open>Each check prints exactly one verification line, of its own category, and appends
  \<open>True\<close> exactly when that line is a passing one.\<close>

lemma verify_stack_verdict:
  "\<exists>v. verdicts (snd (snd (verify_stack env cfg w))) = [v]
       \<and> verdict_category v = CloudFormation
       \<and> verdict_passes v = fst (verify_stack env cfg w)"
  by (cases "describe_stacks env (stack_name cfg) w")
     (simp add: verify_stack_def split: sum.splits list.splits)

lemma verify_buckets_verdict:
  "\<exists>v. verdicts (snd (snd (verify_buckets env w))) = [v]
       \<and> verdict_category v = S3
       \<and> verdict_passes v = fst (verify_buckets env w)"
  by (cases "list_buckets env w") (simp add: verify_buckets_def Let_def split: sum.splits)

lemma verify_functions_verdict:
  "\<exists>v. verdicts (snd (snd (verify_functions env w))) = [v]
       \<and> verdict_category v = Lambda
       \<and> verdict_passes v = fst (verify_functions env w)"
  by (cases "list_functions env w") (simp add: verify_functions_def Let_def split: sum.splits)

lemma verify_database_verdict:
  "\<exists>v. verdicts (snd (snd (verify_database env cfg w))) = [v]
       \<and> verdict_category v = Glue
       \<and> verdict_passes v = fst (verify_database env cfg w)"
  by (cases "get_databases env w") (simp add: verify_database_def Let_def split: sum.splits)

lemma verify_workgroup_verdict:
  "\<exists>v. verdicts (snd (snd (verify_workgroup env cfg w))) = [v]
       \<and> verdict_category v = Athena
       \<and> verdict_passes v = fst (verify_workgroup env cfg w)"
  by (cases "list_work_groups env w")
     (simp add: verify_workgroup_def Let_def split: sum.splits option.splits)

lemma verify_cleanup_verdicts:
  "map verdict_category (verdicts (snd (snd (verify_cleanup env cfg w)))) =
     [CloudFormation, S3, Lambda, Glue, Athena]
   \<and> fst (verify_cleanup env cfg w) =
       list_all verdict_passes (verdicts (snd (snd (verify_cleanup env cfg w))))"
proof -
  obtain r1 w1 e1 where a: "verify_stack env cfg w = (r1, w1, e1)"
    by (rule prod_cases3)
  obtain r2 w2 e2 where b: "verify_buckets env w1 = (r2, w2, e2)"
    by (rule prod_cases3)
  obtain r3 w3 e3 where c: "verify_functions env w2 = (r3, w3, e3)"
    by (rule prod_cases3)
  obtain r4 w4 e4 where d: "verify_database env cfg w3 = (r4, w4, e4)"
    by (rule prod_cases3)
  obtain r5 w5 e5 where e: "verify_workgroup env cfg w4 = (r5, w5, e5)"
    by (rule prod_cases3)
  have vc: "verify_cleanup env cfg w =
      (r1 \<and> r2 \<and> r3 \<and> r4 \<and> r5, w5, Print (Step 6) # e1 @ e2 @ e3 @ e4 @ e5)"
    by (simp add: verify_cleanup_def verification_results_def a b c d e)
  obtain v1 where v1: "verdicts e1 = [v1]" "verdict_category v1 = CloudFormation"
      "verdict_passes v1 = r1"
    using verify_stack_verdict [of env cfg w] by (auto simp: a)
  obtain v2 where v2: "verdicts e2 = [v2]" "verdict_category v2 = S3" "verdict_passes v2 = r2"
    using verify_buckets_verdict [of env w1] by (auto simp: b)
  obtain v3 where v3: "verdicts e3 = [v3]" "verdict_category v3 = Lambda"
      "verdict_passes v3 = r3"
    using verify_functions_verdict [of env w2] by (auto simp: c)
  obtain v4 where v4: "verdicts e4 = [v4]" "verdict_category v4 = Glue" "verdict_passes v4 = r4"
    using verify_database_verdict [of env cfg w3] by (auto simp: d)
  obtain v5 where v5: "verdicts e5 = [v5]" "verdict_category v5 = Athena"
      "verdict_passes v5 = r5"
    using verify_workgroup_verdict [of env cfg w4] by (auto simp: e)
  show ?thesis
    by (simp add: vc v1 v2 v3 v4 v5)
qed

text \<open>The stack check is the first of the five, and the other four follow it.\<close>

lemma verify_cleanup_stack_first:
  "\<exists>rest. verdicts (snd (snd (verify_cleanup env cfg w))) =
            verdicts (snd (snd (verify_stack env cfg w))) @ rest
          \<and> length rest = 4
          \<and> fst (verify_cleanup env cfg w) =
              (fst (verify_stack env cfg w) \<and> list_all verdict_passes rest)"
proof -
  obtain r1 w1 e1 where a: "verify_stack env cfg w = (r1, w1, e1)"
    by (rule prod_cases3)
  obtain r2 w2 e2 where b: "verify_buckets env w1 = (r2, w2, e2)"
    by (rule prod_cases3)
  obtain r3 w3 e3 where c: "verify_functions env w2 = (r3, w3, e3)"
    by (rule prod_cases3)
  obtain r4 w4 e4 where d: "verify_database env cfg w3 = (r4, w4, e4)"
    by (rule prod_cases3)
  obtain r5 w5 e5 where e: "verify_workgroup env cfg w4 = (r5, w5, e5)"
    by (rule prod_cases3)
  have vc: "verify_cleanup env cfg w =
      (r1 \<and> r2 \<and> r3 \<and> r4 \<and> r5, w5, Print (Step 6) # e1 @ e2 @ e3 @ e4 @ e5)"
    by (simp add: verify_cleanup_def verification_results_def a b c d e)
  obtain v2 where v2: "verdicts e2 = [v2]" "verdict_passes v2 = r2"
    using verify_buckets_verdict [of env w1] by (auto simp: b)
  obtain v3 where v3: "verdicts e3 = [v3]" "verdict_passes v3 = r3"
    using verify_functions_verdict [of env w2] by (auto simp: c)
  obtain v4 where v4: "verdicts e4 = [v4]" "verdict_passes v4 = r4"
    using verify_database_verdict [of env cfg w3] by (auto simp: d)
  obtain v5 where v5: "verdicts e5 = [v5]" "verdict_passes v5 = r5"
    using verify_workgroup_verdict [of env cfg w4] by (auto simp: e)
  have "verdicts (snd (snd (verify_cleanup env cfg w))) =
          verdicts (snd (snd (verify_stack env cfg w))) @ [v2, v3, v4, v5]"
    by (simp add: vc a v2 v3 v4 v5)
  moreover have "length [v2, v3, v4, v5] = 4"
    by simp
  moreover have "fst (verify_cleanup env cfg w) =
      (fst (verify_stack env cfg w) \<and> list_all verdict_passes [v2, v3, v4, v5])"
    by (simp add: vc a v2 v3 v4 v5)
  ultimately show ?thesis
    by blast
qed

text \<open>The stack check when the stack is not there.\<close>

lemma verify_stack_absent:
  assumes "(\<exists>e. fst (describe_stacks env (stack_name cfg) w) = Inl e)
           \<or> fst (describe_stacks env (stack_name cfg) w) = Inr []"
  shows "fst (verify_stack env cfg w)"
    and "verdicts (snd (snd (verify_stack env cfg w))) = [Absent CloudFormation]"
    and "calls (snd (snd (verify_stack env cfg w))) = [DescribeStacks (stack_name cfg)]"
  using assms
  by (cases "describe_stacks env (stack_name cfg) w"; auto simp add: verify_stack_def)+

section \<open>What the verification reports\<close>

text \<open>Each check makes its one call and prints the line owed to the answer.\<close>

lemma verify_stack_line:
  "verify_stack env cfg w =
     (verdict_passes (stack_line (fst (describe_stacks env (stack_name cfg) w))),
      snd (describe_stacks env (stack_name cfg) w),
      [Call (DescribeStacks (stack_name cfg)),
       Print (Verify (stack_line (fst (describe_stacks env (stack_name cfg) w))))])"
  by (cases "describe_stacks env (stack_name cfg) w")
     (simp add: verify_stack_def stack_line_def split: sum.splits list.splits)

lemma verify_buckets_line:
  "verify_buckets env w =
     (verdict_passes (listing_line S3 (sublist ''data-pipeline'') (fst (list_buckets env w))),
      snd (list_buckets env w),
      [Call ListBuckets,
       Print (Verify (listing_line S3 (sublist ''data-pipeline'') (fst (list_buckets env w))))])"
  by (cases "list_buckets env w")
     (simp add: verify_buckets_def listing_line_def split: sum.splits)

lemma verify_functions_line:
  "verify_functions env w =
     (verdict_passes (listing_line Lambda (sublist ''data-pipeline'') (fst (list_functions env w))),
      snd (list_functions env w),
      [Call ListFunctions,
       Print (Verify (listing_line Lambda (sublist ''data-pipeline'')
                        (fst (list_functions env w))))])"
  by (cases "list_functions env w")
     (simp add: verify_functions_def listing_line_def split: sum.splits)

lemma verify_database_line:
  "verify_database env cfg w =
     (verdict_passes (listing_line Glue (\<lambda>n. n = database_name cfg) (fst (get_databases env w))),
      snd (get_databases env w),
      [Call GetDatabases,
       Print (Verify (listing_line Glue (\<lambda>n. n = database_name cfg)
                        (fst (get_databases env w))))])"
  by (cases "get_databases env w")
     (simp add: verify_database_def listing_line_def split: sum.splits)

lemma verify_workgroup_line:
  "verify_workgroup env cfg w =
     (verdict_passes (listing_line Athena (\<lambda>n. n = workgroup_name cfg)
                        (work_groups (fst (list_work_groups env w)))),
      snd (list_work_groups env w),
      [Call ListWorkGroups,
       Print (Verify (listing_line Athena (\<lambda>n. n = workgroup_name cfg)
                        (work_groups (fst (list_work_groups env w)))))])"
  by (cases "list_work_groups env w")
     (simp add: verify_workgroup_def listing_line_def work_groups_def
        split: sum.splits option.splits)

lemma verify_cleanup_lines:
  fixes env :: "'w aws" and cfg :: config and w :: 'w
  defines "w1 \<equiv> snd (describe_stacks env (stack_name cfg) w)"
  defines "w2 \<equiv> snd (list_buckets env w1)"
  defines "w3 \<equiv> snd (list_functions env w2)"
  defines "w4 \<equiv> snd (get_databases env w3)"
  defines "l1 \<equiv> stack_line (fst (describe_stacks env (stack_name cfg) w))"
  defines "l2 \<equiv> listing_line S3 (sublist ''data-pipeline'') (fst (list_buckets env w1))"
  defines "l3 \<equiv> listing_line Lambda (sublist ''data-pipeline'') (fst (list_functions env w2))"
  defines "l4 \<equiv> listing_line Glue (\<lambda>n. n = database_name cfg) (fst (get_databases env w3))"
  defines "l5 \<equiv> listing_line Athena (\<lambda>n. n = workgroup_name cfg)
                   (work_groups (fst (list_work_groups env w4)))"
  shows "verify_cleanup env cfg w =
     (list_all verdict_passes [l1, l2, l3, l4, l5], snd (list_work_groups env w4),
      [Print (Step 6),
       Call (DescribeStacks (stack_name cfg)), Print (Verify l1),
       Call ListBuckets, Print (Verify l2),
       Call ListFunctions, Print (Verify l3),
       Call GetDatabases, Print (Verify l4),
       Call ListWorkGroups, Print (Verify l5)])"
proof -
  have a: "verify_stack env cfg w =
      (verdict_passes l1, w1, [Call (DescribeStacks (stack_name cfg)), Print (Verify l1)])"
    unfolding l1_def w1_def by (rule verify_stack_line)
  have b: "verify_buckets env w1 = (verdict_passes l2, w2, [Call ListBuckets, Print (Verify l2)])"
    unfolding l2_def w2_def by (rule verify_buckets_line)
  have c: "verify_functions env w2 =
      (verdict_passes l3, w3, [Call ListFunctions, Print (Verify l3)])"
    unfolding l3_def w3_def by (rule verify_functions_line)
  have d: "verify_database env cfg w3 =
      (verdict_passes l4, w4, [Call GetDatabases, Print (Verify l4)])"
    unfolding l4_def w4_def by (rule verify_database_line)
  have e: "verify_workgroup env cfg w4 =
      (verdict_passes l5, snd (list_work_groups env w4), [Call ListWorkGroups, Print (Verify l5)])"
    unfolding l5_def by (rule verify_workgroup_line)
  show ?thesis
    by (simp add: verify_cleanup_def verification_results_def a b c d e)
qed

lemma line_category [simp]:
  "verdict_category (stack_line r) = CloudFormation"
  "verdict_category (listing_line c matches r') = c"
  by (simp_all add: stack_line_def listing_line_def split: sum.splits list.splits)

text \<open>
  Claim C5, as stated, fails in its second half: a category can fail without any resource
  identifier being reported. On an account where the bucket listing is refused, the bucket
  category fails and its line carries the text of the exception, no bucket name.
\<close>

theorem failing_category_without_names_counterexample:
  "\<not> fst (verify_cleanup denied_aws init_config 0)
   \<and> verdicts (snd (snd (verify_cleanup denied_aws init_config 0))) =
       [Absent CloudFormation, CheckError S3 ''AccessDenied'', Absent Lambda, Absent Glue,
        Absent Athena]"
  by (simp add: verify_cleanup_lines denied_aws_def gone_aws_def init_config_def
        stack_line_def listing_line_def work_groups_def sublist_code(3))

text \<open>
  Claim C5, amended. \<open>verify_cleanup\<close> makes five calls, in this order: \<open>describe_stacks\<close>,
  \<open>list_buckets\<close>, \<open>list_functions\<close>, \<open>get_databases\<close>, \<open>list_work_groups\<close>. It prints one
  line for each category, in the same order, and returns \<open>True\<close> exactly when all five lines
  are passing ones. The line of a category is decided by the answer of its call alone. The
  stack passes when the call raises, lists no stack, or the status of the stack contains
  \<open>DELETE_COMPLETE\<close>; otherwise it fails and the line gives that status. Each of the other
  four categories fails when its listing raises, the line giving the text of the exception,
  and otherwise passes exactly when no listed name matches (names containing
  \<open>data-pipeline\<close> for buckets and functions, the configured name for the database and the
  work group); when it fails for names found, the line lists those names.
\<close>

theorem verification_report:
  "(let w1 = snd (describe_stacks env (stack_name cfg) w);
        w2 = snd (list_buckets env w1);
        w3 = snd (list_functions env w2);
        w4 = snd (get_databases env w3);
        lines = [stack_line (fst (describe_stacks env (stack_name cfg) w)),
                 listing_line S3 (sublist ''data-pipeline'') (fst (list_buckets env w1)),
                 listing_line Lambda (sublist ''data-pipeline'') (fst (list_functions env w2)),
                 listing_line Glue (\<lambda>n. n = database_name cfg) (fst (get_databases env w3)),
                 listing_line Athena (\<lambda>n. n = workgroup_name cfg)
                   (work_groups (fst (list_work_groups env w4)))]
    in calls (snd (snd (verify_cleanup env cfg w))) =
         [DescribeStacks (stack_name cfg), ListBuckets, ListFunctions, GetDatabases,
          ListWorkGroups]
       \<and> verdicts (snd (snd (verify_cleanup env cfg w))) = lines
       \<and> map verdict_category lines = [CloudFormation, S3, Lambda, Glue, Athena]
       \<and> fst (verify_cleanup env cfg w) = list_all verdict_passes lines)"
  by (simp add: verify_cleanup_lines Let_def)

theorem verification_report_witness:
  "verdicts (snd (snd (verify_cleanup untouched_aws init_config 0))) =
     [StackStatusIs ''CREATE_COMPLETE'',
      Found S3 [''data-pipeline-bucket-x'', ''data-pipeline-results-x''],
      Found Lambda [''data-pipeline-data-extractor''],
      Found Glue [''data_pipeline_db''],
      Found Athena [''data-pipeline-workgroup'']]
   \<and> \<not> fst (verify_cleanup untouched_aws init_config 0)
   \<and> verdicts (snd (snd (verify_cleanup leftover_aws init_config 0))) =
       [Absent CloudFormation, Found S3 [''data-pipeline-bucket-x''], Absent Lambda, Absent Glue,
        Absent Athena]
   \<and> \<not> fst (verify_cleanup leftover_aws init_config 0)
   \<and> fst (verify_cleanup gone_aws init_config 0)"
proof -
  note env = untouched_aws_def deployed_aws_def deployed_stack_def leftover_aws_def gone_aws_def
    init_config_def
  note voc = stack_line_def listing_line_def work_groups_def sublist_code(3)
  have a: "verdicts (snd (snd (verify_cleanup untouched_aws init_config 0))) =
     [StackStatusIs ''CREATE_COMPLETE'',
      Found S3 [''data-pipeline-bucket-x'', ''data-pipeline-results-x''],
      Found Lambda [''data-pipeline-data-extractor''],
      Found Glue [''data_pipeline_db''],
      Found Athena [''data-pipeline-workgroup'']]
   \<and> \<not> fst (verify_cleanup untouched_aws init_config 0)"
    using verification_report [of untouched_aws init_config 0]
    by (simp add: Let_def env voc)
  have b: "verdicts (snd (snd (verify_cleanup leftover_aws init_config 0))) =
       [Absent CloudFormation, Found S3 [''data-pipeline-bucket-x''], Absent Lambda, Absent Glue,
        Absent Athena]
   \<and> \<not> fst (verify_cleanup leftover_aws init_config 0)"
    using verification_report [of leftover_aws init_config 0]
    by (simp add: Let_def env voc)
  have c: "fst (verify_cleanup gone_aws init_config 0)"
    using verification_report [of gone_aws init_config 0]
    by (simp add: Let_def env voc)
  from a b c show ?thesis
    by blast
qed

text \<open>
  Claim C6. When the \<open>describe_stacks\<close> call of the verification raises, whatever the
  exception, or answers with no stack, the stack check appends \<open>True\<close> and prints the
  stack-not-found line, after that single call; the overall verdict is then the conjunction of
  the other four checks.
\<close>

theorem absent_stack_passes:
  assumes "(\<exists>e. fst (describe_stacks env (stack_name cfg) w) = Inl e)
           \<or> fst (describe_stacks env (stack_name cfg) w) = Inr []"
  shows "fst (verify_stack env cfg w)
       \<and> verdicts (snd (snd (verify_stack env cfg w))) = [Absent CloudFormation]
       \<and> calls (snd (snd (verify_stack env cfg w))) = [DescribeStacks (stack_name cfg)]
       \<and> (\<exists>rest. verdicts (snd (snd (verify_cleanup env cfg w))) = Absent CloudFormation # rest
              \<and> length rest = 4
              \<and> fst (verify_cleanup env cfg w) = list_all verdict_passes rest)"
proof -
  note absent = verify_stack_absent [OF assms]
  obtain rest where rest:
    "verdicts (snd (snd (verify_cleanup env cfg w))) =
       verdicts (snd (snd (verify_stack env cfg w))) @ rest"
    "length rest = 4"
    "fst (verify_cleanup env cfg w) = (fst (verify_stack env cfg w) \<and> list_all verdict_passes rest)"
    using verify_cleanup_stack_first [of env cfg w] by blast
  have "verdicts (snd (snd (verify_cleanup env cfg w))) = Absent CloudFormation # rest"
    using rest(1) absent(2) by simp
  moreover have "fst (verify_cleanup env cfg w) = list_all verdict_passes rest"
    using rest(3) absent(1) by simp
  ultimately have "\<exists>rest. verdicts (snd (snd (verify_cleanup env cfg w))) = Absent CloudFormation # rest
              \<and> length rest = 4
              \<and> fst (verify_cleanup env cfg w) = list_all verdict_passes rest"
    using rest(2) by blast
  with absent show ?thesis
    by blast
qed

theorem absent_stack_passes_witness:
  "fst (verify_stack gone_aws init_config 0)
   \<and> verdicts (snd (snd (verify_stack gone_aws init_config 0))) = [Absent CloudFormation]
   \<and> calls (snd (snd (verify_stack gone_aws init_config 0))) = [DescribeStacks ''DataPipelineStack'']
   \<and> (\<exists>rest. verdicts (snd (snd (verify_cleanup gone_aws init_config 0))) =
               Absent CloudFormation # rest
            \<and> length rest = 4
            \<and> fst (verify_cleanup gone_aws init_config 0) = list_all verdict_passes rest)"
  using absent_stack_passes [of gone_aws init_config 0]
  by (simp add: gone_aws_def init_config_def)

section \<open>The exit code of the cleanup\<close>

text \<open>No stage before the verification prints a verification line.\<close>

lemma verdicts_get_stack_resources:
  "verdicts (snd (snd (get_stack_resources env cfg w))) = []"
  by (cases "describe_stacks env (stack_name cfg) w")
     (simp add: get_stack_resources_def split: sum.splits list.splits prod.splits option.splits)

lemma verdicts_clean_athena_workgroup:
  "verdicts (snd (snd (clean_athena_workgroup env cfg w))) = []"
proof (cases "list_work_groups env w")
  case (Pair r w1)
  then show ?thesis
    by (cases "delete_work_group env (workgroup_name cfg) True w1")
       (simp add: clean_athena_workgroup_def Let_def split: sum.splits option.splits)
qed

lemma verdicts_delete_pages:
  "verdicts (snd (snd (delete_pages env b pages n w))) = []"
proof (induction env b pages n w rule: delete_pages.induct)
  case (1 env bucket_name delete_count w)
  then show ?case by simp
next
  case (2 env bucket_name e pages delete_count w)
  then show ?case by simp
next
  case (3 env bucket_name pages delete_count w)
  then show ?case by (simp add: case_prod_beta)
next
  case (4 env bucket_name objects pages delete_count w)
  then show ?case
    by (cases "delete_objects env bucket_name objects w")
       (simp add: case_prod_beta split: option.splits)
qed

lemma verdicts_empty_bucket: "verdicts (snd (empty_bucket env b w)) = []"
proof (cases "head_bucket env b w")
  case (Pair r w1)
  show ?thesis
  proof (cases r)
    case None
    obtain pages w2 where p: "paginate env b w1 = (pages, w2)"
      by (rule prod.exhaust)
    obtain r3 w3 evs where d: "delete_pages env b pages 0 w2 = (r3, w3, evs)"
      by (rule prod_cases3)
    have "verdicts evs = []"
      using verdicts_delete_pages [of env b pages 0 w2] by (simp add: d)
    then show ?thesis
      by (simp add: empty_bucket_def Pair None p d split: sum.splits)
  next
    case (Some e)
    then show ?thesis
      by (simp add: empty_bucket_def Pair)
  qed
qed

lemma verdicts_empty_buckets: "verdicts (snd (empty_buckets env bs w)) = []"
proof (induction bs arbitrary: w)
  case Nil
  then show ?case by simp
next
  case (Cons b bs)
  then show ?case
    by (simp add: case_prod_beta verdicts_empty_bucket)
qed

lemma verdicts_empty_s3_buckets: "verdicts (snd (snd (empty_s3_buckets env cfg w))) = []"
  by (simp add: empty_s3_buckets_def case_prod_beta verdicts_empty_buckets)

lemma verdicts_run_cdk_destroy: "verdicts (snd (snd (run_cdk_destroy env w))) = []"
  by (cases "cdk_destroy env w") (simp add: run_cdk_destroy_def split: sum.splits prod.splits)

lemma verdicts_delete_bucket_steps: "verdicts (snd (delete_bucket_steps env bs w)) = []"
proof (induction bs arbitrary: w)
  case Nil
  then show ?case by simp
next
  case (Cons b bs)
  have "verdicts (snd (delete_bucket_step env b w)) = []"
    by (cases "delete_bucket env b w") (simp add: delete_bucket_step_def split: option.splits)
  with Cons show ?case
    by (simp add: case_prod_beta)
qed

lemma verdicts_manual_resource_cleanup:
  "verdicts (snd (manual_resource_cleanup env cfg w)) = []"
proof -
  have a: "verdicts (snd (delete_function_step env cfg w')) = []" for w'
    by (cases "delete_function env (lambda_function_name cfg) w'")
       (simp add: delete_function_step_def split: option.splits)
  have b: "verdicts (snd (delete_crawler_step env cfg w')) = []" for w'
    by (cases "delete_crawler env (crawler_name cfg) w'")
       (simp add: delete_crawler_step_def split: option.splits)
  have c: "verdicts (snd (delete_database_step env cfg w')) = []" for w'
    by (cases "delete_database env (database_name cfg) w'")
       (simp add: delete_database_step_def split: option.splits)
  show ?thesis
    by (simp add: manual_resource_cleanup_def case_prod_beta a b c verdicts_delete_bucket_steps)
qed

lemma verdicts_delete_cloudformation_stack:
  "verdicts (snd (snd (delete_cloudformation_stack env cfg w))) = []"
proof (cases "describe_stacks env (stack_name cfg) w")
  case (Pair r w1)
  obtain r2 w2 where d: "delete_stack env (stack_name cfg) w1 = (r2, w2)"
    by (rule prod.exhaust)
  obtain r3 w3 where wt: "wait_stack_delete_complete env (stack_name cfg) 15 40 w2 = (r3, w3)"
    by (rule prod.exhaust)
  show ?thesis
    by (simp add: delete_cloudformation_stack_def Pair d wt
          split: sum.splits list.splits option.splits)
qed

lemma verdicts_destroy_stage: "verdicts (snd (destroy_stage env cfg stack_exists w)) = []"
  by (simp add: destroy_stage_def case_prod_beta Let_def verdicts_run_cdk_destroy
        verdicts_manual_resource_cleanup verdicts_delete_cloudformation_stack)

text \<open>\<open>run_cleanup\<close> in terms of its stages.\<close>

lemma run_cleanup_stages:
  assumes "get_stack_resources env init_config w = ((stack_exists, cfg), w1, e0)"
    and "clean_athena_workgroup env cfg w1 = (athena_success, w2, e1)"
    and "empty_s3_buckets env cfg w2 = (s3_success, w3, e2)"
    and "destroy_stage env cfg stack_exists w3 = (w4, e3)"
    and "verify_cleanup env cfg w4 = (cleanup_successful, w5, e4)"
  shows "fst (run_cleanup env w) = (if cleanup_successful then 0 else 1)"
    and "verdicts (snd (snd (run_cleanup env w))) =
           verdicts e0 @ verdicts e1 @ verdicts e2 @ verdicts e3 @ verdicts e4"
    and "calls (snd (snd (run_cleanup env w))) = calls e0 @ calls e1 @ calls e2 @ calls e3 @ calls e4"
  using assms by (simp_all add: run_cleanup_def)

lemma run_cleanup_verdicts:
  "\<exists>cfg w4. verdicts (snd (snd (run_cleanup env w))) = verdicts (snd (snd (verify_cleanup env cfg w4)))
          \<and> fst (run_cleanup env w) = (if fst (verify_cleanup env cfg w4) then 0 else 1)"
proof -
  obtain stack_exists cfg w1 e0 where
    a: "get_stack_resources env init_config w = ((stack_exists, cfg), w1, e0)"
    by (metis prod.exhaust)
  obtain athena_success w2 e1 where b: "clean_athena_workgroup env cfg w1 = (athena_success, w2, e1)"
    by (rule prod_cases3)
  obtain s3_success w3 e2 where c: "empty_s3_buckets env cfg w2 = (s3_success, w3, e2)"
    by (rule prod_cases3)
  obtain w4 e3 where d: "destroy_stage env cfg stack_exists w3 = (w4, e3)"
    by (rule prod.exhaust)
  obtain cleanup_successful w5 e4 where e: "verify_cleanup env cfg w4 = (cleanup_successful, w5, e4)"
    by (rule prod_cases3)
  have "verdicts e0 = []"
    using verdicts_get_stack_resources [of env init_config w] by (simp add: a)
  moreover have "verdicts e1 = []"
    using verdicts_clean_athena_workgroup [of env cfg w1] by (simp add: b)
  moreover have "verdicts e2 = []"
    using verdicts_empty_s3_buckets [of env cfg w2] by (simp add: c)
  moreover have "verdicts e3 = []"
    using verdicts_destroy_stage [of env cfg stack_exists w3] by (simp add: d)
  ultimately have "verdicts (snd (snd (run_cleanup env w))) = verdicts e4"
    by (simp add: run_cleanup_stages(2) [OF a b c d e])
  moreover have "fst (run_cleanup env w) = (if cleanup_successful then 0 else 1)"
    by (rule run_cleanup_stages(1) [OF a b c d e])
  ultimately have "verdicts (snd (snd (run_cleanup env w))) = verdicts (snd (snd (verify_cleanup env cfg w4)))
          \<and> fst (run_cleanup env w) = (if fst (verify_cleanup env cfg w4) then 0 else 1)"
    by (simp add: e)
  then show ?thesis
    by blast
qed



section \<open>The destroy stage and its fallback\<close>

lemma printed_simps [simp]:
  "printed m [] = 0"
  "printed m (Call c # evs) = printed m evs"
  "printed m (Sleep n # evs) = printed m evs"
  "printed m (Print m' # evs) = (if m' = m then 1 else 0) + printed m evs"
  by (simp_all add: printed_def)

lemma printed_append [simp]: "printed m (evs @ evs') = printed m evs + printed m evs'"
  by (simp add: printed_def)

lemma run_cdk_destroy_trace:
  "calls (snd (snd (run_cdk_destroy env w))) = [CdkDestroy]"
  "printed (Step 4) (snd (snd (run_cdk_destroy env w))) = 0"
  "printed (Step 5) (snd (snd (run_cdk_destroy env w))) = 0"
  by (cases "cdk_destroy env w"; simp add: run_cdk_destroy_def split: sum.splits prod.splits)+

lemma delete_bucket_steps_trace:
  "calls (snd (delete_bucket_steps env bs w)) = map DeleteBucket bs
   \<and> printed (Step n) (snd (delete_bucket_steps env bs w)) = 0"
proof (induction bs arbitrary: w)
  case Nil
  then show ?case by simp
next
  case (Cons b bs)
  have "calls (snd (delete_bucket_step env b w)) = [DeleteBucket b]
      \<and> printed (Step n) (snd (delete_bucket_step env b w)) = 0"
    by (cases "delete_bucket env b w") (simp add: delete_bucket_step_def split: option.splits)
  with Cons show ?case
    by (simp add: case_prod_beta)
qed

lemma manual_resource_cleanup_trace:
  "calls (snd (manual_resource_cleanup env cfg w)) =
     DeleteFunction (lambda_function_name cfg) # DeleteCrawler (crawler_name cfg)
     # DeleteDatabase (database_name cfg) # map DeleteBucket (configured_buckets cfg)"
  "printed (Step 4) (snd (manual_resource_cleanup env cfg w)) = 1"
  "printed (Step 5) (snd (manual_resource_cleanup env cfg w)) = 0"
proof -
  have a: "calls (snd (delete_function_step env cfg w')) = [DeleteFunction (lambda_function_name cfg)]
      \<and> printed (Step n) (snd (delete_function_step env cfg w')) = 0" for w' n
    by (cases "delete_function env (lambda_function_name cfg) w'")
       (simp add: delete_function_step_def split: option.splits)
  have b: "calls (snd (delete_crawler_step env cfg w')) = [DeleteCrawler (crawler_name cfg)]
      \<and> printed (Step n) (snd (delete_crawler_step env cfg w')) = 0" for w' n
    by (cases "delete_crawler env (crawler_name cfg) w'")
       (simp add: delete_crawler_step_def split: option.splits)
  have c: "calls (snd (delete_database_step env cfg w')) = [DeleteDatabase (database_name cfg)]
      \<and> printed (Step n) (snd (delete_database_step env cfg w')) = 0" for w' n
    by (cases "delete_database env (database_name cfg) w'")
       (simp add: delete_database_step_def split: option.splits)
  show "calls (snd (manual_resource_cleanup env cfg w)) =
     DeleteFunction (lambda_function_name cfg) # DeleteCrawler (crawler_name cfg)
     # DeleteDatabase (database_name cfg) # map DeleteBucket (configured_buckets cfg)"
    by (simp add: manual_resource_cleanup_def case_prod_beta a b c delete_bucket_steps_trace)
  show "printed (Step 4) (snd (manual_resource_cleanup env cfg w)) = 1"
    by (simp add: manual_resource_cleanup_def case_prod_beta a b c delete_bucket_steps_trace)
  show "printed (Step 5) (snd (manual_resource_cleanup env cfg w)) = 0"
    by (simp add: manual_resource_cleanup_def case_prod_beta a b c delete_bucket_steps_trace)
qed

lemma delete_cloudformation_stack_trace:
  "calls (snd (snd (delete_cloudformation_stack env cfg w))) =
     DescribeStacks (stack_name cfg)
     # (case fst (describe_stacks env (stack_name cfg) w) of
          Inl e \<Rightarrow> []
        | Inr [] \<Rightarrow> []
        | Inr (st # sts) \<Rightarrow>
            DeleteStack (stack_name cfg)
            # (case fst (delete_stack env (stack_name cfg)
                          (snd (describe_stacks env (stack_name cfg) w))) of
                 Some e \<Rightarrow> []
               | None \<Rightarrow> [WaitStackDeleteComplete (stack_name cfg) 15 40]))"
  "printed (Step 4) (snd (snd (delete_cloudformation_stack env cfg w))) = 0"
  "printed (Step 5) (snd (snd (delete_cloudformation_stack env cfg w))) = 1"
proof -
  obtain r1 w1 where a: "describe_stacks env (stack_name cfg) w = (r1, w1)"
    by (rule prod.exhaust)
  obtain r2 w2 where b: "delete_stack env (stack_name cfg) w1 = (r2, w2)"
    by (rule prod.exhaust)
  obtain r3 w3 where c: "wait_stack_delete_complete env (stack_name cfg) 15 40 w2 = (r3, w3)"
    by (rule prod.exhaust)
  show "calls (snd (snd (delete_cloudformation_stack env cfg w))) =
     DescribeStacks (stack_name cfg)
     # (case fst (describe_stacks env (stack_name cfg) w) of
          Inl e \<Rightarrow> []
        | Inr [] \<Rightarrow> []
        | Inr (st # sts) \<Rightarrow>
            DeleteStack (stack_name cfg)
            # (case fst (delete_stack env (stack_name cfg)
                          (snd (describe_stacks env (stack_name cfg) w))) of
                 Some e \<Rightarrow> []
               | None \<Rightarrow> [WaitStackDeleteComplete (stack_name cfg) 15 40]))"
    by (simp add: delete_cloudformation_stack_def a b c
          split: sum.splits list.splits option.splits)
  show "printed (Step 4) (snd (snd (delete_cloudformation_stack env cfg w))) = 0"
    by (simp add: delete_cloudformation_stack_def a b c
          split: sum.splits list.splits option.splits)
  show "printed (Step 5) (snd (snd (delete_cloudformation_stack env cfg w))) = 1"
    by (simp add: delete_cloudformation_stack_def a b c
          split: sum.splits list.splits option.splits)
qed

text \<open>The account after the destroy, and after the four manual steps.\<close>

lemma run_cdk_destroy_result:
  "fst (run_cdk_destroy env w) = (\<exists>stderr. fst (cdk_destroy env w) = Inr (0, stderr))"
  "fst (snd (run_cdk_destroy env w)) = snd (cdk_destroy env w)"
  by (cases "cdk_destroy env w"; simp add: run_cdk_destroy_def split: sum.splits prod.splits)+

lemma delete_bucket_steps_world:
  "fst (delete_bucket_steps env bs w) = foldl (\<lambda>w' b. snd (delete_bucket env b w')) w bs"
proof (induction bs arbitrary: w)
  case Nil
  then show ?case by simp
next
  case (Cons b bs)
  have "fst (delete_bucket_step env b w) = snd (delete_bucket env b w)"
    by (cases "delete_bucket env b w") (simp add: delete_bucket_step_def split: option.splits)
  with Cons show ?case
    by (simp add: case_prod_beta)
qed

lemma manual_resource_cleanup_world:
  "fst (manual_resource_cleanup env cfg w) =
     foldl (\<lambda>w' b. snd (delete_bucket env b w'))
       (snd (delete_database env (database_name cfg)
          (snd (delete_crawler env (crawler_name cfg)
             (snd (delete_function env (lambda_function_name cfg) w))))))
       (configured_buckets cfg)"
proof -
  have a: "fst (delete_function_step env cfg w') =
      snd (delete_function env (lambda_function_name cfg) w')" for w'
    by (cases "delete_function env (lambda_function_name cfg) w'")
       (simp add: delete_function_step_def split: option.splits)
  have b: "fst (delete_crawler_step env cfg w') = snd (delete_crawler env (crawler_name cfg) w')"
    for w'
    by (cases "delete_crawler env (crawler_name cfg) w'")
       (simp add: delete_crawler_step_def split: option.splits)
  have c: "fst (delete_database_step env cfg w') =
      snd (delete_database env (database_name cfg) w')" for w'
    by (cases "delete_database env (database_name cfg) w'")
       (simp add: delete_database_step_def split: option.splits)
  show ?thesis
    by (simp add: manual_resource_cleanup_def case_prod_beta a b c delete_bucket_steps_world)
qed

lemma destroy_stage_failed:
  assumes "\<not> fst (run_cdk_destroy env w)"
  shows "calls (snd (destroy_stage env cfg True w)) =
           [CdkDestroy, DeleteFunction (lambda_function_name cfg),
            DeleteCrawler (crawler_name cfg), DeleteDatabase (database_name cfg)]
           @ map DeleteBucket (configured_buckets cfg)
           @ calls (snd (snd (delete_cloudformation_stack env cfg
                (fst (manual_resource_cleanup env cfg (snd (cdk_destroy env w)))))))"
    and "printed (Step 4) (snd (destroy_stage env cfg True w)) = 1"
    and "printed (Step 5) (snd (destroy_stage env cfg True w)) = 1"
proof -
  obtain r1 w1 e1 where a: "run_cdk_destroy env w = (r1, w1, e1)"
    by (rule prod_cases3)
  obtain w2 e2 where b: "manual_resource_cleanup env cfg w1 = (w2, e2)"
    by (rule prod.exhaust)
  obtain r3 w3 e3 where c: "delete_cloudformation_stack env cfg w2 = (r3, w3, e3)"
    by (rule prod_cases3)
  have r1: "\<not> r1"
    using assms by (simp add: a)
  have w1: "snd (cdk_destroy env w) = w1"
    using run_cdk_destroy_result(2) [of env w] by (simp add: a)
  have ds: "snd (destroy_stage env cfg True w) =
      e1 @ Print (Run CdkFailedAttemptingManual) # e2 @ e3"
    by (simp add: destroy_stage_def a b c r1)
  have e1: "calls e1 = [CdkDestroy]" "printed (Step 4) e1 = 0" "printed (Step 5) e1 = 0"
    using run_cdk_destroy_trace [of env w] by (simp_all add: a)
  have e2: "calls e2 = DeleteFunction (lambda_function_name cfg) # DeleteCrawler (crawler_name cfg)
     # DeleteDatabase (database_name cfg) # map DeleteBucket (configured_buckets cfg)"
    "printed (Step 4) e2 = 1" "printed (Step 5) e2 = 0"
    using manual_resource_cleanup_trace [of env cfg w1] by (simp_all add: b)
  have e3: "printed (Step 4) e3 = 0" "printed (Step 5) e3 = 1"
    using delete_cloudformation_stack_trace(2,3) [of env cfg w2] by (simp_all add: c)
  show "calls (snd (destroy_stage env cfg True w)) =
           [CdkDestroy, DeleteFunction (lambda_function_name cfg),
            DeleteCrawler (crawler_name cfg), DeleteDatabase (database_name cfg)]
           @ map DeleteBucket (configured_buckets cfg)
           @ calls (snd (snd (delete_cloudformation_stack env cfg
                (fst (manual_resource_cleanup env cfg (snd (cdk_destroy env w)))))))"
    by (simp add: ds e1 e2 w1 b c)
  show "printed (Step 4) (snd (destroy_stage env cfg True w)) = 1"
    by (simp add: ds e1 e2 e3)
  show "printed (Step 5) (snd (destroy_stage env cfg True w)) = 1"
    by (simp add: ds e1 e2 e3)
qed

lemma destroy_stage_succeeded:
  assumes "fst (run_cdk_destroy env w)"
  shows "calls (snd (destroy_stage env cfg True w)) = [CdkDestroy]"
    and "printed (Step 4) (snd (destroy_stage env cfg True w)) = 0"
    and "printed (Step 5) (snd (destroy_stage env cfg True w)) = 0"
proof -
  obtain r1 w1 e1 where a: "run_cdk_destroy env w = (r1, w1, e1)"
    by (rule prod_cases3)
  have ds: "snd (destroy_stage env cfg True w) = e1"
    using assms by (simp add: destroy_stage_def a)
  show "calls (snd (destroy_stage env cfg True w)) = [CdkDestroy]"
    and "printed (Step 4) (snd (destroy_stage env cfg True w)) = 0"
    and "printed (Step 5) (snd (destroy_stage env cfg True w)) = 0"
    using run_cdk_destroy_trace [of env w] by (simp_all add: ds a)
qed

lemma destroy_stage_no_stack:
  "calls (snd (destroy_stage env cfg False w)) =
     DeleteFunction (lambda_function_name cfg) # DeleteCrawler (crawler_name cfg)
     # DeleteDatabase (database_name cfg) # map DeleteBucket (configured_buckets cfg)"
  using manual_resource_cleanup_trace(1) [of env cfg w]
  by (simp add: destroy_stage_def case_prod_beta)

text \<open>
  Claim C2. \<open>run_cdk_destroy\<close> returns \<open>True\<close> exactly when the \<open>cdk destroy\<close> process
  exits with code 0. In the destroy stage of \<open>run_cleanup\<close> with the stack found (lines 374
  to 384), when it returns \<open>False\<close> the remote calls are, in this order and whatever each of
  them answers: the destroy itself, \<open>delete_function\<close>, \<open>delete_crawler\<close>, \<open>delete_database\<close>,
  one \<open>delete_bucket\<close> for each configured bucket, then those of
  \<open>delete_cloudformation_stack\<close>: its \<open>describe_stacks\<close>, followed, when that call lists a
  stack, by \<open>delete_stack\<close> and, unless \<open>delete_stack\<close> raises, by the wait for the deletion.
  The headings of step 4 and of step 5 are printed once each. When \<open>run_cdk_destroy\<close> returns
  \<open>True\<close> the destroy is the only call and neither heading is printed. With no stack found
  (line 387) the four manual steps are the only calls.
\<close>

theorem fallback_chain:
  "(let w1 = snd (cdk_destroy env w);
        w2 = foldl (\<lambda>w' b. snd (delete_bucket env b w'))
               (snd (delete_database env (database_name cfg)
                  (snd (delete_crawler env (crawler_name cfg)
                     (snd (delete_function env (lambda_function_name cfg) w1))))))
               (configured_buckets cfg);
        w3 = snd (describe_stacks env (stack_name cfg) w2)
    in fst (run_cdk_destroy env w) = (\<exists>stderr. fst (cdk_destroy env w) = Inr (0, stderr))
       \<and> (\<not> fst (run_cdk_destroy env w) \<longrightarrow>
            calls (snd (destroy_stage env cfg True w)) =
              [CdkDestroy, DeleteFunction (lambda_function_name cfg),
               DeleteCrawler (crawler_name cfg), DeleteDatabase (database_name cfg)]
              @ map DeleteBucket (configured_buckets cfg)
              @ DescribeStacks (stack_name cfg)
                # (case fst (describe_stacks env (stack_name cfg) w2) of
                     Inl e \<Rightarrow> []
                   | Inr [] \<Rightarrow> []
                   | Inr (st # sts) \<Rightarrow>
                       DeleteStack (stack_name cfg)
                       # (case fst (delete_stack env (stack_name cfg) w3) of
                            Some e \<Rightarrow> []
                          | None \<Rightarrow> [WaitStackDeleteComplete (stack_name cfg) 15 40]))
            \<and> printed (Step 4) (snd (destroy_stage env cfg True w)) = 1
            \<and> printed (Step 5) (snd (destroy_stage env cfg True w)) = 1)
       \<and> (fst (run_cdk_destroy env w) \<longrightarrow>
            calls (snd (destroy_stage env cfg True w)) = [CdkDestroy]
            \<and> printed (Step 4) (snd (destroy_stage env cfg True w)) = 0
            \<and> printed (Step 5) (snd (destroy_stage env cfg True w)) = 0)
       \<and> calls (snd (destroy_stage env cfg False w)) =
           DeleteFunction (lambda_function_name cfg) # DeleteCrawler (crawler_name cfg)
           # DeleteDatabase (database_name cfg) # map DeleteBucket (configured_buckets cfg))"
  unfolding Let_def
proof (intro conjI impI)
  show "fst (run_cdk_destroy env w) = (\<exists>stderr. fst (cdk_destroy env w) = Inr (0, stderr))"
    by (rule run_cdk_destroy_result(1))
  show "calls (snd (destroy_stage env cfg False w)) =
           DeleteFunction (lambda_function_name cfg) # DeleteCrawler (crawler_name cfg)
           # DeleteDatabase (database_name cfg) # map DeleteBucket (configured_buckets cfg)"
    by (rule destroy_stage_no_stack)
next
  assume failed: "\<not> fst (run_cdk_destroy env w)"
  show "calls (snd (destroy_stage env cfg True w)) =
      [CdkDestroy, DeleteFunction (lambda_function_name cfg),
       DeleteCrawler (crawler_name cfg), DeleteDatabase (database_name cfg)]
      @ map DeleteBucket (configured_buckets cfg)
      @ DescribeStacks (stack_name cfg)
        # (case fst (describe_stacks env (stack_name cfg)
                      (foldl (\<lambda>w' b. snd (delete_bucket env b w'))
                         (snd (delete_database env (database_name cfg)
                            (snd (delete_crawler env (crawler_name cfg)
                               (snd (delete_function env (lambda_function_name cfg)
                                  (snd (cdk_destroy env w))))))))
                         (configured_buckets cfg))) of
             Inl e \<Rightarrow> []
           | Inr [] \<Rightarrow> []
           | Inr (st # sts) \<Rightarrow>
               DeleteStack (stack_name cfg)
               # (case fst (delete_stack env (stack_name cfg)
                             (snd (describe_stacks env (stack_name cfg)
                                (foldl (\<lambda>w' b. snd (delete_bucket env b w'))
                                   (snd (delete_database env (database_name cfg)
                                      (snd (delete_crawler env (crawler_name cfg)
                                         (snd (delete_function env (lambda_function_name cfg)
                                            (snd (cdk_destroy env w))))))))
                                   (configured_buckets cfg))))) of
                    Some e \<Rightarrow> []
                  | None \<Rightarrow> [WaitStackDeleteComplete (stack_name cfg) 15 40]))"
    unfolding destroy_stage_failed(1) [OF failed] delete_cloudformation_stack_trace(1)
      manual_resource_cleanup_world
    by (rule refl)
  show "printed (Step 4) (snd (destroy_stage env cfg True w)) = 1"
    by (rule destroy_stage_failed(2) [OF failed])
  show "printed (Step 5) (snd (destroy_stage env cfg True w)) = 1"
    by (rule destroy_stage_failed(3) [OF failed])
next
  assume succeeded: "fst (run_cdk_destroy env w)"
  show "calls (snd (destroy_stage env cfg True w)) = [CdkDestroy]"
    by (rule destroy_stage_succeeded(1) [OF succeeded])
  show "printed (Step 4) (snd (destroy_stage env cfg True w)) = 0"
    by (rule destroy_stage_succeeded(2) [OF succeeded])
  show "printed (Step 5) (snd (destroy_stage env cfg True w)) = 0"
    by (rule destroy_stage_succeeded(3) [OF succeeded])
qed

theorem fallback_chain_witness:
  "calls (snd (destroy_stage deployed_aws deployed_config True 0)) =
     [CdkDestroy, DeleteFunction ''data-pipeline-data-extractor'',
      DeleteCrawler ''data-pipeline-crawler'', DeleteDatabase ''data_pipeline_db'',
      DeleteBucket ''data-pipeline-bucket-x'', DeleteBucket ''data-pipeline-results-x'',
      DescribeStacks ''DataPipelineStack'', DeleteStack ''DataPipelineStack'',
      WaitStackDeleteComplete ''DataPipelineStack'' 15 40]
   \<and> printed (Step 4) (snd (destroy_stage deployed_aws deployed_config True 0)) = 1
   \<and> printed (Step 5) (snd (destroy_stage deployed_aws deployed_config True 0)) = 1
   \<and> calls (snd (destroy_stage gone_aws init_config True 0)) = [CdkDestroy]
   \<and> printed (Step 4) (snd (destroy_stage gone_aws init_config True 0)) = 0
   \<and> printed (Step 5) (snd (destroy_stage gone_aws init_config True 0)) = 0"
proof -
  note env = deployed_aws_def gone_aws_def deployed_config_def init_config_def
    configured_buckets_def
  have a: "calls (snd (destroy_stage deployed_aws deployed_config True 0)) =
     [CdkDestroy, DeleteFunction ''data-pipeline-data-extractor'',
      DeleteCrawler ''data-pipeline-crawler'', DeleteDatabase ''data_pipeline_db'',
      DeleteBucket ''data-pipeline-bucket-x'', DeleteBucket ''data-pipeline-results-x'',
      DescribeStacks ''DataPipelineStack'', DeleteStack ''DataPipelineStack'',
      WaitStackDeleteComplete ''DataPipelineStack'' 15 40]
   \<and> printed (Step 4) (snd (destroy_stage deployed_aws deployed_config True 0)) = 1
   \<and> printed (Step 5) (snd (destroy_stage deployed_aws deployed_config True 0)) = 1"
    using fallback_chain [of deployed_aws 0 deployed_config]
    by (simp add: Let_def env)
  have b: "calls (snd (destroy_stage gone_aws init_config True 0)) = [CdkDestroy]
   \<and> printed (Step 4) (snd (destroy_stage gone_aws init_config True 0)) = 0
   \<and> printed (Step 5) (snd (destroy_stage gone_aws init_config True 0)) = 0"
    using fallback_chain [of gone_aws 0 init_config]
    by (simp add: Let_def env)
  from a b show ?thesis
    by blast
qed

section \<open>Emptying a bucket\<close>

lemma deleted_keys_simps [simp]:
  "deleted_keys [] = []"
  "deleted_keys (Print m # evs) = deleted_keys evs"
  "deleted_keys (Sleep n # evs) = deleted_keys evs"
  "deleted_keys (Call (DeleteObjects b ks) # evs) = ks @ deleted_keys evs"
  "deleted_keys (Call (ListObjectsV2 b) # evs) = deleted_keys evs"
  "deleted_keys (Call (HeadBucket b) # evs) = deleted_keys evs"
  by (simp_all add: deleted_keys_def)

lemma deleted_keys_append [simp]:
  "deleted_keys (evs @ evs') = deleted_keys evs @ deleted_keys evs'"
  by (simp add: deleted_keys_def)

lemma listed_keys_simps [simp]:
  "listed_keys [] = []"
  "listed_keys (None # pages) = listed_keys pages"
  "listed_keys (Some ks # pages) = ks @ listed_keys pages"
  by (simp_all add: listed_keys_def)

lemma nonempty_pages_simps [simp]:
  "nonempty_pages [] = []"
  "nonempty_pages (None # pages) = nonempty_pages pages"
  "nonempty_pages (Some ks # pages) = (if ks = [] then [] else [ks]) @ nonempty_pages pages"
  by (simp_all add: nonempty_pages_def)

text \<open>
  With every page fetched and no \<open>delete_objects\<close> call raising, the loop over the pages
  deletes each page that has keys with one call, and adds the number of its keys to the count.
\<close>

lemma delete_pages_listing:
  assumes ok: "\<And>ks w'. fst (delete_objects env b ks w') = None"
  shows "fst (delete_pages env b (map Inr pages) n w) = Inr (n + length (listed_keys pages))
       \<and> deleted_keys (snd (snd (delete_pages env b (map Inr pages) n w))) = listed_keys pages
       \<and> filter is_delete_objects (calls (snd (snd (delete_pages env b (map Inr pages) n w)))) =
           map (DeleteObjects b) (nonempty_pages pages)"
proof (induction pages arbitrary: n w)
  case Nil
  then show ?case by simp
next
  case (Cons p pages)
  show ?case
  proof (cases p)
    case None
    then show ?thesis
      using Cons [of n w] by (simp add: case_prod_beta)
  next
    case (Some ks)
    show ?thesis
    proof (cases "ks = []")
      case True
      then show ?thesis
        using Cons [of n w] Some by (simp add: case_prod_beta)
    next
      case False
      obtain r w1 where d: "delete_objects env b ks w = (r, w1)"
        by (rule prod.exhaust)
      have r: "r = None"
        using ok [of ks w] by (simp add: d)
      show ?thesis
        using Cons [of "n + length ks" w1] Some False
        by (simp add: case_prod_beta d r)
    qed
  qed
qed

text \<open>
  Claim C7. For a bucket that exists, whose listing is fetched page by page without an
  exception and whose \<open>delete_objects\<close> calls do not raise, the body of the loop of
  \<open>empty_s3_buckets\<close> passes to \<open>delete_objects\<close>, over the whole run, exactly the keys
  of all the pages in listing order, with one call for each page that has keys, and its last
  line reports as the count the total number of keys listed.
\<close>

theorem empty_bucket_deletes_every_page:
  assumes "fst (head_bucket env b w) = None"
    and "fst (paginate env b (snd (head_bucket env b w))) = map Inr pages"
    and "\<forall>ks w'. fst (delete_objects env b ks w') = None"
  shows "deleted_keys (snd (empty_bucket env b w)) = listed_keys pages
       \<and> filter is_delete_objects (calls (snd (empty_bucket env b w))) =
           map (DeleteObjects b) (nonempty_pages pages)
       \<and> last (snd (empty_bucket env b w)) =
           Print (Emptying (EmptiedBucket b (length (listed_keys pages))))"
proof -
  obtain r1 w1 where h: "head_bucket env b w = (r1, w1)"
    by (rule prod.exhaust)
  obtain ps w2 where p: "paginate env b w1 = (ps, w2)"
    by (rule prod.exhaust)
  obtain r3 w3 evs where d: "delete_pages env b (map Inr pages) 0 w2 = (r3, w3, evs)"
    by (rule prod_cases3)
  have r1: "r1 = None"
    using assms(1) by (simp add: h)
  have ps: "ps = map Inr pages"
    using assms(2) by (simp add: h p)
  have ok: "fst (delete_objects env b ks w') = None" for ks w'
    using assms(3) by simp
  note loop = delete_pages_listing [of env b pages 0 w2, OF ok]
  have r3: "r3 = Inr (length (listed_keys pages))"
    using loop by (simp add: d)
  have keys: "deleted_keys evs = listed_keys pages"
    using loop by (simp add: d)
  have batches: "filter is_delete_objects (calls evs) = map (DeleteObjects b) (nonempty_pages pages)"
    using loop by (simp add: d)
  have eb: "snd (empty_bucket env b w) =
      Call (HeadBucket b) # evs
      @ [Print (Emptying (EmptiedBucket b (length (listed_keys pages))))]"
    by (simp add: empty_bucket_def h r1 p ps d r3)
  show ?thesis
    by (simp add: eb keys batches)
qed

theorem empty_bucket_deletes_every_page_witness:
  "length (deleted_keys (snd (empty_bucket listing_aws ''data-pipeline-bucket-x'' 0))) = 1204
   \<and> length (filter is_delete_objects
               (calls (snd (empty_bucket listing_aws ''data-pipeline-bucket-x'' 0)))) = 3
   \<and> last (snd (empty_bucket listing_aws ''data-pipeline-bucket-x'' 0)) =
       Print (Emptying (EmptiedBucket ''data-pipeline-bucket-x'' 1204))"
proof -
  have total: "length (listed_keys three_pages) = 1204"
    by (simp add: three_pages_def)
  have pages: "length (nonempty_pages three_pages) = 3"
    by (simp add: three_pages_def)
  have "deleted_keys (snd (empty_bucket listing_aws ''data-pipeline-bucket-x'' 0)) =
          listed_keys three_pages
       \<and> filter is_delete_objects
           (calls (snd (empty_bucket listing_aws ''data-pipeline-bucket-x'' 0))) =
           map (DeleteObjects ''data-pipeline-bucket-x'') (nonempty_pages three_pages)
       \<and> last (snd (empty_bucket listing_aws ''data-pipeline-bucket-x'' 0)) =
           Print (Emptying (EmptiedBucket ''data-pipeline-bucket-x''
                    (length (listed_keys three_pages))))"
    by (rule empty_bucket_deletes_every_page) (simp_all add: listing_aws_def gone_aws_def)
  then show ?thesis
    by (simp add: total pages)
qed

section \<open>Resolving the resource names\<close>

lemma output_pairs_simps [simp]:
  "output_pairs [] = []"
  "output_complete output \<Longrightarrow>
     output_pairs (output # outputs) =
       (the (OutputKey output), the (OutputValue output)) # output_pairs outputs"
  by (auto simp: output_pairs_def output_complete_def)

lemma outputs_read_simps [simp]:
  "outputs_read [] = []"
  "output_complete output \<Longrightarrow>
     outputs_read (output # outputs) =
       (the (OutputKey output), the (OutputValue output)) # outputs_read outputs"
  "\<not> output_complete output \<Longrightarrow> outputs_read (output # outputs) = []"
  by (simp_all add: outputs_read_def)

text \<open>
  The loop over the stack outputs raises exactly when some output lacks its key or its value.
  It never touches four of the names; for the function name and the two bucket names the
  last output read with the matching key wins.
\<close>

lemma stack_outputs_raises:
  "(fst (stack_outputs cfg outputs) = None) = list_all output_complete outputs"
proof (induction outputs arbitrary: cfg)
  case Nil
  then show ?case by simp
next
  case (Cons out outputs)
  then show ?case
    by (simp add: output_complete_def split: option.splits)
qed

lemma stack_outputs_names:
  "stack_name (snd (stack_outputs cfg outputs)) = stack_name cfg
   \<and> workgroup_name (snd (stack_outputs cfg outputs)) = workgroup_name cfg
   \<and> database_name (snd (stack_outputs cfg outputs)) = database_name cfg
   \<and> crawler_name (snd (stack_outputs cfg outputs)) = crawler_name cfg"
proof (induction outputs arbitrary: cfg)
  case Nil
  then show ?case by simp
next
  case (Cons out outputs)
  then show ?case
    by (simp split: option.splits)
qed

lemma stack_outputs_step:
  assumes "OutputKey out = Some key" and "OutputValue out = Some v"
  shows "stack_outputs cfg (out # outputs) =
           stack_outputs
             (if key = ''DataBucketName'' then cfg\<lparr>data_bucket := Some v\<rparr>
              else if key = ''AthenaResultsBucketName'' then cfg\<lparr>results_bucket := Some v\<rparr>
              else if key = ''LambdaFunctionName'' then cfg\<lparr>lambda_function_name := v\<rparr>
              else cfg) outputs"
    and "outputs_read (out # outputs) = (key, v) # outputs_read outputs"
  using assms by (simp_all add: output_complete_def)

lemma stack_outputs_stop:
  assumes "\<not> output_complete out"
  shows "snd (stack_outputs cfg (out # outputs)) = cfg"
  using assms
  by (cases "OutputKey out"; cases "OutputValue out") (simp_all add: output_complete_def)

lemma stack_outputs_function:
  "lambda_function_name (snd (stack_outputs cfg outputs)) =
     (case map_of (rev (outputs_read outputs)) ''LambdaFunctionName'' of
        None \<Rightarrow> lambda_function_name cfg | Some v \<Rightarrow> v)"
proof (induction outputs arbitrary: cfg)
  case Nil
  then show ?case by simp
next
  case (Cons out outputs)
  show ?case
  proof (cases "output_complete out")
    case False
    show ?thesis
      unfolding stack_outputs_stop [OF False] using False by simp
  next
    case True
    then obtain key v where kv: "OutputKey out = Some key" "OutputValue out = Some v"
      by (auto simp: output_complete_def)
    show ?thesis
      unfolding stack_outputs_step [OF kv] Cons.IH
      by (cases "map_of (rev (outputs_read outputs)) ''LambdaFunctionName''")
         (auto simp: map_add_def)
  qed
qed

lemma stack_outputs_data_bucket:
  "data_bucket (snd (stack_outputs cfg outputs)) =
     (case map_of (rev (outputs_read outputs)) ''DataBucketName'' of
        None \<Rightarrow> data_bucket cfg | Some v \<Rightarrow> Some v)"
proof (induction outputs arbitrary: cfg)
  case Nil
  then show ?case by simp
next
  case (Cons out outputs)
  show ?case
  proof (cases "output_complete out")
    case False
    show ?thesis
      unfolding stack_outputs_stop [OF False] using False by simp
  next
    case True
    then obtain key v where kv: "OutputKey out = Some key" "OutputValue out = Some v"
      by (auto simp: output_complete_def)
    show ?thesis
      unfolding stack_outputs_step [OF kv] Cons.IH
      by (cases "map_of (rev (outputs_read outputs)) ''DataBucketName''")
         (auto simp: map_add_def)
  qed
qed

lemma stack_outputs_results_bucket:
  "results_bucket (snd (stack_outputs cfg outputs)) =
     (case map_of (rev (outputs_read outputs)) ''AthenaResultsBucketName'' of
        None \<Rightarrow> results_bucket cfg | Some v \<Rightarrow> Some v)"
proof (induction outputs arbitrary: cfg)
  case Nil
  then show ?case by simp
next
  case (Cons out outputs)
  show ?case
  proof (cases "output_complete out")
    case False
    show ?thesis
      unfolding stack_outputs_stop [OF False] using False by simp
  next
    case True
    then obtain key v where kv: "OutputKey out = Some key" "OutputValue out = Some v"
      by (auto simp: output_complete_def)
    show ?thesis
      unfolding stack_outputs_step [OF kv] Cons.IH
      by (cases "map_of (rev (outputs_read outputs)) ''AthenaResultsBucketName''")
         (auto simp: map_add_def)
  qed
qed

lemma get_stack_resources_names:
  "stack_name (snd (fst (get_stack_resources env cfg w))) = stack_name cfg
   \<and> workgroup_name (snd (fst (get_stack_resources env cfg w))) = workgroup_name cfg
   \<and> database_name (snd (fst (get_stack_resources env cfg w))) = database_name cfg
   \<and> crawler_name (snd (fst (get_stack_resources env cfg w))) = crawler_name cfg"
proof (cases "describe_stacks env (stack_name cfg) w")
  case (Pair r w1)
  show ?thesis
  proof (cases r)
    case (Inl e)
    then show ?thesis by (simp add: get_stack_resources_def Pair)
  next
    case (Inr stacks)
    show ?thesis
    proof (cases stacks)
      case Nil
      then show ?thesis by (simp add: get_stack_resources_def Pair Inr)
    next
      case (Cons st sts)
      obtain r2 cfg2 where so:
        "stack_outputs cfg (case Outputs st of None \<Rightarrow> [] | Some outputs \<Rightarrow> outputs) = (r2, cfg2)"
        by (rule prod.exhaust)
      have "stack_name cfg2 = stack_name cfg \<and> workgroup_name cfg2 = workgroup_name cfg
          \<and> database_name cfg2 = database_name cfg \<and> crawler_name cfg2 = crawler_name cfg"
        using stack_outputs_names
          [of cfg "case Outputs st of None \<Rightarrow> [] | Some outputs \<Rightarrow> outputs"]
        by (simp add: so)
      then show ?thesis
        by (simp add: get_stack_resources_def Pair Inr Cons so split: option.splits)
    qed
  qed
qed

lemma get_stack_resources_unresolved:
  assumes "(\<exists>e. fst (describe_stacks env (stack_name cfg) w) = Inl e)
         \<or> fst (describe_stacks env (stack_name cfg) w) = Inr []
         \<or> (\<exists>st sts. fst (describe_stacks env (stack_name cfg) w) = Inr (st # sts)
                   \<and> sublist ''DELETE'' (StackStatus st))"
  shows "fst (get_stack_resources env cfg w) = (False, cfg)"
  using assms
  by (cases "describe_stacks env (stack_name cfg) w") (auto simp: get_stack_resources_def)

lemma get_stack_resources_resolved:
  assumes "fst (describe_stacks env (stack_name cfg) w) = Inr (st # sts)"
    and "\<not> sublist ''DELETE'' (StackStatus st)"
  shows "fst (fst (get_stack_resources env cfg w)) = list_all output_complete (outputs_of st)"
    and "snd (fst (get_stack_resources env cfg w)) = snd (stack_outputs cfg (outputs_of st))"
    and "(Print (Resolving WillUseDefaultNames) \<in> set (snd (snd (get_stack_resources env cfg w))))
           = (\<not> list_all output_complete (outputs_of st))"
proof -
  obtain w1 where d: "describe_stacks env (stack_name cfg) w = (Inr (st # sts), w1)"
    using assms(1) by (cases "describe_stacks env (stack_name cfg) w") simp
  obtain r2 cfg2 where so: "stack_outputs cfg (outputs_of st) = (r2, cfg2)"
    by (rule prod.exhaust)
  have r2: "(r2 = None) = list_all output_complete (outputs_of st)"
    using stack_outputs_raises [of cfg "outputs_of st"] by (simp add: so)
  have so': "stack_outputs cfg (case Outputs st of None \<Rightarrow> [] | Some outputs \<Rightarrow> outputs) = (r2, cfg2)"
    using so by (simp add: outputs_of_def)
  show "fst (fst (get_stack_resources env cfg w)) = list_all output_complete (outputs_of st)"
    using r2 assms(2) by (cases r2) (simp_all add: get_stack_resources_def d so')
  show "snd (fst (get_stack_resources env cfg w)) = snd (stack_outputs cfg (outputs_of st))"
    using assms(2) by (cases r2) (simp_all add: get_stack_resources_def d so' so)
  show "(Print (Resolving WillUseDefaultNames) \<in> set (snd (snd (get_stack_resources env cfg w))))
           = (\<not> list_all output_complete (outputs_of st))"
    using r2 assms(2) by (cases r2) (simp_all add: get_stack_resources_def d so')
qed

lemma get_stack_resources_warning:
  "(Print (Resolving WillUseDefaultNames) \<in> set (snd (snd (get_stack_resources env cfg w)))) =
     ((\<exists>e. fst (describe_stacks env (stack_name cfg) w) = Inl e)
      \<or> (\<exists>st sts. fst (describe_stacks env (stack_name cfg) w) = Inr (st # sts)
                \<and> \<not> sublist ''DELETE'' (StackStatus st)
                \<and> \<not> list_all output_complete (outputs_of st)))"
proof (cases "describe_stacks env (stack_name cfg) w")
  case (Pair r w1)
  show ?thesis
  proof (cases r)
    case (Inl e)
    then show ?thesis by (simp add: get_stack_resources_def Pair)
  next
    case (Inr stacks)
    show ?thesis
    proof (cases stacks)
      case Nil
      then show ?thesis by (simp add: get_stack_resources_def Pair Inr)
    next
      case (Cons st sts)
      show ?thesis
      proof (cases "sublist ''DELETE'' (StackStatus st)")
        case True
        then show ?thesis by (simp add: get_stack_resources_def Pair Inr Cons)
      next
        case False
        have d: "fst (describe_stacks env (stack_name cfg) w) = Inr (st # sts)"
          by (simp add: Pair Inr Cons)
        show ?thesis
          using get_stack_resources_resolved(3) [OF d False] False by (simp add: d)
      qed
    qed
  qed
qed

text \<open>The tester's \<open>get_stack_outputs\<close>.\<close>

lemma tester_outputs_raises:
  "(\<exists>config'. tester_outputs config outputs = Inr config') = list_all output_complete outputs"
proof (induction outputs arbitrary: config)
  case Nil
  then show ?case by simp
next
  case (Cons out outputs)
  then show ?case
    by (simp add: output_complete_def split: option.splits)
qed

lemma tester_outputs_defaults:
  assumes "tester_outputs config outputs = Inr config'" and "config k = Some v"
    and "k \<noteq> ''lambda_function_name''" and "k \<noteq> ''data_bucket_name''"
    and "k \<noteq> ''athena_results_bucket_name''"
  shows "config' k = Some v"
  using assms
proof (induction outputs arbitrary: config)
  case Nil
  then show ?case by simp
next
  case (Cons out outputs)
  from Cons.prems(1) obtain key v' where kv: "OutputKey out = Some key" "OutputValue out = Some v'"
    by (auto split: option.splits)
  show ?case
    using Cons.prems
    by (intro Cons.IH [of "if key = ''LambdaFunctionName'' then config(''lambda_function_name'' \<mapsto> v')
                  else if key = ''DataBucketName'' then config(''data_bucket_name'' \<mapsto> v')
                  else if key = ''AthenaResultsBucketName''
                    then config(''athena_results_bucket_name'' \<mapsto> v')
                  else config"]) (simp_all add: kv)
qed

lemma get_stack_outputs_none:
  "(fst (get_stack_outputs client r) = None) =
     (client \<noteq> None \<or> (\<exists>e. r = Inl e) \<or> r = Inr []
      \<or> (\<exists>st sts. r = Inr (st # sts)
                \<and> (Outputs st = None \<or> \<not> list_all output_complete (outputs_of st))))"
proof (cases client)
  case (Some e)
  then show ?thesis by (simp add: get_stack_outputs_def)
next
  case None
  show ?thesis
  proof (cases r)
    case (Inl e)
    then show ?thesis by (simp add: get_stack_outputs_def None)
  next
    case (Inr stacks)
    show ?thesis
    proof (cases stacks)
      case Nil
      then show ?thesis by (simp add: get_stack_outputs_def None Inr)
    next
      case (Cons st sts)
      show ?thesis
      proof (cases "Outputs st")
        case None': None
        then show ?thesis by (simp add: get_stack_outputs_def None Inr Cons)
      next
        case (Some outputs)
        show ?thesis
          using tester_outputs_raises [of tester_defaults outputs]
          by (cases "tester_outputs tester_defaults outputs")
             (auto simp: get_stack_outputs_def None Inr Cons Some outputs_of_def)
      qed
    qed
  qed
qed

lemma get_stack_outputs_error:
  assumes "fst (get_stack_outputs client r) = None"
  shows "\<exists>m. snd (get_stack_outputs client r) =
           (if client = None then [Call (DescribeStacks ''DataPipelineStack'')] else [])
           @ [Print (StackOutputsError m), Print StackOutputsHint]"
  using assms
  by (auto simp: get_stack_outputs_def Let_def split: sum.splits list.splits option.splits)

lemma get_stack_outputs_defaults:
  assumes "fst (get_stack_outputs client r) = Some config"
  shows "config ''glue_database_name'' = Some ''data_pipeline_db''"
    and "config ''glue_crawler_name'' = Some ''data-pipeline-crawler''"
    and "config ''athena_workgroup'' = Some ''data-pipeline-workgroup''"
proof -
  obtain outputs where c: "tester_outputs tester_defaults outputs = Inr config"
    using assms
    by (auto simp add: get_stack_outputs_def Let_def split: sum.splits list.splits option.splits)
  show "config ''glue_database_name'' = Some ''data_pipeline_db''"
    by (rule tester_outputs_defaults [OF c]) (simp_all add: tester_defaults_def)
  show "config ''glue_crawler_name'' = Some ''data-pipeline-crawler''"
    by (rule tester_outputs_defaults [OF c]) (simp_all add: tester_defaults_def)
  show "config ''athena_workgroup'' = Some ''data-pipeline-workgroup''"
    by (rule tester_outputs_defaults [OF c]) (simp_all add: tester_defaults_def)
qed

text \<open>
  Claim C9, as stated, fails on the tester's \<open>get_stack_outputs\<close>: when the
  \<open>describe_stacks\<close> call raises, it prints an error and returns \<open>None\<close>, not a
  configuration filled from the defaults.
\<close>

theorem resolution_without_record_counterexample:
  "get_stack_outputs None
      (Inl (Exn ClientError ''Stack with id DataPipelineStack does not exist'')) =
     (None, [Call (DescribeStacks ''DataPipelineStack''),
             Print (StackOutputsError ''Stack with id DataPipelineStack does not exist''),
             Print StackOutputsHint])"
  by (simp add: get_stack_outputs_def)

text \<open>
  Claim C9, amended. \<open>get_stack_resources\<close> of the cleanup returns for every outcome of
  \<open>describe_stacks\<close>, and never changes the stack, work group, database and crawler names.
  When \<open>describe_stacks\<close> raises, lists no stack, or the stack is being deleted, it returns
  \<open>False\<close> with the configuration it started with, which has no bucket name. For a stack
  that is not being deleted it reads the outputs in order up to the first one that lacks its
  key or its value: it returns \<open>True\<close> exactly when there is no such output, and in either
  case the returned configuration has the function name and the two bucket names of the last
  output read with the matching key, keeping what the configuration had where there is none.
  The will-use-defaults warning is printed exactly when \<open>describe_stacks\<close> raised or an output
  lacked its key or its value. \<open>get_stack_outputs\<close> of the tester returns \<open>None\<close> exactly when
  creating the client raises, \<open>describe_stacks\<close> raises or lists no stack, the first stack has
  no \<open>Outputs\<close>, or one of its outputs lacks its key or its value; it has then printed the
  error line and the hint, after the \<open>describe_stacks\<close> call unless it was the client that
  raised. A configuration it returns has the three default names.
\<close>

theorem resource_resolution:
  "stack_name (snd (fst (get_stack_resources env cfg w))) = stack_name cfg
   \<and> workgroup_name (snd (fst (get_stack_resources env cfg w))) = workgroup_name cfg
   \<and> database_name (snd (fst (get_stack_resources env cfg w))) = database_name cfg
   \<and> crawler_name (snd (fst (get_stack_resources env cfg w))) = crawler_name cfg
   \<and> ((\<exists>e. fst (describe_stacks env (stack_name cfg) w) = Inl e)
        \<or> fst (describe_stacks env (stack_name cfg) w) = Inr []
        \<or> (\<exists>st sts. fst (describe_stacks env (stack_name cfg) w) = Inr (st # sts)
                  \<and> sublist ''DELETE'' (StackStatus st))
        \<longrightarrow> fst (get_stack_resources env cfg w) = (False, cfg))
   \<and> (\<forall>st sts. fst (describe_stacks env (stack_name cfg) w) = Inr (st # sts)
         \<longrightarrow> \<not> sublist ''DELETE'' (StackStatus st)
         \<longrightarrow> fst (fst (get_stack_resources env cfg w)) =
               list_all output_complete (outputs_of st)
             \<and> lambda_function_name (snd (fst (get_stack_resources env cfg w))) =
                 (case map_of (rev (outputs_read (outputs_of st))) ''LambdaFunctionName'' of
                    None \<Rightarrow> lambda_function_name cfg | Some v \<Rightarrow> v)
             \<and> data_bucket (snd (fst (get_stack_resources env cfg w))) =
                 (case map_of (rev (outputs_read (outputs_of st))) ''DataBucketName'' of
                    None \<Rightarrow> data_bucket cfg | Some v \<Rightarrow> Some v)
             \<and> results_bucket (snd (fst (get_stack_resources env cfg w))) =
                 (case map_of (rev (outputs_read (outputs_of st))) ''AthenaResultsBucketName'' of
                    None \<Rightarrow> results_bucket cfg | Some v \<Rightarrow> Some v))
   \<and> ((Print (Resolving WillUseDefaultNames) \<in> set (snd (snd (get_stack_resources env cfg w)))) =
        ((\<exists>e. fst (describe_stacks env (stack_name cfg) w) = Inl e)
         \<or> (\<exists>st sts. fst (describe_stacks env (stack_name cfg) w) = Inr (st # sts)
                   \<and> \<not> sublist ''DELETE'' (StackStatus st)
                   \<and> \<not> list_all output_complete (outputs_of st))))
   \<and> ((fst (get_stack_outputs client r) = None) =
        (client \<noteq> None \<or> (\<exists>e. r = Inl e) \<or> r = Inr []
         \<or> (\<exists>st sts. r = Inr (st # sts)
                   \<and> (Outputs st = None \<or> \<not> list_all output_complete (outputs_of st)))))
   \<and> (fst (get_stack_outputs client r) = None
        \<longrightarrow> (\<exists>m. snd (get_stack_outputs client r) =
                   (if client = None then [Call (DescribeStacks ''DataPipelineStack'')] else [])
                   @ [Print (StackOutputsError m), Print StackOutputsHint]))
   \<and> (\<forall>config. fst (get_stack_outputs client r) = Some config
         \<longrightarrow> config ''glue_database_name'' = Some ''data_pipeline_db''
             \<and> config ''glue_crawler_name'' = Some ''data-pipeline-crawler''
             \<and> config ''athena_workgroup'' = Some ''data-pipeline-workgroup'')"
proof -
  note names = get_stack_resources_names [of env cfg w]
  note n1 = names [THEN conjunct1]
  note n2 = names [THEN conjunct2, THEN conjunct1]
  note n3 = names [THEN conjunct2, THEN conjunct2, THEN conjunct1]
  note n4 = names [THEN conjunct2, THEN conjunct2, THEN conjunct2]
  have unresolved: "(\<exists>e. fst (describe_stacks env (stack_name cfg) w) = Inl e)
        \<or> fst (describe_stacks env (stack_name cfg) w) = Inr []
        \<or> (\<exists>st sts. fst (describe_stacks env (stack_name cfg) w) = Inr (st # sts)
                  \<and> sublist ''DELETE'' (StackStatus st))
        \<longrightarrow> fst (get_stack_resources env cfg w) = (False, cfg)"
    using get_stack_resources_unresolved [of env cfg w] by (rule impI)
  have resolved: "\<forall>st sts. fst (describe_stacks env (stack_name cfg) w) = Inr (st # sts)
         \<longrightarrow> \<not> sublist ''DELETE'' (StackStatus st)
         \<longrightarrow> fst (fst (get_stack_resources env cfg w)) =
               list_all output_complete (outputs_of st)
             \<and> lambda_function_name (snd (fst (get_stack_resources env cfg w))) =
                 (case map_of (rev (outputs_read (outputs_of st))) ''LambdaFunctionName'' of
                    None \<Rightarrow> lambda_function_name cfg | Some v \<Rightarrow> v)
             \<and> data_bucket (snd (fst (get_stack_resources env cfg w))) =
                 (case map_of (rev (outputs_read (outputs_of st))) ''DataBucketName'' of
                    None \<Rightarrow> data_bucket cfg | Some v \<Rightarrow> Some v)
             \<and> results_bucket (snd (fst (get_stack_resources env cfg w))) =
                 (case map_of (rev (outputs_read (outputs_of st))) ''AthenaResultsBucketName'' of
                    None \<Rightarrow> results_bucket cfg | Some v \<Rightarrow> Some v)"
  proof (intro allI impI conjI)
    fix st sts
    assume a: "fst (describe_stacks env (stack_name cfg) w) = Inr (st # sts)"
      and b: "\<not> sublist ''DELETE'' (StackStatus st)"
    note r = get_stack_resources_resolved [OF a b]
    show "fst (fst (get_stack_resources env cfg w)) = list_all output_complete (outputs_of st)"
      by (rule r(1))
    show "lambda_function_name (snd (fst (get_stack_resources env cfg w))) =
                 (case map_of (rev (outputs_read (outputs_of st))) ''LambdaFunctionName'' of
                    None \<Rightarrow> lambda_function_name cfg | Some v \<Rightarrow> v)"
      unfolding r(2) by (rule stack_outputs_function)
    show "data_bucket (snd (fst (get_stack_resources env cfg w))) =
                 (case map_of (rev (outputs_read (outputs_of st))) ''DataBucketName'' of
                    None \<Rightarrow> data_bucket cfg | Some v \<Rightarrow> Some v)"
      unfolding r(2) by (rule stack_outputs_data_bucket)
    show "results_bucket (snd (fst (get_stack_resources env cfg w))) =
                 (case map_of (rev (outputs_read (outputs_of st))) ''AthenaResultsBucketName'' of
                    None \<Rightarrow> results_bucket cfg | Some v \<Rightarrow> Some v)"
      unfolding r(2) by (rule stack_outputs_results_bucket)
  qed
  note warning = get_stack_resources_warning [of env cfg w]
  note none = get_stack_outputs_none [of client r]
  have error: "fst (get_stack_outputs client r) = None
        \<longrightarrow> (\<exists>m. snd (get_stack_outputs client r) =
                   (if client = None then [Call (DescribeStacks ''DataPipelineStack'')] else [])
                   @ [Print (StackOutputsError m), Print StackOutputsHint])"
    using get_stack_outputs_error [of client r] by (rule impI)
  have defaults: "\<forall>config. fst (get_stack_outputs client r) = Some config
         \<longrightarrow> config ''glue_database_name'' = Some ''data_pipeline_db''
             \<and> config ''glue_crawler_name'' = Some ''data-pipeline-crawler''
             \<and> config ''athena_workgroup'' = Some ''data-pipeline-workgroup''"
    using get_stack_outputs_defaults [of client r] by blast
  show ?thesis
    by (intro conjI n1 n2 n3 n4 unresolved resolved warning none error defaults)
qed

theorem resource_resolution_witness:
  "fst (get_stack_resources gone_aws init_config 0) = (False, init_config)
   \<and> (fst (fst (get_stack_resources deployed_aws init_config 0))
      \<and> lambda_function_name (snd (fst (get_stack_resources deployed_aws init_config 0))) =
          ''data-pipeline-data-extractor''
      \<and> data_bucket (snd (fst (get_stack_resources deployed_aws init_config 0))) =
          Some ''data-pipeline-bucket-x''
      \<and> results_bucket (snd (fst (get_stack_resources deployed_aws init_config 0))) =
          Some ''data-pipeline-results-x'')
   \<and> (\<not> fst (fst (get_stack_resources truncated_aws init_config 0))
      \<and> lambda_function_name (snd (fst (get_stack_resources truncated_aws init_config 0))) =
          ''extractor-v2''
      \<and> data_bucket (snd (fst (get_stack_resources truncated_aws init_config 0))) = None)
   \<and> Print (Resolving WillUseDefaultNames)
       \<in> set (snd (snd (get_stack_resources truncated_aws init_config 0)))
   \<and> (\<exists>m. snd (get_stack_outputs (Some (Exn OtherException ''NoRegionError'')) (Inr [])) =
            [Print (StackOutputsError m), Print StackOutputsHint])
   \<and> (\<exists>config. fst (get_stack_outputs None (Inr [deployed_stack])) = Some config
         \<and> config ''glue_crawler_name'' = Some ''data-pipeline-crawler'')"
proof -
  note env = gone_aws_def deployed_aws_def truncated_aws_def init_config_def
  note voc = outputs_of_def outputs_read_def output_pairs_def output_complete_def
    deployed_stack_def truncated_stack_def sublist_code(3)
  have a: "fst (get_stack_resources gone_aws init_config 0) = (False, init_config)"
    using resource_resolution [of gone_aws init_config 0 client r,
        THEN conjunct2, THEN conjunct2, THEN conjunct2, THEN conjunct2, THEN conjunct1]
    by (simp add: env)
  have b: "fst (fst (get_stack_resources deployed_aws init_config 0))
      \<and> lambda_function_name (snd (fst (get_stack_resources deployed_aws init_config 0))) =
          ''data-pipeline-data-extractor''
      \<and> data_bucket (snd (fst (get_stack_resources deployed_aws init_config 0))) =
          Some ''data-pipeline-bucket-x''
      \<and> results_bucket (snd (fst (get_stack_resources deployed_aws init_config 0))) =
          Some ''data-pipeline-results-x''"
    using resource_resolution [of deployed_aws init_config 0 client r,
        THEN conjunct2, THEN conjunct2, THEN conjunct2, THEN conjunct2, THEN conjunct2,
        THEN conjunct1, rule_format, of deployed_stack "[]"]
    by (simp add: env voc)
  have c: "\<not> fst (fst (get_stack_resources truncated_aws init_config 0))
      \<and> lambda_function_name (snd (fst (get_stack_resources truncated_aws init_config 0))) =
          ''extractor-v2''
      \<and> data_bucket (snd (fst (get_stack_resources truncated_aws init_config 0))) = None"
    using resource_resolution [of truncated_aws init_config 0 client r,
        THEN conjunct2, THEN conjunct2, THEN conjunct2, THEN conjunct2, THEN conjunct2,
        THEN conjunct1, rule_format, of truncated_stack "[]"]
    by (simp add: env voc)
  have d: "Print (Resolving WillUseDefaultNames)
       \<in> set (snd (snd (get_stack_resources truncated_aws init_config 0)))"
    using resource_resolution [of truncated_aws init_config 0 client r,
        THEN conjunct2, THEN conjunct2, THEN conjunct2, THEN conjunct2, THEN conjunct2,
        THEN conjunct2, THEN conjunct1]
    by (simp add: env voc)
  have e: "\<exists>m. snd (get_stack_outputs (Some (Exn OtherException ''NoRegionError'')) (Inr [])) =
            [Print (StackOutputsError m), Print StackOutputsHint]"
    using resource_resolution [of env cfg w "Some (Exn OtherException ''NoRegionError'')" "Inr []",
        THEN conjunct2, THEN conjunct2, THEN conjunct2, THEN conjunct2, THEN conjunct2,
        THEN conjunct2, THEN conjunct2]
    by simp
  have "fst (get_stack_outputs None (Inr [deployed_stack])) \<noteq> None"
    using resource_resolution [of env cfg w None "Inr [deployed_stack]",
        THEN conjunct2, THEN conjunct2, THEN conjunct2, THEN conjunct2, THEN conjunct2,
        THEN conjunct2, THEN conjunct2, THEN conjunct1]
    by (simp add: voc)
  then obtain config where config: "fst (get_stack_outputs None (Inr [deployed_stack])) = Some config"
    by blast
  then have "config ''glue_crawler_name'' = Some ''data-pipeline-crawler''"
    using resource_resolution [of env cfg w None "Inr [deployed_stack]",
        THEN conjunct2, THEN conjunct2, THEN conjunct2, THEN conjunct2, THEN conjunct2,
        THEN conjunct2, THEN conjunct2, THEN conjunct2, THEN conjunct2, rule_format, of config]
    by simp
  with config have f: "\<exists>config. fst (get_stack_outputs None (Inr [deployed_stack])) = Some config
         \<and> config ''glue_crawler_name'' = Some ''data-pipeline-crawler''"
    by blast
  from a b c d e f show ?thesis
    by blast
qed

end
